(* ===== verification/DPrelude.thy ===== *)
theory DPrelude
  imports Main "HOL-Library.Word"
begin

text \<open>
  The prelude of the development: the error values and the result type of the
  fallible operations, the ordered map that stands for the concurrent skip list
  of the log and for every \<^verbatim>\<open>BTreeMap\<close> of the engine, and the list facts the
  components share.

  \<^item> Every raise, early \<^verbatim>\<open>return Err(..)\<close> and panic of the source is an
    \<^verbatim>\<open>Inl\<close> value of a \<^verbatim>\<open>result\<close>; panics use the constructor \<^verbatim>\<open>Panic\<close>.
  \<^item> Indices, terms and node identifiers (\<^verbatim>\<open>u64\<close>, \<^verbatim>\<open>u32\<close>) are natural numbers;
    \<^verbatim>\<open>u64_max\<close> is written out where the code compares with it or checks for overflow.
  \<^item> An ordered map is an association list with strictly increasing keys.
\<close>

named_theorems log_simps "equations that evaluate the log operations"
named_theorems role_simps "equations that evaluate the role handlers"

type_synonym u64 = nat
type_synonym node_id = nat
type_synonym 'v omap = "(nat \<times> 'v) list"

definition u64_max :: nat where
  "u64_max = 2 ^ 64 - 1"

datatype error =
    Panic string
  | Fatal string
  | StorageError string
  | HigherTerm u64
  | QuorumFailure nat nat
  | LogConflict u64 u64 u64
  | NoVotingMemberFound node_id
  | SignalSendFailed string
  | RoleViolation string string string
  | InvalidTransition
  | NotLeader "node_id option"
  | NoPeersAvailable node_id
  | PersistError string
  | ReplicationError string
  | IdAllocationOverflow u64 u64
  | InconsistentPrevLogTerm node_id u64 u64 u64
  | DataCorruption string
  | BoundaryConflict string
  | SnapshotError string
  | MembershipError string
  | JoinClusterFailed node_id
  | RetryTimeoutError u64
  | ConfigError string

type_synonym 'a result = "error + 'a"

definition bind_result :: "'a result \<Rightarrow> ('a \<Rightarrow> 'b result) \<Rightarrow> 'b result" where
  "bind_result r f = (case r of Inl e \<Rightarrow> Inl e | Inr x \<Rightarrow> f x)"

definition is_fatal :: "error \<Rightarrow> bool" where
  "is_fatal e = (case e of Fatal _ \<Rightarrow> True | DataCorruption _ \<Rightarrow> True
                 | BoundaryConflict _ \<Rightarrow> True | _ \<Rightarrow> False)"

definition is_ok :: "'a result \<Rightarrow> bool" where
  "is_ok r = (case r of Inl _ \<Rightarrow> False | Inr _ \<Rightarrow> True)"

text \<open>Saturating subtraction on \<^verbatim>\<open>u64\<close> is subtraction on natural numbers; saturating
  addition stops at \<^verbatim>\<open>u64::MAX\<close>.\<close>

definition sat_add :: "u64 \<Rightarrow> u64 \<Rightarrow> u64" where
  "sat_add a b = min (a + b) u64_max"

text \<open>The ordered map: lookup, insertion with overwrite, the smallest and the largest
  key, the bindings of a key range in key order, and removal of a key range.\<close>

definition om_get :: "'v omap \<Rightarrow> nat \<Rightarrow> 'v option" where
  "om_get m k = map_of m k"

definition om_put :: "nat \<Rightarrow> 'v \<Rightarrow> 'v omap \<Rightarrow> 'v omap" where
  "om_put k v m = filter (\<lambda>b. fst b < k) m @ (k, v) # filter (\<lambda>b. k < fst b) m"

definition om_front :: "'v omap \<Rightarrow> nat option" where
  "om_front m = (case m of [] \<Rightarrow> None | b # _ \<Rightarrow> Some (fst b))"

definition om_back :: "'v omap \<Rightarrow> nat option" where
  "om_back m = (if m = [] then None else Some (fst (last m)))"

definition om_range :: "nat \<Rightarrow> nat \<Rightarrow> 'v omap \<Rightarrow> 'v list" where
  "om_range a b m = map snd (filter (\<lambda>x. a \<le> fst x \<and> fst x \<le> b) m)"

definition om_del_range :: "nat \<Rightarrow> nat \<Rightarrow> 'v omap \<Rightarrow> 'v omap" where
  "om_del_range a b m = filter (\<lambda>x. \<not> (a \<le> fst x \<and> fst x \<le> b)) m"

definition om_keys :: "'v omap \<Rightarrow> nat list" where
  "om_keys m = map fst m"

definition om_wf :: "'v omap \<Rightarrow> bool" where
  "om_wf m = sorted_wrt (<) (map fst m)"

lemma bind_result_simps [simp]:
  "bind_result (Inl e) f = Inl e"
  "bind_result (Inr x) f = f x"
  by (simp_all add: bind_result_def)

lemma bind_result_Inr_iff:
  "bind_result r f = Inr y \<longleftrightarrow> (\<exists>x. r = Inr x \<and> f x = Inr y)"
  by (cases r) simp_all

lemma bind_result_InrE:
  assumes "bind_result r f = Inr y"
  obtains x where "r = Inr x" and "f x = Inr y"
  using assms by (auto simp: bind_result_Inr_iff)

lemma is_ok_simps [simp]:
  "\<not> is_ok (Inl e)"
  "is_ok (Inr x)"
  by (simp_all add: is_ok_def)

lemma map_of_filter_fst:
  "map_of (filter (\<lambda>b. P (fst b)) m) k = (if P k then map_of m k else None)"
  by (induction m) auto

lemma om_wf_simps [simp]:
  "om_wf []"
  "om_wf (b # m) \<longleftrightarrow> (\<forall>c \<in> set m. fst b < fst c) \<and> om_wf m"
  by (auto simp: om_wf_def)

lemma om_wf_append:
  "om_wf (m @ n) \<longleftrightarrow> om_wf m \<and> om_wf n \<and> (\<forall>b \<in> set m. \<forall>c \<in> set n. fst b < fst c)"
  by (auto simp: om_wf_def sorted_wrt_append)

lemma om_wf_filter: "om_wf m \<Longrightarrow> om_wf (filter P m)"
  by (induction m) auto

lemma om_wf_put: "om_wf m \<Longrightarrow> om_wf (om_put k v m)"
  by (auto simp: om_put_def om_wf_append om_wf_filter)

lemma om_wf_del_range: "om_wf m \<Longrightarrow> om_wf (om_del_range a b m)"
  by (simp add: om_del_range_def om_wf_filter)

lemma om_wf_distinct: "om_wf m \<Longrightarrow> distinct (map fst m)"
  by (induction m) force+

lemma om_get_Some_iff:
  "om_wf m \<Longrightarrow> om_get m k = Some v \<longleftrightarrow> (k, v) \<in> set m"
  by (simp add: om_get_def om_wf_distinct)

lemma om_get_put:
  "om_get (om_put k v m) = (om_get m)(k \<mapsto> v)"
  by (rule ext)
    (auto simp: om_get_def om_put_def map_add_def map_of_filter_fst [of "\<lambda>x. x < k"]
        map_of_filter_fst [of "\<lambda>x. k < x"] split: option.splits)

lemma om_get_del_range:
  "om_get (om_del_range a b m) k = (if a \<le> k \<and> k \<le> b then None else om_get m k)"
  using map_of_filter_fst [of "\<lambda>x. \<not> (a \<le> x \<and> x \<le> b)" m k]
  by (auto simp: om_get_def om_del_range_def)

lemma om_get_Nil [simp]: "om_get [] k = None"
  by (simp add: om_get_def)

lemma om_get_None_iff: "om_get m k = None \<longleftrightarrow> k \<notin> fst ` set m"
  by (simp add: om_get_def map_of_eq_None_iff)

lemma om_front_le:
  "om_wf m \<Longrightarrow> om_front m = Some k \<Longrightarrow> b \<in> set m \<Longrightarrow> k \<le> fst b"
  by (cases m) (auto simp: om_front_def order.order_iff_strict)

lemma om_front_mem: "om_front m = Some k \<Longrightarrow> k \<in> fst ` set m"
  by (cases m) (auto simp: om_front_def)

lemma om_back_snoc [simp]: "om_back (m @ [b]) = Some (fst b)"
  by (simp add: om_back_def)

lemma om_back_le:
  "om_wf m \<Longrightarrow> om_back m = Some k \<Longrightarrow> b \<in> set m \<Longrightarrow> fst b \<le> k"
  by (cases m rule: rev_cases) (auto simp: om_back_def om_wf_append order.order_iff_strict)

lemma om_back_mem: "om_back m = Some k \<Longrightarrow> k \<in> fst ` set m"
  by (cases m rule: rev_cases) (auto simp: om_back_def)

lemma om_front_None_iff [simp]: "om_front m = None \<longleftrightarrow> m = []"
  by (cases m) (simp_all add: om_front_def)

lemma om_back_None_iff [simp]: "om_back m = None \<longleftrightarrow> m = []"
  by (simp add: om_back_def)

lemma om_range_set:
  "om_wf m \<Longrightarrow> set (om_range a b m) = {v. \<exists>k. a \<le> k \<and> k \<le> b \<and> om_get m k = Some v}"
  by (force simp: om_range_def om_get_Some_iff)

end
