(* ===== verification/Raft_Types.thy ===== *)
theory Raft_Types
  imports DPrelude
begin

text \<open>
  The messages of the engine (\<^verbatim>\<open>d-engine-proto\<close>: \<^verbatim>\<open>common.proto\<close>, \<^verbatim>\<open>election.proto\<close>,
  \<^verbatim>\<open>replication.proto\<close>) as records and datatypes, with the constructors and tests the
  crate adds to them (\<^verbatim>\<open>exts/replication_ext.rs\<close>, \<^verbatim>\<open>exts/common_ext.rs\<close>), and the term,
  log-recency and majority helpers of \<^verbatim>\<open>d-engine-core/src/lib.rs\<close> and
  \<^verbatim>\<open>utils/cluster.rs\<close>.  A command's bytes are a string.
\<close>

record log_id =
  lid_term :: u64
  lid_index :: u64

datatype node_status = NS_Unspecified | NS_Promotable | NS_ReadOnly | NS_Active

datatype node_role = NR_Unspecified | NR_Follower | NR_Candidate | NR_Leader | NR_Learner

record node_meta =
  nm_id :: node_id
  nm_address :: string
  nm_role :: node_role
  nm_status :: node_status

datatype change =
    AddNode node_id string node_status
  | RemoveNode node_id
  | PromoteLearner node_id node_status
  | BatchPromote "node_id list" node_status
  | BatchRemove "node_id list"

datatype payload = Noop | Command string | Config "change option"

record entry =
  e_index :: u64
  e_term :: u64
  e_payload :: "payload option"

record vote_request =
  vq_term :: u64
  vq_candidate_id :: node_id
  vq_last_log_index :: u64
  vq_last_log_term :: u64

record vote_response =
  vr_term :: u64
  vr_granted :: bool
  vr_last_log_index :: u64
  vr_last_log_term :: u64

record voted_for =
  vf_id :: node_id
  vf_term :: u64
  vf_committed :: bool

record hard_state =
  hs_current_term :: u64
  hs_voted_for :: "voted_for option"

record append_request =
  ae_term :: u64
  ae_leader_id :: node_id
  ae_prev_log_index :: u64
  ae_prev_log_term :: u64
  ae_entries :: "entry list"
  ae_leader_commit :: u64

datatype ae_result =
    AESuccess "log_id option"
  | AEConflict "u64 option" "u64 option"
  | AEHigherTerm u64

record append_response =
  ar_node_id :: node_id
  ar_term :: u64
  ar_result :: "ae_result option"

abbreviation mk_entry :: "u64 \<Rightarrow> u64 \<Rightarrow> payload \<Rightarrow> entry" where
  "mk_entry i t p \<equiv> \<lparr>e_index = i, e_term = t, e_payload = Some p\<rparr>"

abbreviation mk_lid :: "u64 \<Rightarrow> u64 \<Rightarrow> log_id" where
  "mk_lid t i \<equiv> \<lparr>lid_term = t, lid_index = i\<rparr>"

section \<open>Events of the Raft loop\<close>

text \<open>Response channels are named by numbers (\<^verbatim>\<open>chan\<close>); what is sent on them is recorded
  by the component that answers.\<close>

type_synonym chan = nat

record new_commit_data =
  nc_index :: u64
  nc_role :: node_role
  nc_term :: u64

record apply_result =
  ap_index :: u64
  ap_succeeded :: bool

record snapshot_metadata =
  sm_last_included :: "log_id option"
  sm_checksum :: string

datatype snapshot_apply_result = Applied log_id | IgnoredStale log_id | IgnoredDuplicate log_id

record conf_change_request =
  cc_id :: node_id
  cc_term :: u64
  cc_version :: u64
  cc_change :: "change option"

record join_request =
  jr_node_id :: node_id
  jr_role :: node_role
  jr_address :: string
  jr_status :: node_status

datatype inbound_event =
    ReceiveVoteRequest vote_request chan
  | ClusterConf chan
  | ClusterConfUpdate conf_change_request chan
  | AppendEntries append_request "chan list"
  | InstallSnapshotChunk chan
  | JoinCluster join_request chan
  | DiscoverLeader node_id string chan
  | InboundFatal string string

datatype internal_event =
    BecomeFollower "node_id option"
  | BecomeCandidate
  | BecomeLeader
  | BecomeLearner
  | NotifyNewCommitIndex new_commit_data
  | LeaderDiscovered node_id u64
  | ReprocessEvent inbound_event
  | LogFlushed u64
  | AppendResult node_id "append_response result"
  | SnapshotPushCompleted node_id bool u64 "u64 option"
  | NoopCommitted u64
  | ApplyCompleted u64 "apply_result list"
  | CreateSnapshotEvent
  | SnapshotCreated "(snapshot_metadata \<times> string) result"
  | StepDownSelfRemoved
  | MembershipApplied
  | PromoteReadyLearners
  | LogPurgeCompleted log_id
  | PeerStreamError node_id
  | ZombieDetected node_id
  | FatalError string string

section \<open>Payload constructors and tests\<close>

definition payload_command :: "string \<Rightarrow> payload option" where
  "payload_command c = Some (Command c)"

definition payload_noop :: "payload option" where
  "payload_noop = Some Noop"

definition payload_config :: "change \<Rightarrow> payload option" where
  "payload_config c = Some (Config (Some c))"

definition is_config :: "payload option \<Rightarrow> bool" where
  "is_config p = (case p of Some (Command _) \<Rightarrow> False | Some (Config _) \<Rightarrow> True
                  | Some Noop \<Rightarrow> False | None \<Rightarrow> False)"

definition is_command :: "payload option \<Rightarrow> bool" where
  "is_command p = (case p of Some (Command _) \<Rightarrow> True | Some (Config _) \<Rightarrow> False
                   | Some Noop \<Rightarrow> False | None \<Rightarrow> False)"

definition is_noop :: "payload option \<Rightarrow> bool" where
  "is_noop p = (case p of Some (Command _) \<Rightarrow> False | Some (Config _) \<Rightarrow> False
                | Some Noop \<Rightarrow> True | None \<Rightarrow> False)"

section \<open>Append responses\<close>

definition ar_success :: "node_id \<Rightarrow> u64 \<Rightarrow> log_id option \<Rightarrow> append_response" where
  "ar_success n t m = \<lparr>ar_node_id = n, ar_term = t, ar_result = Some (AESuccess m)\<rparr>"

definition ar_conflict ::
    "node_id \<Rightarrow> u64 \<Rightarrow> u64 option \<Rightarrow> u64 option \<Rightarrow> append_response" where
  "ar_conflict n t ct ci = \<lparr>ar_node_id = n, ar_term = t, ar_result = Some (AEConflict ct ci)\<rparr>"

definition ar_higher_term :: "node_id \<Rightarrow> u64 \<Rightarrow> append_response" where
  "ar_higher_term n t = \<lparr>ar_node_id = n, ar_term = t, ar_result = Some (AEHigherTerm t)\<rparr>"

definition ar_is_success :: "append_response \<Rightarrow> bool" where
  "ar_is_success r = (case ar_result r of Some (AESuccess _) \<Rightarrow> True
                      | Some (AEConflict _ _) \<Rightarrow> False | Some (AEHigherTerm _) \<Rightarrow> False
                      | None \<Rightarrow> False)"

definition ar_is_conflict :: "append_response \<Rightarrow> bool" where
  "ar_is_conflict r = (case ar_result r of Some (AEConflict _ _) \<Rightarrow> True
                       | Some (AESuccess _) \<Rightarrow> False | Some (AEHigherTerm _) \<Rightarrow> False
                       | None \<Rightarrow> False)"

definition ar_is_higher_term :: "append_response \<Rightarrow> bool" where
  "ar_is_higher_term r = (case ar_result r of Some (AEHigherTerm _) \<Rightarrow> True
                          | Some (AEConflict _ _) \<Rightarrow> False | Some (AESuccess _) \<Rightarrow> False
                          | None \<Rightarrow> False)"

end
