(* ===== verification/Quorum.thy ===== *)
theory Quorum
  imports Raft_Types
begin

text \<open>
  Majorities (\<^verbatim>\<open>d-engine-core/src/utils/cluster.rs\<close>), the term and log comparisons of
  \<^verbatim>\<open>d-engine-core/src/lib.rs\<close>, and the interface the election and the commit rule rely on:
  a quorum system, in which any two quorums of the same membership share a node.
\<close>

definition is_majority :: "nat \<Rightarrow> nat \<Rightarrow> bool" where
  "is_majority num total_nodes = (num > total_nodes div 2)"

definition majority_count :: "nat \<Rightarrow> nat" where
  "majority_count total_nodes = total_nodes div 2 + 1"

definition if_higher_term_found :: "u64 \<Rightarrow> u64 \<Rightarrow> bool \<Rightarrow> bool" where
  "if_higher_term_found my_current_term trm is_learner =
     (if \<not> is_learner \<and> my_current_term < trm then True else False)"

definition is_target_log_more_recent :: "u64 \<Rightarrow> u64 \<Rightarrow> u64 \<Rightarrow> u64 \<Rightarrow> bool" where
  "is_target_log_more_recent my_last_log_index my_last_log_term
       target_last_log_index target_last_log_term =
     (target_last_log_term > my_last_log_term
      \<or> target_last_log_term = my_last_log_term
         \<and> target_last_log_index \<ge> my_last_log_index)"

text \<open>A set of nodes that \<^verbatim>\<open>is_majority\<close> accepts against the size of the membership.\<close>

definition majority_of :: "node_id set \<Rightarrow> node_id set \<Rightarrow> bool" where
  "majority_of members q = (finite members \<and> q \<subseteq> members \<and> is_majority (card q) (card members))"

locale quorum_system =
  fixes quorum :: "'n set \<Rightarrow> 'n set \<Rightarrow> bool"
  assumes quorum_inter: "quorum m a \<Longrightarrow> quorum m b \<Longrightarrow> a \<inter> b \<noteq> {}"
    and quorum_mono: "quorum m a \<Longrightarrow> a \<subseteq> b \<Longrightarrow> b \<subseteq> m \<Longrightarrow> quorum m b"
    and quorum_sub: "quorum m a \<Longrightarrow> a \<subseteq> m"
begin

lemma quorum_common:
  assumes "quorum m a" and "quorum m b"
  obtains n where "n \<in> a" and "n \<in> b" and "n \<in> m"
  using quorum_inter [OF assms] quorum_sub [OF assms(1)] by blast

lemma quorum_nonempty: "quorum m a \<Longrightarrow> a \<noteq> {}"
  using quorum_inter [of m a a] by auto

lemma quorum_choice_unique:
  assumes "quorum m {n \<in> m. f n = Some x}" and "quorum m {n \<in> m. f n = Some y}"
  shows "x = y"
  using quorum_common [OF assms] by fastforce

lemma quorum_sees:
  assumes "quorum m a" and "\<And>n. n \<in> a \<Longrightarrow> P n" and "quorum m b"
  shows "\<exists>n \<in> b. P n"
  using quorum_common [OF assms(1,3)] assms(2) by blast

end

lemma is_majority_iff_count: "is_majority n t \<longleftrightarrow> majority_count t \<le> n"
  by (auto simp: is_majority_def majority_count_def)

lemma is_majority_double: "is_majority n t \<longleftrightarrow> t < 2 * n"
  by (auto simp: is_majority_def)

lemma majority_of_inter:
  assumes "majority_of m a" and "majority_of m b"
  shows "a \<inter> b \<noteq> {}"
proof
  assume "a \<inter> b = {}"
  have "finite a" "finite b" "finite m" "a \<union> b \<subseteq> m"
    using assms by (auto simp: majority_of_def intro: finite_subset)
  then have "card a + card b \<le> card m"
    using \<open>a \<inter> b = {}\<close> by (metis card_Un_disjoint card_mono)
  then show False
    using assms by (simp add: majority_of_def is_majority_double)
qed

lemma majority_of_mono:
  assumes "majority_of m a" and "a \<subseteq> b" and "b \<subseteq> m"
  shows "majority_of m b"
proof -
  have "card a \<le> card b"
    using assms by (auto simp: majority_of_def intro: card_mono finite_subset)
  then show ?thesis
    using assms by (auto simp: majority_of_def is_majority_def)
qed

interpretation maj: quorum_system majority_of
proof unfold_locales
  show "a \<inter> b \<noteq> {}" if "majority_of m a" and "majority_of m b" for m a b
    using that by (rule majority_of_inter)
  show "majority_of m b" if "majority_of m a" and "a \<subseteq> b" and "b \<subseteq> m" for m a b
    using that by (rule majority_of_mono)
  show "a \<subseteq> m" if "majority_of m a" for m a
    using that by (simp add: majority_of_def)
qed

text \<open>The up-to-date comparison is the total preorder of the Raft paper: lexicographic in
  term and index.\<close>

lemma more_recent_refl: "is_target_log_more_recent i t i t"
  by (simp add: is_target_log_more_recent_def)

lemma more_recent_trans:
  "is_target_log_more_recent i1 t1 i2 t2 \<Longrightarrow> is_target_log_more_recent i2 t2 i3 t3
   \<Longrightarrow> is_target_log_more_recent i1 t1 i3 t3"
  by (auto simp: is_target_log_more_recent_def)

lemma more_recent_total:
  "is_target_log_more_recent i1 t1 i2 t2 \<or> is_target_log_more_recent i2 t2 i1 t1"
  by (auto simp: is_target_log_more_recent_def)

lemma more_recent_antisym:
  "is_target_log_more_recent i1 t1 i2 t2 \<Longrightarrow> is_target_log_more_recent i2 t2 i1 t1
   \<Longrightarrow> i1 = i2 \<and> t1 = t2"
  by (auto simp: is_target_log_more_recent_def)

end
