(* ===== verification/Read_Lease.thy ===== *)
theory Read_Lease
  imports DPrelude
begin

unbundle bit_operations_syntax

text \<open>
  The lock-free read lease (\<^verbatim>\<open>d-engine-core/src/raft_role/read_lease.rs\<close>): a term and a
  deadline packed in one 64-bit word.  The one field is the word itself; a failed
  \<^verbatim>\<open>assert!\<close> of \<^verbatim>\<open>pack\<close> is a \<^verbatim>\<open>Panic\<close>.
\<close>

type_synonym read_lease = "64 word"

definition DEADLINE_MASK :: "64 word" where
  "DEADLINE_MASK = push_bit 48 1 - 1"

definition TERM_SHIFT :: nat where
  "TERM_SHIFT = 48"

definition lease_new :: read_lease where
  "lease_new = 0"

definition pack :: "64 word \<Rightarrow> 64 word \<Rightarrow> 64 word result" where
  "pack trm deadline_ms =
     (if deadline_ms \<le> DEADLINE_MASK
      then Inr (push_bit TERM_SHIFT (trm AND 0xFFFF) OR (deadline_ms AND DEADLINE_MASK))
      else Inl (Panic ''deadline_ms overflows 48 bits''))"

definition unpack :: "64 word \<Rightarrow> 64 word \<times> 64 word" where
  "unpack v = (drop_bit TERM_SHIFT v, v AND DEADLINE_MASK)"

definition renew :: "read_lease \<Rightarrow> 64 word \<Rightarrow> 64 word \<Rightarrow> read_lease result" where
  "renew _ trm deadline_ms = pack trm deadline_ms"

definition invalidate :: "read_lease \<Rightarrow> 64 word \<Rightarrow> read_lease result" where
  "invalidate _ new_term = pack new_term 0"

definition revoke :: "read_lease \<Rightarrow> read_lease" where
  "revoke _ = 0"

definition is_valid :: "read_lease \<Rightarrow> 64 word \<Rightarrow> bool" where
  "is_valid packed now_ms = (packed AND DEADLINE_MASK > now_ms)"

definition is_valid_for_leader :: "read_lease \<Rightarrow> 64 word \<Rightarrow> 64 word \<Rightarrow> bool" where
  "is_valid_for_leader packed current_term now_ms =
     (let (trm, deadline) = unpack packed
      in trm = current_term AND 0xFFFF \<and> deadline > now_ms)"

lemma DEADLINE_MASK_eq: "DEADLINE_MASK = mask 48"
  by (simp add: DEADLINE_MASK_def mask_eq_decr_exp)

lemma term_mask_eq: "(0xFFFF :: 64 word) = mask 16"
  by (simp add: mask_eq_decr_exp)

lemma deadline_bits:
  fixes d :: "64 word"
  assumes "d \<le> DEADLINE_MASK"
  shows "(d AND DEADLINE_MASK) = d"
proof -
  have "take_bit 48 d = d"
    using assms
    by (simp add: DEADLINE_MASK_eq word_le_nat_alt word_unat_eq_iff unsigned_take_bit_eq
        take_bit_nat_eq_self_iff mask_eq_exp_minus_1)
  then show ?thesis
    by (simp add: DEADLINE_MASK_eq take_bit_eq_mask)
qed

lemma unpack_packed:
  fixes t d :: "64 word"
  shows "unpack (push_bit TERM_SHIFT (t AND 0xFFFF) OR (d AND DEADLINE_MASK))
         = (t AND 0xFFFF, d AND DEADLINE_MASK)"
proof -
  have "drop_bit 48 (push_bit 48 (t AND mask 16) OR (d AND mask 48)) = t AND mask 16"
    by (rule bit_word_eqI) (auto simp: bit_simps)
  moreover have "(push_bit 48 (t AND mask 16) OR (d AND mask 48)) AND mask 48 = d AND mask 48"
    by (rule bit_word_eqI) (auto simp: bit_simps)
  ultimately show ?thesis
    by (simp only: unpack_def TERM_SHIFT_def DEADLINE_MASK_eq term_mask_eq)
qed

lemma pack_ok:
  fixes t d :: "64 word"
  assumes "d \<le> DEADLINE_MASK" and "pack t d = Inr v"
  shows "unpack v = (t AND 0xFFFF, d)" and "v AND DEADLINE_MASK = d"
proof -
  show "unpack v = (t AND 0xFFFF, d)"
    using assms unpack_packed [of t d] deadline_bits [of d] by (simp add: pack_def)
  then show "v AND DEADLINE_MASK = d"
    by (simp add: unpack_def)
qed

text \<open>C20: a renewed lease holds exactly the term (to 16 bits) and the deadline it was given.
  For every deadline that fits in 48 bits \<^verbatim>\<open>renew\<close> succeeds, unpacking returns the term
  masked to 16 bits and the deadline unchanged, and the two validity checks agree with the
  documented meaning: the lease is live exactly before its deadline, and live for a leader
  exactly when moreover the terms agree modulo \<open>2 ^ 16\<close>.\<close>

theorem renew_round_trip:
  fixes t d :: "64 word"
  assumes "d \<le> DEADLINE_MASK"
  shows "\<exists>v. renew l t d = Inr v \<and> unpack v = (t AND 0xFFFF, d)
           \<and> (\<forall>now. is_valid v now = (now < d))
           \<and> (\<forall>t' now. is_valid_for_leader v t' now
                 = ((t' AND 0xFFFF) = (t AND 0xFFFF) \<and> now < d))"
proof -
  obtain v where v: "pack t d = Inr v"
    using assms by (simp add: pack_def)
  show ?thesis
    using pack_ok [OF assms v] v
    by (auto simp: renew_def is_valid_def is_valid_for_leader_def)
qed

theorem renew_round_trip_witness:
  "\<exists>v. renew 0 7 5000 = Inr v \<and> unpack v = (7 AND 0xFFFF, 5000)
     \<and> (\<forall>now. is_valid v now = (now < 5000))
     \<and> (\<forall>t' now. is_valid_for_leader v t' now
           = ((t' AND 0xFFFF) = ((7 :: 64 word) AND 0xFFFF) \<and> now < 5000))"
  by (rule renew_round_trip) (simp add: DEADLINE_MASK_def)

text \<open>C21: after the lease is revoked or invalidated no reader accepts it, whatever term and
  time it asks with, and a deadline that does not fit in 48 bits never becomes a lease: the
  renewal fails its assertion.\<close>

theorem revoked_lease_never_valid:
  "\<not> is_valid (revoke l) now \<and> \<not> is_valid_for_leader (revoke l) t now
   \<and> (\<exists>v. invalidate l t' = Inr v \<and> \<not> is_valid v now \<and> \<not> is_valid_for_leader v t now)
   \<and> (if d \<le> DEADLINE_MASK then is_ok (renew l t d)
      else renew l t d = Inl (Panic ''deadline_ms overflows 48 bits''))"
proof -
  obtain v where v: "pack t' 0 = Inr v"
    by (simp add: pack_def)
  show ?thesis
    using pack_ok [OF _ v] v
    by (auto simp: revoke_def invalidate_def renew_def pack_def is_valid_def
        is_valid_for_leader_def unpack_def)
qed

end
