(* ===== verification/Term_Segments.thy ===== *)
theory Term_Segments
  imports Raft_Types
begin

text \<open>
  The compact term index of the in-memory log (\<^verbatim>\<open>TermSegments\<close> of
  \<^verbatim>\<open>d-engine-core/src/storage/buffered_raft_log.rs\<close>).  The current segment is a pair of
  fields; the older ones are two parallel arrays of 1024 slots, modelled as functions on
  slot numbers together with the bounds check of the array access, whose failure is a
  \<^verbatim>\<open>Panic\<close>.  The lemmas show what an append does to every lookup, and the invariant under
  which the index never contradicts the log.
\<close>

definition MAX_TERM_SEGMENTS :: nat where
  "MAX_TERM_SEGMENTS = 1024"

record term_segments =
  ts_last_term :: u64
  ts_last_term_start :: u64
  ts_seg_count :: nat
  ts_seg_starts :: "nat \<Rightarrow> u64"
  ts_seg_terms :: "nat \<Rightarrow> u64"

definition ts_new :: term_segments where
  "ts_new = \<lparr>ts_last_term = 0, ts_last_term_start = 0, ts_seg_count = 0,
             ts_seg_starts = (\<lambda>_. 0), ts_seg_terms = (\<lambda>_. 0)\<rparr>"

text \<open>The reverse scan over the slots below the given count.\<close>

fun ts_scan :: "term_segments \<Rightarrow> u64 \<Rightarrow> nat \<Rightarrow> u64 option result" where
  "ts_scan ts index 0 = Inr None"
| "ts_scan ts index (Suc i) =
     (if \<not> i < MAX_TERM_SEGMENTS then Inl (Panic ''index out of bounds'')
      else if ts_seg_starts ts i \<le> index then Inr (Some (ts_seg_terms ts i))
      else ts_scan ts index i)"

definition ts_get :: "term_segments \<Rightarrow> u64 \<Rightarrow> u64 option result" where
  "ts_get ts index =
     (if ts_last_term ts = 0 then Inr None
      else if index \<ge> ts_last_term_start ts then Inr (Some (ts_last_term ts))
      else ts_scan ts index (ts_seg_count ts))"

definition ts_on_append_one :: "entry \<Rightarrow> term_segments \<Rightarrow> term_segments" where
  "ts_on_append_one e ts =
     (let lt = ts_last_term ts; ls = ts_last_term_start ts in
      if e_term e = lt then
        (if e_index e < ls then ts\<lparr>ts_last_term_start := e_index e\<rparr> else ts)
      else if lt = 0 then
        ts\<lparr>ts_last_term_start := e_index e, ts_last_term := e_term e\<rparr>
      else
        (let i = ts_seg_count ts;
             ts' = ts\<lparr>ts_seg_count := i + 1\<rparr>;
             ts'' = (if i < MAX_TERM_SEGMENTS
                     then ts'\<lparr>ts_seg_starts := (ts_seg_starts ts')(i := ls),
                             ts_seg_terms := (ts_seg_terms ts')(i := lt)\<rparr>
                     else ts')
         in ts''\<lparr>ts_last_term_start := e_index e, ts_last_term := e_term e\<rparr>))"

fun ts_on_append :: "entry list \<Rightarrow> term_segments \<Rightarrow> term_segments" where
  "ts_on_append [] ts = ts"
| "ts_on_append (e # es) ts = ts_on_append es (ts_on_append_one e ts)"

definition ts_clear :: "term_segments \<Rightarrow> term_segments" where
  "ts_clear ts = ts\<lparr>ts_seg_count := 0, ts_last_term := 0, ts_last_term_start := 0\<rparr>"

text \<open>The invariant of the structure itself.\<close>

definition ts_ok :: "term_segments \<Rightarrow> bool" where
  "ts_ok ts = ((ts_last_term ts = 0 \<longrightarrow> ts_seg_count ts = 0)
               \<and> ts_seg_count ts \<le> MAX_TERM_SEGMENTS)"

text \<open>The index agrees with a log: whatever it answers for an index of the log is the term
  of the entry there, and it never runs past its arrays.\<close>

definition ts_agrees :: "term_segments \<Rightarrow> entry omap \<Rightarrow> bool" where
  "ts_agrees ts m = (\<forall>b \<in> set m. ts_get ts (fst b) = Inr None
                                \<or> ts_get ts (fst b) = Inr (Some (e_term (snd b))))"

lemma ts_scan_cong:
  "(\<And>i. i < n \<Longrightarrow> ts_seg_starts ts i = ts_seg_starts ts' i \<and> ts_seg_terms ts i = ts_seg_terms ts' i)
   \<Longrightarrow> ts_scan ts index n = ts_scan ts' index n"
  by (induction n) auto

lemma ts_count_mono: "ts_seg_count ts \<le> ts_seg_count (ts_on_append es ts)"
proof (induction es arbitrary: ts)
  case (Cons e es)
  have "ts_seg_count ts \<le> ts_seg_count (ts_on_append_one e ts)"
    by (simp add: ts_on_append_one_def Let_def)
  then show ?case
    using Cons [of "ts_on_append_one e ts"] by simp
qed simp

lemma ts_ok_append_one:
  "ts_ok ts \<Longrightarrow> 0 < e_term e \<Longrightarrow> ts_seg_count (ts_on_append_one e ts) \<le> MAX_TERM_SEGMENTS
   \<Longrightarrow> ts_ok (ts_on_append_one e ts)"
  by (auto simp: ts_ok_def ts_on_append_one_def Let_def)

lemma ts_get_append_one_below:
  assumes "ts_ok ts" and "0 < e_term e" and "i < e_index e"
    and "ts_seg_count (ts_on_append_one e ts) \<le> MAX_TERM_SEGMENTS"
  shows "ts_get (ts_on_append_one e ts) i = ts_get ts i"
proof -
  have scan: "ts_scan (ts_on_append_one e ts) i (ts_seg_count ts) = ts_scan ts i (ts_seg_count ts)"
    by (rule ts_scan_cong) (auto simp: ts_on_append_one_def Let_def)
  show ?thesis
    using assms scan
    by (auto simp: ts_get_def ts_ok_def ts_on_append_one_def Let_def split: if_splits)
qed

lemma ts_get_append_one_at:
  "0 < e_term e \<Longrightarrow> e_index e \<le> i \<Longrightarrow> ts_get (ts_on_append_one e ts) i = Inr (Some (e_term e))"
  by (auto simp: ts_get_def ts_on_append_one_def Let_def)

lemma ts_ok_append:
  "ts_ok ts \<Longrightarrow> \<forall>e \<in> set es. 0 < e_term e
   \<Longrightarrow> ts_seg_count (ts_on_append es ts) \<le> MAX_TERM_SEGMENTS \<Longrightarrow> ts_ok (ts_on_append es ts)"
proof (induction es arbitrary: ts)
  case (Cons e es)
  then show ?case
    using ts_count_mono [of "ts_on_append_one e ts" es] ts_ok_append_one [of ts e] by auto
qed simp

lemma ts_get_append_below:
  "ts_ok ts \<Longrightarrow> \<forall>e \<in> set es. 0 < e_term e \<and> i < e_index e
   \<Longrightarrow> ts_seg_count (ts_on_append es ts) \<le> MAX_TERM_SEGMENTS
   \<Longrightarrow> ts_get (ts_on_append es ts) i = ts_get ts i"
proof (induction es arbitrary: ts)
  case (Cons e es)
  then show ?case
    using ts_count_mono [of "ts_on_append_one e ts" es] ts_ok_append_one [of ts e]
    by (auto simp: ts_get_append_one_below)
qed simp

text \<open>Entries appended in increasing index order all read back their own term.\<close>

lemma ts_get_append_at:
  "ts_ok ts \<Longrightarrow> \<forall>e \<in> set es. 0 < e_term e
   \<Longrightarrow> sorted_wrt (<) (map e_index es) \<Longrightarrow> e \<in> set es
   \<Longrightarrow> ts_seg_count (ts_on_append es ts) \<le> MAX_TERM_SEGMENTS
   \<Longrightarrow> ts_get (ts_on_append es ts) (e_index e) = Inr (Some (e_term e))"
proof (induction es arbitrary: ts)
  case (Cons a es)
  let ?ts = "ts_on_append_one a ts"
  have ok: "ts_ok ?ts"
    using Cons.prems ts_count_mono [of ?ts es] by (intro ts_ok_append_one) auto
  show ?case
  proof (cases "e = a \<and> e \<notin> set es")
    case True
    then show ?thesis
      using Cons.prems ok ts_get_append_below [of ?ts es "e_index a"] ts_get_append_one_at [of a]
      by auto
  next
    case False
    then show ?thesis
      using Cons.prems Cons.IH [OF ok] by auto
  qed
qed simp

lemma ts_ok_new: "ts_ok ts_new" and ts_ok_clear: "ts_ok (ts_clear ts)"
  by (simp_all add: ts_ok_def ts_new_def ts_clear_def)

lemma ts_agrees_Nil [simp]: "ts_agrees ts []"
  by (simp add: ts_agrees_def)

lemma ts_agrees_sub: "ts_agrees ts m \<Longrightarrow> set n \<subseteq> set m \<Longrightarrow> ts_agrees ts n"
  by (auto simp: ts_agrees_def)

lemma ts_agrees_append:
  assumes "ts_agrees ts m" and "ts_ok ts"
    and "\<forall>e \<in> set es. 0 < e_term e" and "sorted_wrt (<) (map e_index es)"
    and "\<forall>b \<in> set m. \<forall>e \<in> set es. fst b < e_index e"
    and "ts_seg_count (ts_on_append es ts) \<le> MAX_TERM_SEGMENTS"
  shows "ts_agrees (ts_on_append es ts) (m @ map (\<lambda>e. (e_index e, e)) es)"
proof -
  have "ts_get (ts_on_append es ts) (fst b) = ts_get ts (fst b)" if "b \<in> set m" for b
    using assms that by (intro ts_get_append_below) auto
  then show ?thesis
    using assms by (auto simp: ts_agrees_def ts_get_append_at)
qed

text \<open>Once more than 1024 segments were archived, a lookup below the current segment runs
  off the arrays.\<close>

lemma ts_get_overflow:
  "MAX_TERM_SEGMENTS < ts_seg_count ts \<Longrightarrow> ts_last_term ts \<noteq> 0 \<Longrightarrow> index < ts_last_term_start ts
   \<Longrightarrow> ts_get ts index = Inl (Panic ''index out of bounds'')"
  by (cases "ts_seg_count ts") (auto simp: ts_get_def)

end
