(* ===== verification/Buffered_Log.thy ===== *)
theory Buffered_Log
  imports Term_Segments
begin

text \<open>
  The buffered Raft log (\<^verbatim>\<open>BufferedRaftLog\<close> of
  \<^verbatim>\<open>d-engine-core/src/storage/buffered_raft_log.rs\<close>).  The record holds the in-memory
  state: the skip list of entries, its boundaries, the purge boundary, the per-term indexes
  and the term segments, together with the queue of commands for the IO thread, the events
  sent to the Raft loop and the state of the fsync coordinator.  The log has one writer, the
  Raft loop, so its operations are sequential; the IO thread is in \<^verbatim>\<open>Log_Io\<close>.  Where an
  operation awaits the answer of the IO thread the answer is a parameter \<^verbatim>\<open>io\<close>, an error
  when a channel is closed or the IO thread reports one.
\<close>

datatype io_task =
    ReplaceRange u64 "entry list" chan
  | Purge log_id chan
  | Reset chan
  | Flush chan
  | Shutdown

record fsync_coordinator =
  fc_inflight :: bool
  fc_pending_max :: u64
  fc_pending_replies :: "chan list"
  fc_generation :: u64

record raft_log =
  rl_entries :: "entry omap"
  rl_durable :: u64
  rl_next_id :: u64
  rl_min :: u64
  rl_max :: u64
  rl_purged_index :: u64
  rl_purged_term :: u64
  rl_term_first :: "u64 \<Rightarrow> u64 option"
  rl_term_last :: "u64 \<Rightarrow> u64 option"
  rl_segments :: term_segments
  rl_notified :: bool
  rl_commands :: "io_task list"
  rl_next_chan :: chan
  rl_replies :: "(chan \<times> unit result) list"
  rl_flush_tx :: bool
  rl_events :: "internal_event list"
  rl_fsync :: fsync_coordinator
  rl_poisoned :: bool

section \<open>Reads\<close>

definition entry :: "raft_log \<Rightarrow> u64 \<Rightarrow> entry option" where
  "entry l index = om_get (rl_entries l) index"

definition first_entry_id :: "raft_log \<Rightarrow> u64" where
  "first_entry_id l = rl_min l"

definition last_entry_id :: "raft_log \<Rightarrow> u64" where
  "last_entry_id l = rl_max l"

definition durable_index :: "raft_log \<Rightarrow> u64" where
  "durable_index l = rl_durable l"

definition last_entry :: "raft_log \<Rightarrow> entry option" where
  "last_entry l = (let last_index = last_entry_id l
                   in if last_index > 0 then entry l last_index else None)"

definition entry_lid :: "entry \<Rightarrow> log_id" where
  "entry_lid e = mk_lid (e_term e) (e_index e)"

definition last_log_id :: "raft_log \<Rightarrow> log_id option" where
  "last_log_id l =
     (let last_index = last_entry_id l in
      if last_index > 0 then map_option entry_lid (entry l last_index)
      else let purged_index = rl_purged_index l in
           if purged_index > 0 then Some (mk_lid (rl_purged_term l) purged_index) else None)"

definition is_empty :: "raft_log \<Rightarrow> bool" where
  "is_empty l = (rl_entries l = [])"

definition entry_term :: "raft_log \<Rightarrow> u64 \<Rightarrow> u64 option result" where
  "entry_term l entry_id =
     (let max = rl_max l; min = rl_min l in
      if max = 0 \<or> entry_id < min \<or> entry_id > max then
        (let purged_index = rl_purged_index l in
         if purged_index > 0 \<and> entry_id = purged_index then Inr (Some (rl_purged_term l))
         else Inr None)
      else bind_result (ts_get (rl_segments l) entry_id)
             (\<lambda>r. case r of Some t \<Rightarrow> Inr (Some t)
                  | None \<Rightarrow> Inr (map_option e_term (om_get (rl_entries l) entry_id))))"

definition first_index_for_term :: "raft_log \<Rightarrow> u64 \<Rightarrow> u64 option" where
  "first_index_for_term l t = rl_term_first l t"

definition last_index_for_term :: "raft_log \<Rightarrow> u64 \<Rightarrow> u64 option" where
  "last_index_for_term l t = rl_term_last l t"

definition get_entries_range :: "raft_log \<Rightarrow> u64 \<Rightarrow> u64 \<Rightarrow> entry list" where
  "get_entries_range l a b = om_range a b (rl_entries l)"

section \<open>Index allocation\<close>

text \<open>\<^verbatim>\<open>fetch_add\<close> wraps around at 64 bits; the range allocation asserts before that.\<close>

definition pre_allocate_raft_logs_next_index :: "raft_log \<Rightarrow> raft_log \<times> u64" where
  "pre_allocate_raft_logs_next_index l =
     (l\<lparr>rl_next_id := (rl_next_id l + 1) mod (u64_max + 1)\<rparr>, rl_next_id l)"

definition pre_allocate_id_range :: "raft_log \<Rightarrow> u64 \<Rightarrow> (raft_log \<times> (u64 \<times> u64)) result" where
  "pre_allocate_id_range l count =
     (if count = 0 then Inr (l, (u64_max, u64_max))
      else let cur = rl_next_id l in
           if cur \<le> u64_max - count
           then Inr (l\<lparr>rl_next_id := cur + count\<rparr>, (cur, cur + count - 1))
           else Inl (Panic ''ID overflow''))"

section \<open>Insertion into memory\<close>

definition update_term_index :: "entry \<Rightarrow> raft_log \<Rightarrow> raft_log" where
  "update_term_index e l =
     (let t = e_term e;
          f = (case rl_term_first l t of None \<Rightarrow> u64_max | Some v \<Rightarrow> v);
          g = (case rl_term_last l t of None \<Rightarrow> 0 | Some v \<Rightarrow> v)
      in l\<lparr>rl_term_first := (rl_term_first l)(t \<mapsto> min f (e_index e)),
           rl_term_last := (rl_term_last l)(t \<mapsto> max g (e_index e))\<rparr>)"

fun update_term_indexes :: "entry list \<Rightarrow> raft_log \<Rightarrow> raft_log" where
  "update_term_indexes [] l = l"
| "update_term_indexes (e # es) l = update_term_indexes es (update_term_index e l)"

fun put_entries :: "entry list \<Rightarrow> entry omap \<Rightarrow> entry omap" where
  "put_entries [] m = m"
| "put_entries (e # es) m = put_entries es (om_put (e_index e) e m)"

definition max_entry_index :: "entry list \<Rightarrow> u64" where
  "max_entry_index es = foldr (\<lambda>e a. max (e_index e) a) es 0"

definition insert_to_memory :: "raft_log \<Rightarrow> entry list \<Rightarrow> raft_log" where
  "insert_to_memory l es =
     (let l1 = l\<lparr>rl_entries := put_entries es (rl_entries l)\<rparr>;
          l2 = update_term_indexes es l1;
          l3 = l2\<lparr>rl_segments := ts_on_append es (rl_segments l2)\<rparr>;
          max_index = max_entry_index es;
          l4 = l3\<lparr>rl_next_id := (if max_index \<ge> rl_next_id l3 then max_index + 1 else rl_next_id l3)\<rparr>;
          l5 = l4\<lparr>rl_min := (case es of [] \<Rightarrow> rl_min l4
                 | first # _ \<Rightarrow> if e_index first < rl_min l4 \<or> rl_min l4 = 0
                                then e_index first else rl_min l4)\<rparr>
      in l5\<lparr>rl_max := (if es = [] then rl_max l5
            else if e_index (last es) > rl_max l5 then e_index (last es) else rl_max l5)\<rparr>)"

definition append_entries :: "raft_log \<Rightarrow> entry list \<Rightarrow> raft_log \<times> unit result" where
  "append_entries l es =
     (if rl_poisoned l then (l, Inl (Fatal ''raft log storage is poisoned''))
      else if es = [] then (l, Inr ())
      else ((insert_to_memory l es)\<lparr>rl_notified := True\<rparr>, Inr ()))"

definition insert_batch :: "raft_log \<Rightarrow> entry list \<Rightarrow> raft_log \<times> unit result" where
  "insert_batch l es = append_entries l es"

section \<open>Removal of a range\<close>

text \<open>The smallest and largest removed key of each affected term.\<close>

fun affected_terms :: "entry omap \<Rightarrow> (u64 \<Rightarrow> (u64 \<times> u64) option) \<Rightarrow> (u64 \<Rightarrow> (u64 \<times> u64) option)" where
  "affected_terms [] aff = aff"
| "affected_terms ((key, e) # r) aff =
     (let (lo, hi) = (case aff (e_term e) of None \<Rightarrow> (key, key) | Some p \<Rightarrow> p)
      in affected_terms r (aff(e_term e \<mapsto> (if key < lo then key else lo,
                                            if key > hi then key else hi))))"

definition first_with_term :: "u64 \<Rightarrow> entry omap \<Rightarrow> u64 option" where
  "first_with_term t m = map_option fst (find (\<lambda>b. e_term (snd b) = t) m)"

definition last_with_term :: "u64 \<Rightarrow> entry omap \<Rightarrow> u64 option" where
  "last_with_term t m = map_option fst (find (\<lambda>b. e_term (snd b) = t) (rev m))"

definition remove_range_locked :: "raft_log \<Rightarrow> u64 \<Rightarrow> u64 \<Rightarrow> raft_log \<times> (u64 \<times> u64)" where
  "remove_range_locked l start stop =
     (let removed = filter (\<lambda>b. start \<le> fst b \<and> fst b \<le> stop) (rl_entries l);
          aff = affected_terms removed (\<lambda>_. None);
          es = om_del_range start stop (rl_entries l);
          tf = (\<lambda>t. case aff t of None \<Rightarrow> rl_term_first l t
                | Some (lo, hi) \<Rightarrow>
                    (case rl_term_first l t of None \<Rightarrow> None
                     | Some cur \<Rightarrow> if cur \<ge> lo then first_with_term t es else Some cur));
          tl = (\<lambda>t. case aff t of None \<Rightarrow> rl_term_last l t
                | Some (lo, hi) \<Rightarrow>
                    (case rl_term_last l t of None \<Rightarrow> None
                     | Some cur \<Rightarrow> if cur \<le> hi then last_with_term t es else Some cur));
          new_min = (case om_front es of None \<Rightarrow> 0 | Some k \<Rightarrow> k);
          new_max = (case om_back es of None \<Rightarrow> 0 | Some k \<Rightarrow> k)
      in (l\<lparr>rl_entries := es, rl_term_first := tf, rl_term_last := tl\<rparr>, (new_min, new_max)))"

definition remove_range :: "raft_log \<Rightarrow> u64 \<Rightarrow> u64 \<Rightarrow> raft_log" where
  "remove_range l start stop =
     (case remove_range_locked l start stop of
        (l', (new_min, new_max)) \<Rightarrow> l'\<lparr>rl_min := new_min, rl_max := new_max\<rparr>)"

definition purge_prefix :: "raft_log \<Rightarrow> log_id \<Rightarrow> raft_log" where
  "purge_prefix l cutoff =
     (case remove_range_locked l 0 (lid_index cutoff) of
        (l', (new_min, new_max)) \<Rightarrow>
          l'\<lparr>rl_min := new_min, rl_max := new_max,
             rl_purged_term := lid_term cutoff, rl_purged_index := lid_index cutoff\<rparr>)"

section \<open>Durability marks, poisoning and the fence of the fsync coordinator\<close>

definition advance_durable_and_notify :: "raft_log \<Rightarrow> u64 \<Rightarrow> raft_log" where
  "advance_durable_and_notify l new_durable =
     (let prev = rl_durable l; l' = l\<lparr>rl_durable := max prev new_durable\<rparr> in
      if new_durable > prev \<and> rl_flush_tx l
      then l'\<lparr>rl_events := rl_events l' @ [LogFlushed new_durable]\<rparr> else l')"

definition notify_fatal :: "raft_log \<Rightarrow> string \<Rightarrow> raft_log" where
  "notify_fatal l err =
     (if rl_flush_tx l then l\<lparr>rl_events := rl_events l @ [FatalError ''RaftLog'' err]\<rparr> else l)"

definition mark_poisoned_and_notify :: "raft_log \<Rightarrow> string \<Rightarrow> raft_log" where
  "mark_poisoned_and_notify l err = notify_fatal (l\<lparr>rl_poisoned := True\<rparr>) err"

definition fc_new :: fsync_coordinator where
  "fc_new = \<lparr>fc_inflight = False, fc_pending_max = 0, fc_pending_replies = [], fc_generation = 0\<rparr>"

definition send_replies :: "raft_log \<Rightarrow> chan list \<Rightarrow> unit result \<Rightarrow> raft_log" where
  "send_replies l cs r = l\<lparr>rl_replies := rl_replies l @ map (\<lambda>c. (c, r)) cs\<rparr>"

definition fence_reset :: "raft_log \<Rightarrow> raft_log" where
  "fence_reset l =
     (let c = rl_fsync l;
          l' = l\<lparr>rl_fsync := c\<lparr>fc_generation := fc_generation c + 1, fc_pending_max := 0,
                              fc_pending_replies := []\<rparr>\<rparr>
      in send_replies l' (fc_pending_replies c)
           (Inl (Fatal ''stale fsync generation, superseded by reset'')))"

text \<open>Sending a command that carries a reply channel.\<close>

definition send_command :: "raft_log \<Rightarrow> (chan \<Rightarrow> io_task) \<Rightarrow> raft_log" where
  "send_command l task =
     l\<lparr>rl_commands := rl_commands l @ [task (rl_next_chan l)], rl_next_chan := rl_next_chan l + 1\<rparr>"

definition reset_internal :: "raft_log \<Rightarrow> unit result \<Rightarrow> raft_log \<times> unit result" where
  "reset_internal l io =
     (let l1 = (fence_reset l)\<lparr>rl_entries := [], rl_durable := 0, rl_next_id := 1, rl_min := 0,
                 rl_max := 0, rl_term_first := (\<lambda>_. None), rl_term_last := (\<lambda>_. None),
                 rl_segments := ts_clear (rl_segments l)\<rparr>
      in (send_command l1 Reset, io))"

definition reset :: "raft_log \<Rightarrow> unit result \<Rightarrow> raft_log \<times> unit result" where
  "reset l io = reset_internal l io"

section \<open>Conflict resolution, purge and flush\<close>

text \<open>\<^verbatim>\<open>position\<close> with a test that may panic.\<close>

fun diverge_pos :: "raft_log \<Rightarrow> u64 \<Rightarrow> entry list \<Rightarrow> nat option result" where
  "diverge_pos l last_current_index [] = Inr None"
| "diverge_pos l last_current_index (e # es) =
     (if e_index e > last_current_index then Inr (Some 0)
      else bind_result (entry_term l (e_index e))
             (\<lambda>t. if t \<noteq> Some (e_term e) then Inr (Some 0)
                  else bind_result (diverge_pos l last_current_index es)
                         (\<lambda>r. Inr (map_option Suc r))))"

definition last_lid :: "entry list \<Rightarrow> log_id option" where
  "last_lid es = (if es = [] then None else Some (entry_lid (last es)))"

text \<open>\<^verbatim>\<open>partition_point\<close> finds the length of the prefix on which the test holds.\<close>

definition overlap_safe :: "raft_log \<Rightarrow> entry list \<Rightarrow> bool" where
  "overlap_safe l overlap =
     (case overlap of [] \<Rightarrow> True
      | first # _ \<Rightarrow>
          (let ft = ts_last_term (rl_segments l); fs = ts_last_term_start (rl_segments l)
           in e_index first \<ge> fs \<and> e_term first = ft \<and> e_term (last overlap) = ft))"

definition filter_out_conflicts_and_append ::
    "raft_log \<Rightarrow> u64 \<Rightarrow> u64 \<Rightarrow> entry list \<Rightarrow> unit result \<Rightarrow> raft_log \<times> log_id option result" where
  "filter_out_conflicts_and_append l prev_log_index prev_log_term new_entries io =
     (if prev_log_index = 0 \<and> prev_log_term = 0 then
        (case reset l io of
           (l1, Inl e) \<Rightarrow> (l1, Inl e)
         | (l1, Inr _) \<Rightarrow>
             (case append_entries l1 new_entries of
                (l2, Inl e) \<Rightarrow> (l2, Inl e)
              | (l2, Inr _) \<Rightarrow> (l2, Inr (last_lid new_entries))))
      else
        (case entry_term l prev_log_index of
           Inl e \<Rightarrow> (l, Inl e)
         | Inr t \<Rightarrow>
             if t \<noteq> Some prev_log_term then (l, Inr (last_log_id l))
             else
               (let last_current_index = last_entry_id l;
                    overlap = takeWhile (\<lambda>e. e_index e \<le> last_current_index) new_entries;
                    tail = dropWhile (\<lambda>e. e_index e \<le> last_current_index) new_entries
                in if overlap_safe l overlap then
                     (if tail = [] then (l, Inr (last_lid new_entries))
                      else (case append_entries l tail of
                              (l2, Inl e) \<Rightarrow> (l2, Inl e)
                            | (l2, Inr _) \<Rightarrow> (l2, Inr (last_lid tail))))
                   else
                     (case diverge_pos l last_current_index new_entries of
                        Inl e \<Rightarrow> (l, Inl e)
                      | Inr None \<Rightarrow> (l, Inr (last_lid new_entries))
                      | Inr (Some pos) \<Rightarrow>
                          (let tail = drop pos new_entries;
                               diverge_index = e_index (new_entries ! pos)
                           in if diverge_index \<le> last_current_index then
                                (let l1 = remove_range l diverge_index u64_max;
                                     l2 = insert_to_memory l1 tail;
                                     l3 = send_command l2 (ReplaceRange diverge_index tail)
                                 in (l3, bind_result io (\<lambda>_. Inr (last_lid tail))))
                              else
                                (case append_entries l tail of
                                   (l2, Inl e) \<Rightarrow> (l2, Inl e)
                                 | (l2, Inr _) \<Rightarrow> (l2, Inr (last_lid tail))))))))"

definition calculate_majority_matched_index ::
    "raft_log \<Rightarrow> u64 \<Rightarrow> u64 \<Rightarrow> u64 list \<Rightarrow> u64 option" where
  "calculate_majority_matched_index l current_term commit_index peer_matched_ids =
     (let ids = rev (sort (peer_matched_ids @ [last_entry_id l]));
          majority_index = ids ! (length ids div 2)
      in if majority_index < commit_index then None
         else (case entry l majority_index of
                 Some e \<Rightarrow> if e_term e = current_term then Some majority_index else None
               | None \<Rightarrow> None))"

definition purge_logs_up_to :: "raft_log \<Rightarrow> log_id \<Rightarrow> unit result \<Rightarrow> raft_log \<times> unit result" where
  "purge_logs_up_to l cutoff io =
     (let l1 = purge_prefix l cutoff;
          l2 = advance_durable_and_notify l1 (lid_index cutoff)
      in (send_command l2 (Purge cutoff), io))"

definition flush :: "raft_log \<Rightarrow> unit result \<Rightarrow> raft_log \<times> unit result" where
  "flush l io =
     (let max_index = rl_max l in
      if max_index = 0 then (l, Inr ())
      else if rl_durable l \<ge> max_index then (l, Inr ())
      else (send_command l Flush, io))"

text \<open>The metadata store is a parameter: \<^verbatim>\<open>save\<close> is its answer to the write.\<close>

definition save_hard_state ::
    "raft_log \<Rightarrow> (hard_state \<Rightarrow> unit result) \<Rightarrow> hard_state \<Rightarrow> raft_log \<times> unit result" where
  "save_hard_state l save hs =
     (if rl_poisoned l then (l, Inl (Fatal ''raft log storage is poisoned''))
      else (case save hs of
              Inr _ \<Rightarrow> (l, Inr ())
            | Inl e \<Rightarrow> (mark_poisoned_and_notify l ''save_hard_state failed'', Inl e)))"

section \<open>Opening the log\<close>

text \<open>The log store is a parameter: its last index, the entries it returns for
  \<^verbatim>\<open>1..=disk_len\<close>, and its purge boundary.\<close>

definition new_raft_log ::
    "u64 \<Rightarrow> entry list result \<Rightarrow> log_id option result \<Rightarrow> raft_log" where
  "new_raft_log disk_len disk_entries boundary =
     (let all_entries = (if disk_len > 0 then (case disk_entries of Inr es \<Rightarrow> es | Inl _ \<Rightarrow> []) else []);
          m = put_entries all_entries [];
          (bi, bt) = (case boundary of Inr (Some b) \<Rightarrow> (lid_index b, lid_term b) | _ \<Rightarrow> (0, 0));
          l0 = \<lparr>rl_entries = m, rl_durable = disk_len, rl_next_id = disk_len + 1,
                rl_min = (case om_front m of None \<Rightarrow> 0 | Some k \<Rightarrow> k),
                rl_max = (case om_back m of None \<Rightarrow> 0 | Some k \<Rightarrow> k),
                rl_purged_index = bi, rl_purged_term = bt,
                rl_term_first = (\<lambda>_. None), rl_term_last = (\<lambda>_. None),
                rl_segments = ts_on_append all_entries ts_new,
                rl_notified = False, rl_commands = [], rl_next_chan = 0, rl_replies = [],
                rl_flush_tx = False, rl_events = [], rl_fsync = fc_new, rl_poisoned = False\<rparr>
      in update_term_indexes all_entries l0)"

end
