(* ===== verification/Log_Invariant.thy ===== *)
theory Log_Invariant
  imports Buffered_Log
begin

text \<open>
  The well-formedness invariant of the buffered log and its preservation by every operation
  of the Raft loop; the boundaries, the term indexes and the term segments are all determined
  by the entries.
\<close>

definition entry_ok :: "entry \<Rightarrow> bool" where
  "entry_ok e = (0 < e_index e \<and> e_index e < u64_max \<and> 0 < e_term e)"

definition tag :: "entry list \<Rightarrow> entry omap" where
  "tag es = map (\<lambda>e. (e_index e, e)) es"

definition contig_from :: "nat \<Rightarrow> entry list \<Rightarrow> bool" where
  "contig_from n es = (map e_index es = [n ..< n + length es])"

definition keys_ok :: "entry omap \<Rightarrow> bool" where
  "keys_ok m = (\<forall>b \<in> set m. e_index (snd b) = fst b \<and> entry_ok (snd b))"

definition bounds_ok :: "raft_log \<Rightarrow> bool" where
  "bounds_ok l = (if rl_entries l = [] then rl_min l = 0 \<and> rl_max l = 0
                  else map fst (rl_entries l) = [rl_min l ..< Suc (rl_max l)])"

definition terms_ok :: "entry omap \<Rightarrow> raft_log \<Rightarrow> bool" where
  "terms_ok m l = (\<forall>t. rl_term_first l t = first_with_term t m
                     \<and> rl_term_last l t = last_with_term t m)"

definition log_inv :: "raft_log \<Rightarrow> bool" where
  "log_inv l = (keys_ok (rl_entries l) \<and> bounds_ok l \<and> terms_ok (rl_entries l) l
                \<and> ts_ok (rl_segments l) \<and> ts_agrees (rl_segments l) (rl_entries l)
                \<and> rl_max l < rl_next_id l)"

section \<open>Lists of entries\<close>

lemma filter_less_upt: "filter (\<lambda>k. k < d) [a ..< b] = [a ..< min b d]"
proof (induction b)
  case (Suc b)
  then show ?case
    by (cases "b < d") (auto simp: min_def not_less)
qed simp

lemma filter_greater_upt: "filter (\<lambda>k. c < k) [a ..< b] = [max a (Suc c) ..< b]"
  by (induction b) (auto simp: max_def not_less less_Suc_eq_le)

lemma om_wf_upt: "map fst m = [a ..< b] \<Longrightarrow> om_wf m"
  by (simp add: om_wf_def)

lemma set_tag: "set (tag es) = (\<lambda>e. (e_index e, e)) ` set es"
  by (simp add: tag_def)

lemma tag_Nil [simp]: "tag [] = []" and tag_Cons [simp]: "tag (e # es) = (e_index e, e) # tag es"
  and map_fst_tag [simp]: "map fst (tag es) = map e_index es"
  and tag_eq_Nil [simp]: "tag es = [] \<longleftrightarrow> es = []"
  by (simp_all add: tag_def comp_def)

lemma om_put_back: "\<forall>b \<in> set m. fst b < k \<Longrightarrow> om_put k v m = m @ [(k, v)]"
  by (induction m) (auto simp: om_put_def)

lemma put_entries_back:
  "sorted_wrt (<) (map e_index es) \<Longrightarrow> \<forall>b \<in> set m. \<forall>e \<in> set es. fst b < e_index e
   \<Longrightarrow> put_entries es m = m @ tag es"
  by (induction es arbitrary: m) (auto simp: om_put_back)

lemma contig_from_Cons:
  "contig_from n (e # es) \<longleftrightarrow> e_index e = n \<and> contig_from (Suc n) es"
  by (auto simp: contig_from_def upt_rec [of n])

lemma contig_from_sorted: "contig_from n es \<Longrightarrow> sorted_wrt (<) (map e_index es)"
  by (simp add: contig_from_def)

lemma contig_from_ge: "contig_from n es \<Longrightarrow> e \<in> set es \<Longrightarrow> n \<le> e_index e"
proof -
  assume "contig_from n es" and "e \<in> set es"
  then have "e_index e \<in> set [n ..< n + length es]"
    unfolding contig_from_def by (metis image_eqI list.set_map)
  then show "n \<le> e_index e"
    by simp
qed

lemma contig_from_last:
  "contig_from n es \<Longrightarrow> es \<noteq> [] \<Longrightarrow> e_index (last es) = n + length es - 1"
  by (induction es arbitrary: n) (auto simp: contig_from_Cons)

lemma contig_from_nth: "contig_from n es \<Longrightarrow> i < length es \<Longrightarrow> e_index (es ! i) = n + i"
  by (induction es arbitrary: n i) (auto simp: contig_from_Cons nth_Cons split: nat.splits)

lemma contig_from_drop: "contig_from n es \<Longrightarrow> i \<le> length es \<Longrightarrow> contig_from (n + i) (drop i es)"
proof (induction i arbitrary: n es)
  case (Suc i)
  then show ?case
    by (cases es) (fastforce simp: contig_from_Cons)+
qed simp

lemma max_entry_index_contig:
  "contig_from n es \<Longrightarrow> es \<noteq> [] \<Longrightarrow> max_entry_index es = n + length es - 1"
proof (induction es arbitrary: n)
  case (Cons e es)
  then show ?case
    by (cases "es = []") (auto simp: contig_from_Cons max_entry_index_def)
qed simp

section \<open>First and last index of a term\<close>

lemma first_with_term_Some_iff:
  "om_wf m \<Longrightarrow> first_with_term t m = Some k \<longleftrightarrow>
     (\<exists>e. (k, e) \<in> set m \<and> e_term e = t) \<and> (\<forall>b \<in> set m. e_term (snd b) = t \<longrightarrow> k \<le> fst b)"
proof (induction m)
  case (Cons b m)
  then show ?case
    by (cases b) (auto simp: first_with_term_def order.order_iff_strict)
qed (simp add: first_with_term_def)

lemma first_with_term_None_iff:
  "first_with_term t m = None \<longleftrightarrow> (\<forall>b \<in> set m. e_term (snd b) \<noteq> t)"
  by (induction m) (auto simp: first_with_term_def)

lemma last_with_term_snoc:
  "last_with_term t (m @ [b]) = (if e_term (snd b) = t then Some (fst b) else last_with_term t m)"
  by (simp add: last_with_term_def)

lemma first_with_term_snoc:
  "first_with_term t (m @ [b]) =
     (case first_with_term t m of Some k \<Rightarrow> Some k
      | None \<Rightarrow> if e_term (snd b) = t then Some (fst b) else None)"
  by (induction m) (auto simp: first_with_term_def)

lemma last_with_term_Some_iff:
  "om_wf m \<Longrightarrow> last_with_term t m = Some k \<longleftrightarrow>
     (\<exists>e. (k, e) \<in> set m \<and> e_term e = t) \<and> (\<forall>b \<in> set m. e_term (snd b) = t \<longrightarrow> fst b \<le> k)"
proof (induction m rule: rev_induct)
  case (snoc b m)
  then show ?case
    by (cases b) (auto simp: last_with_term_snoc om_wf_append order.order_iff_strict)
qed (simp add: last_with_term_def)

lemma last_with_term_None_iff:
  "last_with_term t m = None \<longleftrightarrow> (\<forall>b \<in> set m. e_term (snd b) \<noteq> t)"
  by (induction m rule: rev_induct) (auto simp: last_with_term_def)

lemma affected_terms_append:
  "affected_terms (r @ s) aff = affected_terms s (affected_terms r aff)"
proof (induction r arbitrary: aff)
  case (Cons b r)
  then show ?case
    by (cases b) (simp add: Let_def case_prod_beta del: fun_upd_apply)
qed simp

lemma affected_terms_exact:
  "om_wf r \<Longrightarrow> affected_terms r (\<lambda>_. None) t =
     (case first_with_term t r of None \<Rightarrow> None
      | Some lo \<Rightarrow> Some (lo, the (last_with_term t r)))"
proof (induction r rule: rev_induct)
  case (snoc b r)
  obtain k e where b: "b = (k, e)"
    by (cases b)
  have wf: "om_wf r" and below: "\<forall>c \<in> set r. fst c < k"
    using snoc.prems b by (auto simp: om_wf_append)
  show ?case
  proof (cases "e_term e = t")
    case True
    show ?thesis
    proof (cases "first_with_term t r")
      case None
      then show ?thesis
        using True b snoc.IH [OF wf]
        by (simp add: affected_terms_append first_with_term_snoc last_with_term_snoc)
    next
      case (Some lo)
      then obtain hi where hi: "last_with_term t r = Some hi"
        by (metis first_with_term_None_iff last_with_term_None_iff not_Some_eq)
      then have "lo < k" "hi < k"
        using Some below wf by (fastforce simp: first_with_term_Some_iff last_with_term_Some_iff)+
      then show ?thesis
        using True b Some hi snoc.IH [OF wf]
        by (simp add: affected_terms_append first_with_term_snoc last_with_term_snoc)
    qed
  next
    case False
    then show ?thesis
      using b snoc.IH [OF wf]
      by (auto simp: affected_terms_append first_with_term_snoc last_with_term_snoc Let_def
          split: option.splits prod.splits)
  qed
qed (simp add: first_with_term_def)

section \<open>Insertion keeps the invariant\<close>

lemma update_term_indexes_fields [simp]:
  "rl_entries (update_term_indexes es l) = rl_entries l"
  "rl_durable (update_term_indexes es l) = rl_durable l"
  "rl_next_id (update_term_indexes es l) = rl_next_id l"
  "rl_min (update_term_indexes es l) = rl_min l"
  "rl_max (update_term_indexes es l) = rl_max l"
  "rl_purged_index (update_term_indexes es l) = rl_purged_index l"
  "rl_purged_term (update_term_indexes es l) = rl_purged_term l"
  "rl_segments (update_term_indexes es l) = rl_segments l"
  "rl_notified (update_term_indexes es l) = rl_notified l"
  "rl_commands (update_term_indexes es l) = rl_commands l"
  "rl_replies (update_term_indexes es l) = rl_replies l"
  "rl_events (update_term_indexes es l) = rl_events l"
  "rl_fsync (update_term_indexes es l) = rl_fsync l"
  "rl_poisoned (update_term_indexes es l) = rl_poisoned l"
  "rl_next_chan (update_term_indexes es l) = rl_next_chan l"
  "rl_flush_tx (update_term_indexes es l) = rl_flush_tx l"
  by (induction es arbitrary: l) (simp_all add: update_term_index_def Let_def)

lemma terms_ok_cong:
  "rl_term_first l = rl_term_first l' \<Longrightarrow> rl_term_last l = rl_term_last l' \<Longrightarrow> terms_ok m l = terms_ok m l'"
  by (simp add: terms_ok_def)

lemma terms_ok_update:
  assumes "terms_ok m l" and "om_wf m" and "\<forall>b \<in> set m. fst b < e_index e" and "e_index e \<le> u64_max"
  shows "terms_ok (m @ [(e_index e, e)]) (update_term_index e l)"
proof -
  have "v < e_index e" if "first_with_term t m = Some v" for t v
    using that assms by (force simp: first_with_term_Some_iff)
  moreover have "v < e_index e" if "last_with_term t m = Some v" for t v
    using that assms by (force simp: last_with_term_Some_iff)
  ultimately show ?thesis
    using assms
    by (auto simp: terms_ok_def update_term_index_def Let_def first_with_term_snoc
        last_with_term_snoc min_absorb1 max_absorb2 less_imp_le split: option.splits)
qed

lemma terms_ok_updates:
  "terms_ok m l \<Longrightarrow> om_wf (m @ tag es) \<Longrightarrow> \<forall>e \<in> set es. e_index e \<le> u64_max
   \<Longrightarrow> terms_ok (m @ tag es) (update_term_indexes es l)"
proof (induction es arbitrary: m l)
  case (Cons e es)
  have "terms_ok (m @ [(e_index e, e)]) (update_term_index e l)"
    using Cons.prems by (intro terms_ok_update) (auto simp: om_wf_append)
  then show ?case
    using Cons.IH [of "m @ [(e_index e, e)]" "update_term_index e l"] Cons.prems by simp
qed simp

lemma case_list_hd: "(case es of [] \<Rightarrow> a | x # _ \<Rightarrow> f x) = (if es = [] then a else f (hd es))"
  by (cases es) simp_all

lemma insert_to_memory_fields [simp]:
  "rl_entries (insert_to_memory l es) = put_entries es (rl_entries l)"
  "rl_segments (insert_to_memory l es) = ts_on_append es (rl_segments l)"
  "rl_purged_index (insert_to_memory l es) = rl_purged_index l"
  "rl_purged_term (insert_to_memory l es) = rl_purged_term l"
  "rl_durable (insert_to_memory l es) = rl_durable l"
  "rl_commands (insert_to_memory l es) = rl_commands l"
  "rl_poisoned (insert_to_memory l es) = rl_poisoned l"
  "rl_next_id (insert_to_memory l es) = (if rl_next_id l \<le> max_entry_index es then max_entry_index es + 1 else rl_next_id l)"
  "rl_max (insert_to_memory l es) = (if es = [] then rl_max l else max (rl_max l) (e_index (last es)))"
  "rl_min (insert_to_memory l es) =
     (if es = [] then rl_min l
      else if e_index (hd es) < rl_min l \<or> rl_min l = 0 then e_index (hd es) else rl_min l)"
  by (simp_all add: insert_to_memory_def Let_def max_def case_list_hd)

lemma insert_to_memory_terms:
  "terms_ok m (insert_to_memory l es)
     = terms_ok m (update_term_indexes es (l\<lparr>rl_entries := put_entries es (rl_entries l)\<rparr>))"
  by (rule terms_ok_cong) (simp_all add: insert_to_memory_def Let_def)

definition appendable :: "raft_log \<Rightarrow> entry list \<Rightarrow> bool" where
  "appendable l es = (es \<noteq> [] \<and> (\<forall>e \<in> set es. entry_ok e)
     \<and> contig_from (if rl_entries l = [] then e_index (hd es) else Suc (rl_max l)) es
     \<and> ts_seg_count (ts_on_append es (rl_segments l)) \<le> MAX_TERM_SEGMENTS)"

lemma log_inv_keys:
  "log_inv l \<Longrightarrow> rl_entries l \<noteq> [] \<Longrightarrow> map fst (rl_entries l) = [rl_min l ..< Suc (rl_max l)]"
  by (simp add: log_inv_def bounds_ok_def del: upt_Suc)

lemma log_inv_wf: "log_inv l \<Longrightarrow> om_wf (rl_entries l)"
  by (cases "rl_entries l = []") (simp, erule (1) log_inv_keys [THEN om_wf_upt])

lemma log_inv_key_range:
  assumes "log_inv l" and "b \<in> set (rl_entries l)"
  shows "rl_min l \<le> fst b" and "fst b \<le> rl_max l"
proof -
  have "fst b \<in> set (map fst (rl_entries l))"
    using assms by simp
  also have "map fst (rl_entries l) = [rl_min l ..< Suc (rl_max l)]"
    using assms by (intro log_inv_keys) auto
  finally show "rl_min l \<le> fst b" and "fst b \<le> rl_max l"
    by auto
qed

lemma insert_to_memory_entries:
  assumes "log_inv l" and "appendable l es"
  shows "put_entries es (rl_entries l) = rl_entries l @ tag es"
    and "om_wf (rl_entries l @ tag es)"
    and "\<forall>b \<in> set (rl_entries l). \<forall>e \<in> set es. fst b < e_index e"
proof -
  show below: "\<forall>b \<in> set (rl_entries l). \<forall>e \<in> set es. fst b < e_index e"
  proof (intro ballI)
    fix b e
    assume "b \<in> set (rl_entries l)" and "e \<in> set es"
    then show "fst b < e_index e"
      using assms log_inv_key_range(2) [OF assms(1), of b] contig_from_ge [of "Suc (rl_max l)" es e]
      by (auto simp: appendable_def split: if_splits)
  qed
  have sorted: "sorted_wrt (<) (map e_index es)"
    using assms by (auto simp: appendable_def intro: contig_from_sorted)
  show "put_entries es (rl_entries l) = rl_entries l @ tag es"
    using sorted below by (rule put_entries_back)
  show "om_wf (rl_entries l @ tag es)"
    using log_inv_wf [OF assms(1)] sorted below by (auto simp: om_wf_append set_tag) (simp add: om_wf_def)
qed

lemma log_inv_min_le:
  assumes inv: "log_inv l" and ne: "rl_entries l \<noteq> []"
  shows "0 < rl_min l" and "rl_min l \<le> rl_max l"
proof -
  let ?h = "hd (rl_entries l)"
  have mem: "?h \<in> set (rl_entries l)"
    using ne by simp
  show le: "rl_min l \<le> rl_max l"
    using log_inv_key_range [OF inv mem] by simp
  have "hd (map fst (rl_entries l)) = rl_min l"
    unfolding log_inv_keys [OF inv ne] using le by (simp add: hd_upt del: upt_Suc)
  then have "fst ?h = rl_min l"
    using ne by (simp add: hd_map)
  moreover have "e_index (snd ?h) = fst ?h" and "entry_ok (snd ?h)"
    using inv mem by (auto simp: log_inv_def keys_ok_def)
  ultimately show "0 < rl_min l"
    by (simp add: entry_ok_def)
qed

lemma log_inv_bounds_append:
  assumes "log_inv l" and "rl_entries l \<noteq> []"
  shows "map fst (rl_entries l) @ [Suc (rl_max l) ..< Suc (rl_max l) + k]
           = [rl_min l ..< Suc (rl_max l) + k]"
proof -
  have "rl_min l \<le> Suc (rl_max l)"
    using log_inv_min_le [OF assms] by simp
  then show ?thesis
    unfolding log_inv_keys [OF assms] by (rule upt_add_eq_append [symmetric])
qed

lemma appendable_ends:
  assumes "appendable l es"
  defines "n \<equiv> if rl_entries l = [] then e_index (hd es) else Suc (rl_max l)"
  shows "map e_index es = [n ..< n + length es]" and "e_index (hd es) = n"
    and "e_index (last es) = n + length es - 1" and "max_entry_index es = n + length es - 1"
    and "0 < length es"
proof -
  have c: "contig_from n es" and ne: "es \<noteq> []"
    using assms by (simp_all add: appendable_def)
  show "map e_index es = [n ..< n + length es]"
    using c by (simp add: contig_from_def)
  show "0 < length es"
    using ne by simp
  show "e_index (hd es) = n"
    using contig_from_nth [OF c, of 0] ne by (simp add: hd_conv_nth)
  show "e_index (last es) = n + length es - 1"
    using c ne by (rule contig_from_last)
  show "max_entry_index es = n + length es - 1"
    using c ne by (rule max_entry_index_contig)
qed

lemma insert_to_memory_max:
  assumes "log_inv l" and "appendable l es"
  shows "rl_max (insert_to_memory l es) = e_index (last es)"
  using assms appendable_ends [OF assms(2)]
  by (cases "rl_entries l = []") (auto simp: appendable_def log_inv_def bounds_ok_def max_def simp del: upt_Suc)

lemma insert_to_memory_min:
  assumes "log_inv l" and "appendable l es"
  shows "rl_min (insert_to_memory l es) = (if rl_entries l = [] then e_index (hd es) else rl_min l)"
proof (cases "rl_entries l = []")
  case True
  then show ?thesis
    using assms by (simp add: appendable_def log_inv_def bounds_ok_def)
next
  case False
  then show ?thesis
    using assms log_inv_min_le [OF assms(1) False] appendable_ends(2) [OF assms(2)]
    by (simp add: appendable_def)
qed

lemma insert_to_memory_bounds:
  assumes "log_inv l" and "appendable l es"
  shows "bounds_ok (insert_to_memory l es)"
proof (cases "rl_entries l = []")
  case True
  have "Suc (e_index (last es)) = e_index (hd es) + length es"
    using appendable_ends [OF assms(2)] True by simp
  then show ?thesis
    using True appendable_ends(1) [OF assms(2)] insert_to_memory_max [OF assms] insert_to_memory_min [OF assms]
      insert_to_memory_entries(1) [OF assms] assms(2)
    by (simp add: bounds_ok_def appendable_def del: upt_Suc insert_to_memory_fields(9,10))
next
  case False
  have "Suc (e_index (last es)) = Suc (rl_max l) + length es"
    using appendable_ends [OF assms(2)] False by simp
  then show ?thesis
    using False appendable_ends(1) [OF assms(2)] insert_to_memory_max [OF assms] insert_to_memory_min [OF assms]
      insert_to_memory_entries(1) [OF assms] log_inv_bounds_append [OF assms(1) False, of "length es"]
    by (simp add: bounds_ok_def del: upt_Suc insert_to_memory_fields(9,10))
qed

lemma insert_to_memory_inv:
  assumes inv: "log_inv l" and app: "appendable l es"
  shows "log_inv (insert_to_memory l es)"
    and "rl_entries (insert_to_memory l es) = rl_entries l @ tag es"
proof -
  note ents = insert_to_memory_entries [OF inv app]
  have ok: "\<forall>e \<in> set es. entry_ok e"
    and cnt: "ts_seg_count (ts_on_append es (rl_segments l)) \<le> MAX_TERM_SEGMENTS"
    and sorted: "sorted_wrt (<) (map e_index es)"
    using app by (auto simp: appendable_def intro: contig_from_sorted)
  have pos: "\<forall>e \<in> set es. 0 < e_term e" and le: "\<forall>e \<in> set es. e_index e \<le> u64_max"
    using ok by (auto simp: entry_ok_def)
  show e: "rl_entries (insert_to_memory l es) = rl_entries l @ tag es"
    by (simp add: ents(1))
  have keys: "keys_ok (rl_entries l @ tag es)"
    using inv ok by (auto simp: log_inv_def keys_ok_def set_tag)
  have "terms_ok (rl_entries l) (l\<lparr>rl_entries := put_entries es (rl_entries l)\<rparr>)"
    using inv by (simp add: log_inv_def terms_ok_def)
  then have terms: "terms_ok (rl_entries l @ tag es) (insert_to_memory l es)"
    unfolding insert_to_memory_terms using ents(2) le by (rule terms_ok_updates)
  have segs: "ts_ok (ts_on_append es (rl_segments l))"
    "ts_agrees (ts_on_append es (rl_segments l)) (rl_entries l @ tag es)"
    unfolding tag_def
    using inv pos cnt sorted ents(3)
    by (auto simp: log_inv_def intro!: ts_ok_append ts_agrees_append)
  have "rl_max (insert_to_memory l es) < rl_next_id (insert_to_memory l es)"
    using insert_to_memory_max [OF inv app] appendable_ends(3,4) [OF app] by simp
  then show "log_inv (insert_to_memory l es)"
    using insert_to_memory_bounds [OF inv app] keys terms segs
    unfolding log_inv_def e by simp
qed

section \<open>Removal keeps the invariant\<close>

lemma first_with_term_filter:
  assumes "om_wf m"
    and "first_with_term t m = Some k" and "\<forall>b \<in> set m. e_term (snd b) = t \<longrightarrow> fst b = k \<longrightarrow> Q b"
  shows "first_with_term t (filter Q m) = Some k"
  using assms by (auto simp: first_with_term_Some_iff om_wf_filter)

lemma last_with_term_filter:
  assumes "om_wf m"
    and "last_with_term t m = Some k" and "\<forall>b \<in> set m. e_term (snd b) = t \<longrightarrow> fst b = k \<longrightarrow> Q b"
  shows "last_with_term t (filter Q m) = Some k"
  using assms by (auto simp: last_with_term_Some_iff om_wf_filter)

lemma first_with_term_unfiltered:
  "\<forall>b \<in> set m. e_term (snd b) = t \<longrightarrow> Q b \<Longrightarrow> first_with_term t (filter Q m) = first_with_term t m"
  by (induction m) (auto simp: first_with_term_def)

lemma last_with_term_unfiltered:
  "\<forall>b \<in> set m. e_term (snd b) = t \<longrightarrow> Q b \<Longrightarrow> last_with_term t (filter Q m) = last_with_term t m"
  by (induction m rule: rev_induct) (auto simp: last_with_term_def)

lemma remove_range_terms:
  assumes inv: "log_inv l"
  shows "terms_ok (om_del_range a b (rl_entries l)) (fst (remove_range_locked l a b))"
proof -
  let ?m = "rl_entries l" and ?in = "\<lambda>x. a \<le> fst x \<and> fst x \<le> b"
  let ?r = "filter ?in ?m" and ?k = "filter (\<lambda>x. \<not> ?in x) ?m"
  have wf: "om_wf ?m" "om_wf ?r"
    using log_inv_wf [OF inv] om_wf_filter by blast+
  have tf: "rl_term_first l t = first_with_term t ?m" and tl: "rl_term_last l t = last_with_term t ?m" for t
    using inv by (auto simp: log_inv_def terms_ok_def)
  show ?thesis
    unfolding terms_ok_def
  proof
    fix t
    show "rl_term_first (fst (remove_range_locked l a b)) t = first_with_term t (om_del_range a b ?m)
        \<and> rl_term_last (fst (remove_range_locked l a b)) t = last_with_term t (om_del_range a b ?m)"
    proof (cases "first_with_term t ?r")
      case None
      then have "\<forall>x \<in> set ?m. e_term (snd x) = t \<longrightarrow> \<not> ?in x"
        unfolding first_with_term_None_iff set_filter by blast
      then have "first_with_term t ?k = first_with_term t ?m" and "last_with_term t ?k = last_with_term t ?m"
        by (rule first_with_term_unfiltered, rule last_with_term_unfiltered)
      then show ?thesis
        using None by (simp add: remove_range_locked_def Let_def affected_terms_exact [OF wf(2)] tf tl
            om_del_range_def)
    next
      case (Some lo)
      then obtain hi where hi: "last_with_term t ?r = Some hi"
        by (metis first_with_term_None_iff last_with_term_None_iff not_Some_eq)
      obtain f g where fg: "first_with_term t ?m = Some f" "last_with_term t ?m = Some g"
        using Some by (cases "first_with_term t ?m"; cases "last_with_term t ?m")
          (auto simp: first_with_term_None_iff last_with_term_None_iff first_with_term_Some_iff wf)
      have lo_le: "lo \<le> fst x" if "x \<in> set ?m" "?in x" "e_term (snd x) = t" for x
        using Some that unfolding first_with_term_Some_iff [OF wf(2)] set_filter by blast
      have hi_ge: "fst x \<le> hi" if "x \<in> set ?m" "?in x" "e_term (snd x) = t" for x
        using hi that unfolding last_with_term_Some_iff [OF wf(2)] set_filter by blast
      have "first_with_term t ?k = Some f" if "f < lo"
        by (rule first_with_term_filter [OF wf(1) fg(1)]) (use lo_le that not_le in blast)
      moreover have "last_with_term t ?k = Some g" if "hi < g"
        by (rule last_with_term_filter [OF wf(1) fg(2)]) (use hi_ge that not_le in blast)
      ultimately show ?thesis
        using Some hi fg
        by (auto simp: remove_range_locked_def Let_def affected_terms_exact [OF wf(2)] tf tl om_del_range_def not_le)
    qed
  qed
qed

lemma om_ends_upt:
  assumes "map fst m = [a ..< b]" and "m \<noteq> []"
  shows "om_front m = Some a" and "om_back m = Some (b - 1)" and "a < b"
proof -
  show "a < b"
    using assms by (metis map_is_Nil_conv not_less upt_conv_Nil)
  then have "fst (hd m) = a" and "fst (last m) = b - 1"
    using assms by (simp_all flip: hd_map last_map)
  then show "om_front m = Some a" and "om_back m = Some (b - 1)"
    using assms by (simp_all add: om_front_def om_back_def case_list_hd)
qed

lemma remove_range_locked_fields [simp]:
  "rl_entries (fst (remove_range_locked l a b)) = om_del_range a b (rl_entries l)"
  "rl_segments (fst (remove_range_locked l a b)) = rl_segments l"
  "rl_next_id (fst (remove_range_locked l a b)) = rl_next_id l"
  "rl_durable (fst (remove_range_locked l a b)) = rl_durable l"
  "rl_purged_index (fst (remove_range_locked l a b)) = rl_purged_index l"
  "rl_purged_term (fst (remove_range_locked l a b)) = rl_purged_term l"
  "rl_poisoned (fst (remove_range_locked l a b)) = rl_poisoned l"
  "snd (remove_range_locked l a b) =
     (case om_front (om_del_range a b (rl_entries l)) of None \<Rightarrow> 0 | Some k \<Rightarrow> k,
      case om_back (om_del_range a b (rl_entries l)) of None \<Rightarrow> 0 | Some k \<Rightarrow> k)"
  by (simp_all add: remove_range_locked_def Let_def)

text \<open>Any removal that leaves a contiguous block of keys keeps the invariant.\<close>

lemma removed_log_inv:
  assumes inv: "log_inv l" and keys: "map fst (om_del_range a b (rl_entries l)) = [x ..< y]"
    and l': "l' = (fst (remove_range_locked l a b))\<lparr>rl_min := fst (snd (remove_range_locked l a b)),
                     rl_max := snd (snd (remove_range_locked l a b))\<rparr>"
  shows "log_inv l'"
proof -
  let ?m = "om_del_range a b (rl_entries l)"
  have sub: "set ?m \<subseteq> set (rl_entries l)"
    by (auto simp: om_del_range_def)
  have e: "rl_entries l' = ?m"
    by (simp add: l')
  have bounds: "bounds_ok l'"
    using om_ends_upt [OF keys] keys
    by (cases "?m = []") (simp_all add: l' bounds_ok_def om_front_def om_back_def del: upt_Suc)
  have "terms_ok ?m l'"
    using remove_range_terms [OF inv] by (simp add: l' terms_ok_def)
  moreover have "keys_ok ?m" "ts_agrees (rl_segments l) ?m"
    using inv sub ts_agrees_sub by (auto simp: log_inv_def keys_ok_def)
  moreover have "rl_max l' < rl_next_id l"
  proof (cases "?m = []")
    case True
    then show ?thesis
      using inv by (simp add: l' log_inv_def om_back_def)
  next
    case False
    then have "om_back ?m = Some (fst (last ?m))"
      by (simp add: om_back_def)
    then show ?thesis
      using inv log_inv_key_range(2) [OF inv subsetD [OF sub last_in_set [OF False]]]
      by (simp add: l' log_inv_def)
  qed
  ultimately show ?thesis
    using inv bounds by (simp add: log_inv_def e) (simp add: l')
qed

lemma map_fst_filter: "map fst (filter (\<lambda>b. P (fst b)) m) = filter P (map fst m)"
  by (induction m) auto

lemma del_suffix:
  assumes "log_inv l"
  shows "om_del_range d u64_max (rl_entries l) = filter (\<lambda>b. fst b < d) (rl_entries l)"
proof -
  have "fst b \<le> u64_max" if "b \<in> set (rl_entries l)" for b
    using assms that by (auto simp: log_inv_def keys_ok_def entry_ok_def)
  then show ?thesis
    unfolding om_del_range_def by (intro filter_cong) (auto simp: not_le)
qed

lemma del_prefix: "om_del_range 0 c m = filter (\<lambda>b. c < fst b) m"
  by (simp add: om_del_range_def not_le)

lemma del_suffix_keys:
  assumes "log_inv l"
  obtains x y where "map fst (om_del_range d u64_max (rl_entries l)) = [x ..< y]"
proof (cases "rl_entries l = []")
  case True
  then show ?thesis
    using that [of 0 0] by (simp add: om_del_range_def)
next
  case False
  then show ?thesis
    using that log_inv_keys [OF assms False] map_fst_filter [of "\<lambda>k. k < d" "rl_entries l"]
    by (simp add: del_suffix [OF assms] filter_less_upt del: upt_Suc)
qed

lemma del_prefix_keys:
  assumes "log_inv l"
  obtains x y where "map fst (om_del_range 0 c (rl_entries l)) = [x ..< y]"
proof (cases "rl_entries l = []")
  case True
  then show ?thesis
    using that [of 0 0] by (simp add: om_del_range_def)
next
  case False
  then show ?thesis
    using that log_inv_keys [OF assms False] map_fst_filter [of "\<lambda>k. c < k" "rl_entries l"]
    by (simp add: del_prefix filter_greater_upt del: upt_Suc)
qed

lemma remove_suffix_inv:
  assumes "log_inv l"
  shows "log_inv (remove_range l d u64_max)"
    and "rl_entries (remove_range l d u64_max) = filter (\<lambda>b. fst b < d) (rl_entries l)"
proof -
  obtain x y where "map fst (om_del_range d u64_max (rl_entries l)) = [x ..< y]"
    by (rule del_suffix_keys [OF assms])
  then show "log_inv (remove_range l d u64_max)"
    by (rule removed_log_inv [OF assms]) (simp add: remove_range_def case_prod_beta)
  show "rl_entries (remove_range l d u64_max) = filter (\<lambda>b. fst b < d) (rl_entries l)"
    by (simp add: remove_range_def case_prod_beta del_suffix [OF assms])
qed

lemma log_inv_purged_upd [simp]:
  "log_inv (l\<lparr>rl_purged_term := t, rl_purged_index := i\<rparr>) = log_inv l"
  by (simp add: log_inv_def bounds_ok_def terms_ok_def)

lemma purge_prefix_inv:
  assumes "log_inv l"
  shows "log_inv (purge_prefix l c)"
    and "rl_entries (purge_prefix l c) = filter (\<lambda>b. lid_index c < fst b) (rl_entries l)"
proof -
  let ?r = "remove_range_locked l 0 (lid_index c)"
  obtain x y where "map fst (om_del_range 0 (lid_index c) (rl_entries l)) = [x ..< y]"
    by (rule del_prefix_keys [OF assms])
  then have "log_inv ((fst ?r)\<lparr>rl_min := fst (snd ?r), rl_max := snd (snd ?r)\<rparr>)"
    by (rule removed_log_inv [OF assms _ refl])
  then show "log_inv (purge_prefix l c)"
    by (simp add: purge_prefix_def case_prod_beta del: remove_range_locked_fields)
  show "rl_entries (purge_prefix l c) = filter (\<lambda>b. lid_index c < fst b) (rl_entries l)"
    by (simp add: purge_prefix_def case_prod_beta del_prefix)
qed

section \<open>Reads agree with the entries\<close>

definition term_at :: "raft_log \<Rightarrow> u64 \<Rightarrow> u64 option" where
  "term_at l i = (case entry l i of Some e \<Rightarrow> Some (e_term e)
                  | None \<Rightarrow> if 0 < rl_purged_index l \<and> i = rl_purged_index l
                            then Some (rl_purged_term l) else None)"

lemma entry_in_range:
  assumes inv: "log_inv l"
  shows "(\<exists>e. entry l i = Some e) \<longleftrightarrow> rl_max l \<noteq> 0 \<and> rl_min l \<le> i \<and> i \<le> rl_max l"
proof (cases "rl_entries l = []")
  case True
  then show ?thesis
    using inv by (simp add: entry_def log_inv_def bounds_ok_def)
next
  case False
  have "set (map fst (rl_entries l)) = {rl_min l ..< Suc (rl_max l)}"
    unfolding log_inv_keys [OF inv False] by (rule set_upt)
  then have "(\<exists>e. entry l i = Some e) \<longleftrightarrow> i \<in> {rl_min l ..< Suc (rl_max l)}"
    unfolding entry_def by (metis list.set_map not_None_eq om_get_None_iff)
  then show ?thesis
    using log_inv_min_le [OF inv False] by auto
qed

lemma entry_fields:
  assumes "log_inv l" and "entry l i = Some e"
  shows "e_index e = i" and "entry_ok e" and "(i, e) \<in> set (rl_entries l)"
proof -
  show mem: "(i, e) \<in> set (rl_entries l)"
    using assms om_get_Some_iff [OF log_inv_wf [OF assms(1)]] by (simp add: entry_def)
  then show "e_index e = i" and "entry_ok e"
    using assms by (auto simp: log_inv_def keys_ok_def)
qed

lemma entry_term_exact:
  assumes inv: "log_inv l"
  shows "entry_term l i = Inr (term_at l i)"
proof (cases "entry l i")
  case None
  then have "rl_max l = 0 \<or> i < rl_min l \<or> i > rl_max l"
    using entry_in_range [OF inv, of i] by auto
  then show ?thesis
    using None by (simp add: entry_term_def term_at_def Let_def)
next
  case (Some e)
  then have "\<not> (rl_max l = 0 \<or> i < rl_min l \<or> i > rl_max l)"
    using entry_in_range [OF inv, of i] by auto
  moreover have "ts_get (rl_segments l) i = Inr None \<or> ts_get (rl_segments l) i = Inr (Some (e_term e))"
    using inv entry_fields(3) [OF inv Some] by (force simp: log_inv_def ts_agrees_def)
  ultimately show ?thesis
    using Some by (auto simp: entry_term_def term_at_def entry_def)
qed

lemma last_entry_exact:
  assumes inv: "log_inv l"
  shows "last_entry l = (if rl_entries l = [] then None else Some (snd (last (rl_entries l))))"
proof (cases "rl_entries l = []")
  case True
  then show ?thesis
    using inv by (simp add: last_entry_def last_entry_id_def log_inv_def bounds_ok_def)
next
  case False
  have "om_back (rl_entries l) = Some (rl_max l)"
    using om_ends_upt(2) [OF log_inv_keys [OF inv False] False] by simp
  then have "last (rl_entries l) = (rl_max l, snd (last (rl_entries l)))"
    using False by (simp add: om_back_def prod_eq_iff)
  then have "(rl_max l, snd (last (rl_entries l))) \<in> set (rl_entries l)"
    using last_in_set [OF False] by simp
  then have "entry l (rl_max l) = Some (snd (last (rl_entries l)))"
    using om_get_Some_iff [OF log_inv_wf [OF inv]] by (simp add: entry_def)
  then show ?thesis
    using False log_inv_min_le [OF inv False] by (simp add: last_entry_def last_entry_id_def)
qed

end
