(* ===== verification/Log_Conflict.thy ===== *)
theory Log_Conflict
  imports Log_Invariant
begin

text \<open>
  The append of a follower (\<^verbatim>\<open>filter_out_conflicts_and_append\<close>) against the receiver rule of
  the Raft paper, written as a recursive reference \<^verbatim>\<open>raft_append\<close>: keep what matches, delete
  from the first conflicting entry on, append what is missing.  The optimised routine, with
  its partition of the request, its constant-time overlap test on the term segments and its
  search for the first divergence, computes exactly that.
\<close>

fun raft_append :: "entry omap \<Rightarrow> entry list \<Rightarrow> entry omap" where
  "raft_append m [] = m"
| "raft_append m (e # es) =
     (case om_get m (e_index e) of
        Some e' \<Rightarrow> if e_term e' = e_term e then raft_append m es
                   else filter (\<lambda>b. fst b < e_index e) m @ tag (e # es)
      | None \<Rightarrow> m @ tag (e # es))"

text \<open>The purge boundary sits right below the entries.\<close>

definition boundary_ok :: "raft_log \<Rightarrow> bool" where
  "boundary_ok l = (rl_purged_index l = 0 \<or> rl_entries l = []
                    \<or> fst (hd (rl_entries l)) = Suc (rl_purged_index l))"

text \<open>A request a correct leader sends: consecutive entries after the previous one, terms
  that never decrease, and room in the term segments.\<close>

definition good_request :: "raft_log \<Rightarrow> u64 \<Rightarrow> entry list \<Rightarrow> bool" where
  "good_request l prev es = (contig_from (Suc prev) es \<and> (\<forall>e \<in> set es. entry_ok e)
     \<and> sorted (map e_term es) \<and> ts_seg_count (rl_segments l) + length es \<le> MAX_TERM_SEGMENTS)"

definition agrees :: "raft_log \<Rightarrow> entry \<Rightarrow> bool" where
  "agrees l e = (e_index e \<le> rl_max l \<and> term_at l (e_index e) = Some (e_term e))"

lemma ts_count_append: "ts_seg_count (ts_on_append es ts) \<le> ts_seg_count ts + length es"
proof (induction es arbitrary: ts)
  case (Cons e es)
  have "ts_seg_count (ts_on_append_one e ts) \<le> Suc (ts_seg_count ts)"
    by (simp add: ts_on_append_one_def Let_def)
  then show ?case
    using Cons [of "ts_on_append_one e ts"] by simp
qed simp

lemma raft_append_skip:
  "\<forall>e \<in> set ok. \<exists>e'. om_get m (e_index e) = Some e' \<and> e_term e' = e_term e
   \<Longrightarrow> raft_append m (ok @ rest) = raft_append m rest"
  by (induction ok) auto

lemma diverge_pos_exact:
  assumes inv: "log_inv l"
  shows "diverge_pos l (rl_max l) es =
    Inr (let p = length (takeWhile (agrees l) es) in if p = length es then None else Some p)"
proof (induction es)
  case (Cons e es)
  then show ?case
    using length_takeWhile_le [of "agrees l" es]
    by (auto simp: entry_term_exact [OF inv] agrees_def Let_def)
qed simp

lemma contig_from_Nil [simp]: "contig_from n []"
  by (simp add: contig_from_def)

lemma contig_append_iff:
  "contig_from n (xs @ ys) \<longleftrightarrow> contig_from n xs \<and> contig_from (n + length xs) ys"
  by (induction xs arbitrary: n) (auto simp: contig_from_Cons)

text \<open>The facts a matching previous entry gives about the position of the request.\<close>

lemma prev_position:
  assumes inv: "log_inv l" and bnd: "boundary_ok l" and prev: "term_at l prev = Some t"
    and ne: "rl_entries l \<noteq> []"
  shows "prev \<le> rl_max l" and "rl_min l \<le> Suc prev"
proof -
  have hd: "fst (hd (rl_entries l)) = rl_min l"
    using om_ends_upt(1) [OF log_inv_keys [OF inv ne] ne] by (simp add: om_front_def ne case_list_hd)
  have "prev \<le> rl_max l \<and> rl_min l \<le> Suc prev"
  proof (cases "entry l prev")
    case None
    then have "Suc prev = rl_min l"
      using prev bnd ne hd by (auto simp: term_at_def boundary_ok_def split: if_splits)
    then show ?thesis
      using log_inv_min_le [OF inv ne] by simp
  next
    case (Some e)
    then show ?thesis
      using entry_in_range [OF inv, of prev] by auto
  qed
  then show "prev \<le> rl_max l" and "rl_min l \<le> Suc prev"
    by auto
qed

lemma agrees_entry:
  assumes inv: "log_inv l" and bnd: "boundary_ok l" and prev: "term_at l prev = Some t"
    and ag: "agrees l e" and gt: "prev < e_index e"
  shows "\<exists>e'. om_get (rl_entries l) (e_index e) = Some e' \<and> e_term e' = e_term e"
proof -
  have "rl_entries l \<noteq> []"
    using ag gt inv by (auto simp: agrees_def log_inv_def bounds_ok_def)
  then have "\<exists>e'. entry l (e_index e) = Some e'"
    using prev_position [OF inv bnd prev] ag gt entry_in_range [OF inv, of "e_index e"]
    by (auto simp: agrees_def)
  then show ?thesis
    using ag by (auto simp: agrees_def term_at_def entry_def)
qed

text \<open>The constant-time test is sound: an overlap it accepts agrees with the log throughout.\<close>

lemma sorted_between:
  assumes "sorted (map f xs)" and "xs \<noteq> []" and "f (hd xs) = (c :: nat)" and "f (last xs) = c" and "x \<in> set xs"
  shows "f x = c"
proof -
  have "f (hd xs) \<le> f x"
    using assms by (cases xs) auto
  moreover have "f x \<le> f (last xs)"
    using assms(1,2,5) by (induction xs) (auto split: if_splits)
  ultimately show ?thesis
    using assms by simp
qed

lemma overlap_safe_agrees:
  assumes inv: "log_inv l" and bnd: "boundary_ok l" and prev: "term_at l prev = Some t"
    and req: "good_request l prev es"
    and ov: "overlap = takeWhile (\<lambda>e. e_index e \<le> rl_max l) es" and safe: "overlap_safe l overlap"
    and e: "e \<in> set overlap"
  shows "agrees l e"
proof -
  let ?ft = "ts_last_term (rl_segments l)"
  have ne: "overlap \<noteq> []" and mem: "e \<in> set es" and le: "e_index e \<le> rl_max l"
    using e ov by (auto dest: set_takeWhileD)
  obtain rest where es: "es = overlap @ rest"
    using ov by (metis takeWhile_dropWhile_id)
  have con: "contig_from (Suc prev) overlap" and srt: "sorted (map e_term overlap)"
    using req es by (auto simp: good_request_def contig_append_iff sorted_append)
  have safe': "ts_last_term_start (rl_segments l) \<le> e_index (hd overlap)" "e_term (hd overlap) = ?ft"
    "e_term (last overlap) = ?ft"
    using safe ne by (simp_all add: overlap_safe_def case_list_hd Let_def)
  have trm: "e_term e = ?ft"
    using srt ne safe'(2,3) e by (rule sorted_between)
  have "e_index (hd overlap) = Suc prev"
    using contig_from_nth [OF con, of 0] ne by (simp add: hd_conv_nth)
  then have ge: "ts_last_term_start (rl_segments l) \<le> e_index e" and gt: "prev < e_index e"
    using safe'(1) contig_from_ge [OF con e] by auto
  have "rl_entries l \<noteq> []"
    using inv le gt by (auto simp: log_inv_def bounds_ok_def)
  then obtain e' where e': "entry l (e_index e) = Some e'"
    using entry_in_range [OF inv, of "e_index e"] prev_position [OF inv bnd prev] le gt by auto
  have "0 < ?ft"
    using req mem trm by (auto simp: good_request_def entry_ok_def)
  then have "ts_get (rl_segments l) (e_index e) = Inr (Some ?ft)"
    using ge by (simp add: ts_get_def)
  then have "e_term e' = ?ft"
    using inv entry_fields(3) [OF inv e'] by (force simp: log_inv_def ts_agrees_def)
  then show ?thesis
    using le e' trm by (simp add: agrees_def term_at_def)
qed

lemma append_entries_ok:
  "\<not> rl_poisoned l \<Longrightarrow> es \<noteq> [] \<Longrightarrow>
   append_entries l es = ((insert_to_memory l es)\<lparr>rl_notified := True\<rparr>, Inr ())"
  by (simp add: append_entries_def)

lemma log_inv_io_upd [simp]:
  "log_inv (l\<lparr>rl_notified := b\<rparr>) = log_inv l"
  "log_inv (send_command l task) = log_inv l"
  "rl_entries (send_command l task) = rl_entries l"
  "rl_purged_index (send_command l task) = rl_purged_index l"
  by (simp_all add: log_inv_def bounds_ok_def terms_ok_def send_command_def)

lemma last_lid_append: "ys \<noteq> [] \<Longrightarrow> last_lid (xs @ ys) = last_lid ys"
  by (simp add: last_lid_def)

text \<open>The three ways the routine changes the log.\<close>

lemma append_tail:
  assumes inv: "log_inv l" and bnd: "boundary_ok l" and prev: "term_at l prev = Some t"
    and req: "good_request l prev es" and es: "es = ok @ rest" and ne: "rest \<noteq> []"
    and ok: "\<forall>e \<in> set ok. agrees l e" and gt: "rl_max l < e_index (hd rest)"
  shows "appendable l rest" and "raft_append (rl_entries l) es = rl_entries l @ tag rest"
    and "e_index (hd rest) = Suc (if rl_entries l = [] then prev else rl_max l)"
proof -
  have con: "contig_from (Suc prev) ok" "contig_from (Suc prev + length ok) rest"
    using req es by (auto simp: good_request_def contig_append_iff)
  have hd: "e_index (hd rest) = Suc prev + length ok"
    using contig_from_nth [OF con(2), of 0] ne by (simp add: hd_conv_nth)
  have oks: "\<exists>e'. om_get (rl_entries l) (e_index e) = Some e' \<and> e_term e' = e_term e" if "e \<in> set ok" for e
    using agrees_entry [OF inv bnd prev] ok that contig_from_ge [OF con(1) that] by auto
  have none: "om_get (rl_entries l) (e_index (hd rest)) = None"
    using entry_in_range [OF inv, of "e_index (hd rest)"] gt by (cases "om_get (rl_entries l) (e_index (hd rest))") (auto simp: entry_def)
  show "raft_append (rl_entries l) es = rl_entries l @ tag rest"
    using raft_append_skip [of ok] oks none ne es by (cases rest) auto
  have "ok = []" if "rl_entries l = []"
    using oks that by (cases ok) auto
  moreover have "Suc prev + length ok \<le> Suc (rl_max l)" if "rl_entries l \<noteq> []"
    using prev_position [OF inv bnd prev that] ok con(1) contig_from_last [OF con(1)]
    by (cases "ok = []") (auto simp: agrees_def dest: bspec [OF _ last_in_set])
  ultimately show start: "e_index (hd rest) = Suc (if rl_entries l = [] then prev else rl_max l)"
    using hd gt by (cases "rl_entries l = []") auto
  show "appendable l rest"
    using start req es ne con(2) hd ts_count_append [of rest "rl_segments l"]
    by (auto simp: appendable_def good_request_def)
qed

lemma remove_range_fields [simp]:
  "rl_segments (remove_range l a b) = rl_segments l"
  "rl_purged_index (remove_range l a b) = rl_purged_index l"
  "rl_poisoned (remove_range l a b) = rl_poisoned l"
  "rl_durable (remove_range l a b) = rl_durable l"
  "rl_next_id (remove_range l a b) = rl_next_id l"
  by (simp_all add: remove_range_def case_prod_beta)

lemma filter_less_keys:
  assumes inv: "log_inv l" and ne: "rl_entries l \<noteq> []" and d: "d \<le> Suc (rl_max l)"
  shows "map fst (filter (\<lambda>b. fst b < d) (rl_entries l)) = [rl_min l ..< d]"
  using d map_fst_filter [of "\<lambda>k. k < d" "rl_entries l"]
  by (simp add: log_inv_keys [OF inv ne] filter_less_upt min_absorb2 del: upt_Suc)

lemma truncate_tail:
  assumes inv: "log_inv l" and bnd: "boundary_ok l" and prev: "term_at l prev = Some t"
    and req: "good_request l prev es" and es: "es = ok @ rest" and ne: "rest \<noteq> []"
    and ok: "\<forall>e \<in> set ok. agrees l e"
    and le: "e_index (hd rest) \<le> rl_max l" and bad: "\<not> agrees l (hd rest)"
  defines "d \<equiv> e_index (hd rest)" and "kept \<equiv> filter (\<lambda>b. fst b < e_index (hd rest)) (rl_entries l)"
  shows "appendable (remove_range l d u64_max) rest"
    and "raft_append (rl_entries l) es = kept @ tag rest"
    and "fst (hd (kept @ tag rest)) = fst (hd (rl_entries l))"
proof -
  have con: "contig_from (Suc prev) ok" "contig_from d rest" and dge: "Suc prev \<le> d"
    using req es contig_from_nth [of "Suc prev + length ok" rest 0] ne
    by (auto simp: good_request_def contig_append_iff hd_conv_nth d_def)
  have lne: "rl_entries l \<noteq> []"
    using inv le dge by (auto simp: d_def log_inv_def bounds_ok_def)
  have min: "rl_min l \<le> d"
    using prev_position [OF inv bnd prev lne] dge by simp
  have keys: "map fst kept = [rl_min l ..< d]"
    unfolding kept_def d_def using filter_less_keys [OF inv lne] le by simp
  have oks: "\<exists>e'. om_get (rl_entries l) (e_index e) = Some e' \<and> e_term e' = e_term e" if "e \<in> set ok" for e
    using agrees_entry [OF inv bnd prev] ok that contig_from_ge [OF con(1) that] by auto
  obtain e' where e': "entry l d = Some e'"
    using entry_in_range [OF inv, of d] min le dge by (auto simp: d_def)
  have "e_term e' \<noteq> e_term (hd rest)"
    using bad le e' by (auto simp: agrees_def term_at_def d_def)
  then show "raft_append (rl_entries l) es = kept @ tag rest"
    using raft_append_skip [of ok] oks e' ne es by (cases rest) (auto simp: entry_def d_def kept_def)
  note rem = remove_suffix_inv [OF inv, of d]
  have "rl_max (remove_range l d u64_max) = d - 1" and "rl_min l < d" if "kept \<noteq> []"
  proof -
    have "rl_entries (remove_range l d u64_max) \<noteq> []"
      using rem that by (simp add: kept_def d_def)
    then show "rl_max (remove_range l d u64_max) = d - 1" and "rl_min l < d"
      using om_ends_upt(2) [OF log_inv_keys [OF rem(1)]] om_ends_upt(2,3) [OF keys that] rem(2)
      by (auto simp: kept_def d_def)
  qed
  then show "appendable (remove_range l d u64_max) rest"
    using req es ne con(2) rem(2) ts_count_append [of rest "rl_segments l"] dge
    by (auto simp: appendable_def good_request_def kept_def d_def)
  have hd: "fst (hd (rl_entries l)) = rl_min l"
    using om_ends_upt(1) [OF log_inv_keys [OF inv lne] lne] by (simp add: om_front_def lne case_list_hd)
  show "fst (hd (kept @ tag rest)) = fst (hd (rl_entries l))"
  proof (cases "kept = []")
    case True
    then have "[rl_min l ..< d] = []"
      using keys by simp
    then have "d = rl_min l"
      using min by (auto simp: upt_eq_Nil_conv)
    then show ?thesis
      using True hd ne by (cases rest) (auto simp: d_def)
  next
    case False
    then show ?thesis
      using om_ends_upt(1) [OF keys False] hd by (simp add: om_front_def case_list_hd)
  qed
qed

lemma append_tail_state:
  assumes inv: "log_inv l" and bnd: "boundary_ok l" and prev: "term_at l prev = Some t"
    and req: "good_request l prev es" and es: "es = ok @ rest" and ne: "rest \<noteq> []"
    and ok: "\<forall>e \<in> set ok. agrees l e" and gt: "rl_max l < e_index (hd rest)"
    and l': "l' = (insert_to_memory l rest)\<lparr>rl_notified := True\<rparr>"
  shows "rl_entries l' = raft_append (rl_entries l) es \<and> log_inv l' \<and> boundary_ok l'"
proof -
  note tl = append_tail [OF inv bnd prev req es ne ok gt]
  note ins = insert_to_memory_inv [OF inv tl(1)]
  have "boundary_ok l'"
  proof (cases "rl_entries l = []")
    case True
    then have "prev = rl_purged_index l"
      using prev by (simp add: term_at_def entry_def split: if_splits)
    then show ?thesis
      using True ins ne tl(3) by (cases rest) (auto simp: l' boundary_ok_def)
  next
    case False
    then show ?thesis
      using ins bnd by (auto simp: l' boundary_ok_def)
  qed
  then show ?thesis
    using ins tl(2) by (simp add: l')
qed

lemma truncate_tail_state:
  assumes inv: "log_inv l" and bnd: "boundary_ok l" and prev: "term_at l prev = Some t"
    and req: "good_request l prev es" and es: "es = ok @ rest" and ne: "rest \<noteq> []"
    and ok: "\<forall>e \<in> set ok. agrees l e"
    and le: "e_index (hd rest) \<le> rl_max l" and bad: "\<not> agrees l (hd rest)"
    and l': "l' = send_command (insert_to_memory (remove_range l (e_index (hd rest)) u64_max) rest) task"
  shows "rl_entries l' = raft_append (rl_entries l) es \<and> log_inv l' \<and> boundary_ok l'"
proof -
  note tr = truncate_tail [OF inv bnd prev req es ne ok le bad]
  note rem = remove_suffix_inv [OF inv, of "e_index (hd rest)"]
  note ins = insert_to_memory_inv [OF rem(1) tr(1)]
  have ent: "rl_entries l' = filter (\<lambda>b. fst b < e_index (hd rest)) (rl_entries l) @ tag rest"
    unfolding l' log_inv_io_upd ins(2) rem(2) ..
  have "rl_entries l \<noteq> []"
    using inv le bad req es ne
    by (cases rest) (auto simp: log_inv_def bounds_ok_def good_request_def entry_ok_def)
  then have "boundary_ok l'"
    using bnd tr(3) ent by (auto simp: boundary_ok_def l')
  then show ?thesis
    using ins(1) tr(2) ent by (simp add: l')
qed

text \<open>With a matching previous entry the routine takes one of five ways.\<close>

lemma filter_out_match:
  fixes es :: "entry list"
  assumes inv: "log_inv l" and start: "\<not> (prev = 0 \<and> t = 0)" and prev: "term_at l prev = Some t"
  defines "ov \<equiv> takeWhile (\<lambda>e. e_index e \<le> rl_max l) es"
    and "tal \<equiv> dropWhile (\<lambda>e. e_index e \<le> rl_max l) es"
    and "rest \<equiv> dropWhile (agrees l) es"
  shows "filter_out_conflicts_and_append l prev t es (Inr ()) =
    (if overlap_safe l ov \<and> tal = [] \<or> \<not> overlap_safe l ov \<and> rest = [] then (l, Inr (last_lid es))
     else if overlap_safe l ov then
       (case append_entries l tal of (l2, Inl e) \<Rightarrow> (l2, Inl e) | (l2, Inr _) \<Rightarrow> (l2, Inr (last_lid tal)))
     else if e_index (hd rest) \<le> rl_max l then
       (send_command (insert_to_memory (remove_range l (e_index (hd rest)) u64_max) rest)
          (ReplaceRange (e_index (hd rest)) rest), Inr (last_lid rest))
     else (case append_entries l rest of (l2, Inl e) \<Rightarrow> (l2, Inl e) | (l2, Inr _) \<Rightarrow> (l2, Inr (last_lid rest))))"
proof -
  define p where "p = length (takeWhile (agrees l) es)"
  have es: "es = takeWhile (agrees l) es @ rest"
    by (simp add: rest_def)
  have p: "p = length es \<longleftrightarrow> rest = []" "drop p es = rest"
    unfolding p_def by (metis append_eq_conv_conj es length_append add_cancel_right_right length_0_conv,
        metis append_eq_conv_conj es)
  have hd: "es ! p = hd rest" if "rest \<noteq> []"
    using that unfolding p_def by (metis es hd_conv_nth nth_append_length_plus add.right_neutral)
  have match: "filter_out_conflicts_and_append l prev t es (Inr ()) =
    (if overlap_safe l ov then
       (if tal = [] then (l, Inr (last_lid es))
        else (case append_entries l tal of (l2, Inl e) \<Rightarrow> (l2, Inl e) | (l2, Inr _) \<Rightarrow> (l2, Inr (last_lid tal))))
     else (case diverge_pos l (rl_max l) es of
        Inl e \<Rightarrow> (l, Inl e)
      | Inr None \<Rightarrow> (l, Inr (last_lid es))
      | Inr (Some pos) \<Rightarrow>
          if e_index (es ! pos) \<le> rl_max l then
            (send_command (insert_to_memory (remove_range l (e_index (es ! pos)) u64_max) (drop pos es))
               (ReplaceRange (e_index (es ! pos)) (drop pos es)), Inr (last_lid (drop pos es)))
          else (case append_entries l (drop pos es) of (l2, Inl e) \<Rightarrow> (l2, Inl e)
                | (l2, Inr _) \<Rightarrow> (l2, Inr (last_lid (drop pos es))))))"
    using start prev
    by (simp only: filter_out_conflicts_and_append_def entry_term_exact [OF inv] last_entry_id_def
        Let_def ov_def tal_def if_False if_True sum.case bind_result_simps simp_thms)
  show ?thesis
    unfolding match diverge_pos_exact [OF inv] p_def [symmetric] Let_def
    using p hd by (cases "rest = []") simp_all
qed

lemma filter_out_refines:
  assumes inv: "log_inv l" and bnd: "boundary_ok l" and pois: "\<not> rl_poisoned l"
    and start: "\<not> (prev = 0 \<and> t = 0)" and prev: "term_at l prev = Some t"
    and req: "good_request l prev es"
  shows "\<exists>l'. filter_out_conflicts_and_append l prev t es (Inr ()) = (l', Inr (last_lid es))
           \<and> rl_entries l' = raft_append (rl_entries l) es \<and> log_inv l' \<and> boundary_ok l'"
proof -
  define ov where "ov = takeWhile (\<lambda>e. e_index e \<le> rl_max l) es"
  define tal where "tal = dropWhile (\<lambda>e. e_index e \<le> rl_max l) es"
  define rest where "rest = dropWhile (agrees l) es"
  note match = filter_out_match [OF inv start prev, of es, folded ov_def tal_def rest_def]
  have es: "es = ov @ tal" "es = takeWhile (agrees l) es @ rest"
    by (simp_all add: ov_def tal_def rest_def)
  have oks: "\<forall>e \<in> set (takeWhile (agrees l) es). agrees l e"
    by (auto dest: set_takeWhileD)
  have ovs: "\<forall>e \<in> set ov. agrees l e" if "overlap_safe l ov"
    using overlap_safe_agrees [OF inv bnd prev req ov_def that] by blast
  have all_ok: "raft_append (rl_entries l) es = rl_entries l" if "\<forall>e \<in> set es. agrees l e"
    using raft_append_skip [of es "rl_entries l" "[]"] agrees_entry [OF inv bnd prev] that req
      contig_from_ge [of "Suc prev" es]
    by (auto simp: good_request_def Suc_le_eq)
  consider (same) "overlap_safe l ov \<and> tal = [] \<or> \<not> overlap_safe l ov \<and> rest = []"
    | (fast) "overlap_safe l ov" "tal \<noteq> []"
    | (cut) "\<not> overlap_safe l ov" "rest \<noteq> []" "e_index (hd rest) \<le> rl_max l"
    | (slow) "\<not> overlap_safe l ov" "rest \<noteq> []" "rl_max l < e_index (hd rest)"
    by (meson not_le)
  then show ?thesis
  proof cases
    case same
    then have "\<forall>e \<in> set es. agrees l e"
      using ovs oks es by (metis append_Nil2)
    then show ?thesis
      using all_ok match same inv bnd by simp
  next
    case fast
    then have "rl_max l < e_index (hd tal)"
      using hd_dropWhile [of "\<lambda>e. e_index e \<le> rl_max l" es] by (simp add: tal_def)
    then show ?thesis
      using append_tail_state [OF inv bnd prev req es(1) fast(2) ovs [OF fast(1)] _ refl] fast match
        append_entries_ok [OF pois fast(2)] last_lid_append [OF fast(2), of ov] es(1)
      by simp
  next
    case cut
    have "\<not> agrees l (hd rest)"
      using cut hd_dropWhile [of "agrees l" es] by (simp add: rest_def)
    then show ?thesis
      using truncate_tail_state [OF inv bnd prev req es(2) cut(2) oks cut(3) _ refl] cut match
        last_lid_append [OF cut(2), of "takeWhile (agrees l) es"] es(2)
      by simp
  next
    case slow
    then show ?thesis
      using append_tail_state [OF inv bnd prev req es(2) slow(2) oks slow(3) refl] match
        append_entries_ok [OF pois slow(2)] last_lid_append [OF slow(2), of "takeWhile (agrees l) es"] es(2)
      by simp
  qed
qed

end
