(* ===== verification/Log_Interface.thy ===== *)
theory Log_Interface
  imports Log_Conflict Quorum
begin

text \<open>
  The contract of the \<^verbatim>\<open>RaftLog\<close> trait (\<^verbatim>\<open>d-engine-core/src/storage/raft_log.rs\<close>) as two
  locales, reads and writes, with what its clients (the replication handler and the roles)
  derive from it, and the interpretation on the buffered log.  The commit rule of the leader
  is characterised here as well.
\<close>

locale raft_log_reads =
  fixes inv :: "'l \<Rightarrow> bool"
    and entry_at :: "'l \<Rightarrow> u64 \<Rightarrow> entry option"
    and first_id :: "'l \<Rightarrow> u64"
    and last_id :: "'l \<Rightarrow> u64"
    and range_of :: "'l \<Rightarrow> u64 \<Rightarrow> u64 \<Rightarrow> entry list"
  assumes entry_dom: "inv l \<Longrightarrow> (\<exists>e. entry_at l i = Some e) \<longleftrightarrow>
                        last_id l \<noteq> 0 \<and> first_id l \<le> i \<and> i \<le> last_id l"
    and entry_idx: "inv l \<Longrightarrow> entry_at l i = Some e \<Longrightarrow> e_index e = i"
    and range_idx: "inv l \<Longrightarrow> map e_index (range_of l a b) =
                      filter (\<lambda>i. a \<le> i \<and> i \<le> b \<and> (\<exists>e. entry_at l i = Some e))
                        [first_id l ..< Suc (last_id l)]"
    and range_mem: "inv l \<Longrightarrow> e \<in> set (range_of l a b) \<Longrightarrow> entry_at l (e_index e) = Some e"
begin

lemma entry_none_above: "inv l \<Longrightarrow> last_id l < i \<Longrightarrow> entry_at l i = None"
  using entry_dom [of l i] by (cases "entry_at l i") auto

lemma range_full:
  assumes "inv l" and "last_id l \<noteq> 0" and "first_id l \<le> a" and "a \<le> b" and "b \<le> last_id l"
  shows "map e_index (range_of l a b) = [a ..< Suc b]"
proof -
  have "filter (\<lambda>i. a \<le> i \<and> i \<le> b \<and> (\<exists>e. entry_at l i = Some e)) [first_id l ..< Suc (last_id l)]
      = filter (\<lambda>i. i < Suc b) (filter (\<lambda>i. a \<le> i) [first_id l ..< Suc (last_id l)])"
    unfolding filter_filter using assms entry_dom [OF assms(1)]
    by (intro filter_cong) auto
  also have "filter (\<lambda>i. a \<le> i) [first_id l ..< Suc (last_id l)] = [a ..< Suc (last_id l)]"
  proof (cases a)
    case (Suc c)
    then show ?thesis
      using assms filter_greater_upt [of c "first_id l"] by (simp add: Suc_le_eq del: upt_Suc)
  qed (use assms in simp)
  finally show ?thesis
    using assms by (simp add: range_idx [OF assms(1)] filter_less_upt min_absorb2 del: upt_Suc)
qed

lemma range_length:
  assumes "inv l" and "last_id l \<noteq> 0" and "first_id l \<le> a" and "a \<le> b" and "b \<le> last_id l"
  shows "length (range_of l a b) = Suc b - a"
  using arg_cong [OF range_full [OF assms], of length] by (simp del: upt_Suc)

lemma range_nth:
  assumes "inv l" and "last_id l \<noteq> 0" and "first_id l \<le> a" and "a \<le> b" and "b \<le> last_id l"
    and "i < Suc b - a"
  shows "entry_at l (a + i) = Some (range_of l a b ! i)"
proof -
  have len: "i < length (range_of l a b)"
    using range_length [OF assms(1-5)] assms(6) by simp
  have "e_index (range_of l a b ! i) = map e_index (range_of l a b) ! i"
    using len by simp
  also have "\<dots> = a + i"
    unfolding range_full [OF assms(1-5)] using assms(6) by (subst nth_upt) auto
  finally show ?thesis
    using range_mem [OF assms(1) nth_mem [OF len]] by simp
qed

end

locale raft_log_writes = raft_log_reads +
  fixes can_append :: "'a \<Rightarrow> entry list \<Rightarrow> bool"
    and append_to :: "'a \<Rightarrow> entry list \<Rightarrow> 'a"
    and purge_to :: "'a \<Rightarrow> log_id \<Rightarrow> 'a"
  assumes append_inv: "inv l \<Longrightarrow> can_append l es \<Longrightarrow> inv (append_to l es)"
    and append_at: "inv l \<Longrightarrow> can_append l es \<Longrightarrow>
          entry_at (append_to l es) i = (case map_of (tag es) i of Some e \<Rightarrow> Some e | None \<Rightarrow> entry_at l i)"
    and purge_inv: "inv l \<Longrightarrow> inv (purge_to l c)"
    and purge_at: "inv l \<Longrightarrow> entry_at (purge_to l c) i
                     = (if i \<le> lid_index c then None else entry_at l i)"
begin

lemma purge_keeps_suffix:
  "inv l \<Longrightarrow> lid_index c < i \<Longrightarrow> entry_at (purge_to l c) i = entry_at l i"
  by (simp add: purge_at)

lemma append_purge_commute:
  assumes "inv l" and "can_append l es" and "can_append (purge_to l c) es"
    and "\<forall>e \<in> set es. lid_index c < e_index e"
  shows "entry_at (purge_to (append_to l es) c) i = entry_at (append_to (purge_to l c) es) i"
proof -
  have "map_of (tag es) i = None" if "i \<le> lid_index c"
    using assms(4) that by (force simp: map_of_eq_None_iff set_tag)
  then show ?thesis
    using assms by (auto simp: append_at purge_at append_inv purge_inv split: option.splits)
qed

end

lemma range_indexes:
  assumes inv: "log_inv l"
  shows "map e_index (get_entries_range l a b) =
    filter (\<lambda>i. a \<le> i \<and> i \<le> b \<and> (\<exists>e. entry l i = Some e)) [rl_min l ..< Suc (rl_max l)]"
proof (cases "rl_entries l = []")
  case True
  then show ?thesis
    by (auto simp: get_entries_range_def om_range_def entry_def)
next
  case False
  have idx: "e_index (snd x) = fst x" if "x \<in> set (rl_entries l)" for x
    using inv that by (auto simp: log_inv_def keys_ok_def)
  have "map e_index (get_entries_range l a b) = map fst (filter (\<lambda>x. a \<le> fst x \<and> fst x \<le> b) (rl_entries l))"
    unfolding get_entries_range_def om_range_def map_map using idx by (intro map_cong) auto
  also have "\<dots> = filter (\<lambda>i. a \<le> i \<and> i \<le> b) [rl_min l ..< Suc (rl_max l)]"
    using map_fst_filter [of "\<lambda>i. a \<le> i \<and> i \<le> b" "rl_entries l"] log_inv_keys [OF inv False]
    by (simp del: upt_Suc)
  also have "\<dots> = filter (\<lambda>i. a \<le> i \<and> i \<le> b \<and> (\<exists>e. entry l i = Some e)) [rl_min l ..< Suc (rl_max l)]"
    using log_inv_min_le [OF inv False]
    by (intro filter_cong) (auto simp: entry_in_range [OF inv])
  finally show ?thesis .
qed

interpretation brl: raft_log_reads log_inv entry first_entry_id last_entry_id get_entries_range
proof unfold_locales
  show "(\<exists>e. entry l i = Some e) \<longleftrightarrow> last_entry_id l \<noteq> 0 \<and> first_entry_id l \<le> i \<and> i \<le> last_entry_id l"
    if "log_inv l" for l i
    using entry_in_range [OF that] by (simp add: first_entry_id_def last_entry_id_def)
  show "e_index e = i" if "log_inv l" and "entry l i = Some e" for l i e
    using that by (rule entry_fields(1))
  show "map e_index (get_entries_range l a b) = filter (\<lambda>i. a \<le> i \<and> i \<le> b \<and> (\<exists>e. entry l i = Some e))
          [first_entry_id l ..< Suc (last_entry_id l)]" if "log_inv l" for l a b
    using range_indexes [OF that] by (simp only: first_entry_id_def last_entry_id_def)
  show "entry l (e_index e) = Some e" if inv: "log_inv l" and "e \<in> set (get_entries_range l a b)" for l a b e
    using that om_get_Some_iff [OF log_inv_wf [OF inv]]
    by (auto simp: get_entries_range_def om_range_def entry_def log_inv_def keys_ok_def)
qed

interpretation brl: raft_log_writes log_inv entry first_entry_id last_entry_id get_entries_range
  appendable insert_to_memory purge_prefix
proof unfold_locales
  show "log_inv (insert_to_memory l es)" if "log_inv l" and "appendable l es" for l es
    using that by (rule insert_to_memory_inv)
  show "entry (insert_to_memory l es) i = (case map_of (tag es) i of Some e \<Rightarrow> Some e | None \<Rightarrow> entry l i)"
    if inv: "log_inv l" and app: "appendable l es" for l es i
  proof -
    have "distinct (map fst (rl_entries l @ tag es))"
      using insert_to_memory_entries(2) [OF inv app] by (rule om_wf_distinct)
    then have "map_of (rl_entries l) i = None" if "map_of (tag es) i = Some e" for e
      using imageI [OF map_of_SomeD [OF that], of fst]
      by (auto simp: map_of_eq_None_iff simp del: map_fst_tag)
    then show ?thesis
      by (auto simp: entry_def om_get_def insert_to_memory_entries(1) [OF inv app] map_add_def
          split: option.splits)
  qed
  show "log_inv (purge_prefix l c)" if "log_inv l" for l c
    using that by (rule purge_prefix_inv)
  show "entry (purge_prefix l c) i = (if i \<le> lid_index c then None else entry l i)" if "log_inv l" for l c i
    using map_of_filter_fst [of "\<lambda>k. lid_index c < k" "rl_entries l" i]
    by (auto simp: entry_def om_get_def purge_prefix_inv(2) [OF that])
qed

section \<open>The commit rule\<close>

lemma nth_filter_desc:
  "sorted_wrt (\<ge>) xs \<Longrightarrow> i < length xs \<Longrightarrow>
   (k :: nat) \<le> xs ! i \<longleftrightarrow> i < length (filter (\<lambda>m. k \<le> m) xs)"
proof (induction xs arbitrary: i)
  case (Cons x xs)
  show ?case
  proof (cases "k \<le> x")
    case True
    then show ?thesis
      using Cons by (cases i) auto
  next
    case False
    then have "filter (\<lambda>m. k \<le> m) xs = []"
      using Cons.prems by (auto simp: filter_empty_conv)
    then show ?thesis
      using False Cons.prems by (cases i) (auto simp: not_le, fastforce dest: nth_mem)
  qed
qed simp

lemma majority_index_iff:
  fixes ids :: "nat list"
  assumes "ids \<noteq> []"
  shows "k \<le> rev (sort ids) ! (length ids div 2)
     \<longleftrightarrow> is_majority (length (filter (\<lambda>m. k \<le> m) ids)) (length ids)"
proof -
  have "length (filter (\<lambda>m. k \<le> m) (rev (sort ids))) = length (filter (\<lambda>m. k \<le> m) ids)"
    by (simp add: filter_sort flip: rev_filter)
  moreover have "sorted_wrt (\<ge>) (rev (sort ids))"
    by (simp add: sorted_wrt_rev)
  ultimately show ?thesis
    using nth_filter_desc [of "rev (sort ids)" "length ids div 2" k] assms
    by (simp add: is_majority_def)
qed

end
