(* ===== verification/Log_Io.thy ===== *)
theory Log_Io
  imports Log_Interface
begin

text \<open>
  The IO thread of the log (\<^verbatim>\<open>batch_processor\<close> and its helpers in
  \<^verbatim>\<open>buffered_raft_log.rs\<close>) and the fsync coordinator (\<^verbatim>\<open>fsync_coordinator.rs\<close>).  The log
  store is a parameter, a record of the operations of the \<^verbatim>\<open>LogStore\<close> trait on a store state
  of any type.  One wake-up of the IO thread is a function; one round of the fsync task is
  cut at the points where the Raft loop can interleave with it: taking the pending work,
  the physical flush, the fence check, and the publication of the result.
\<close>

record 's log_store =
  ls_persist :: "entry list \<Rightarrow> 's \<Rightarrow> 's \<times> unit result"
  ls_replace_range :: "u64 \<Rightarrow> entry list \<Rightarrow> 's \<Rightarrow> 's \<times> unit result"
  ls_purge :: "log_id \<Rightarrow> 's \<Rightarrow> 's \<times> unit result"
  ls_reset :: "'s \<Rightarrow> 's \<times> unit result"
  ls_flush :: "'s \<Rightarrow> 's \<times> unit result"
  ls_is_write_durable :: bool

text \<open>A round of the fsync task.\<close>

datatype fsync_task =
    FsIdle
  | FsTaken u64 u64 "chan list"
  | FsFlushed u64 u64 "chan list" "unit result"
  | FsPassed u64 "chan list" "unit result"

record 's io_state =
  io_log :: raft_log
  io_store :: 's
  io_pending_max :: u64
  io_task :: fsync_task

section \<open>The IO thread\<close>

definition persist_pending_range ::
    "'s log_store \<Rightarrow> u64 \<Rightarrow> u64 \<Rightarrow> 's io_state \<Rightarrow> 's io_state \<times> unit result" where
  "persist_pending_range ls from to s =
     (let l = io_log s in
      if rl_poisoned l then (s, Inl (Fatal ''raft log storage is poisoned''))
      else if from > to then (s, Inr ())
      else let es = get_entries_range l from to in
           if es = [] then (s, Inr ())
           else case ls_persist ls es (io_store s) of
                  (st, Inr _) \<Rightarrow>
                    (s\<lparr>io_store := st, io_pending_max := max (io_pending_max s) to\<rparr>, Inr ())
                | (st, Inl e) \<Rightarrow>
                    (s\<lparr>io_store := st, io_log := mark_poisoned_and_notify l ''persist_entries failed''\<rparr>,
                     Inl e))"

definition handle_non_write_cmd ::
    "'s log_store \<Rightarrow> io_task \<Rightarrow> 's io_state \<Rightarrow> ('s io_state \<times> bool) result" where
  "handle_non_write_cmd ls cmd s =
     (let l = io_log s in
      case cmd of
        Flush _ \<Rightarrow> Inl (Panic ''Flush must be intercepted in the drain loop before handle_non_write_cmd'')
      | Shutdown \<Rightarrow> Inl (Panic ''Shutdown is always filtered out before reaching handle_non_write_cmd'')
      | ReplaceRange truncate_from new_entries done_ch \<Rightarrow>
          if rl_poisoned l
          then Inr (s\<lparr>io_log := send_replies l [done_ch] (Inl (Fatal ''raft log storage is poisoned''))\<rparr>, True)
          else (let max_idx = (if new_entries = [] then 0 else e_index (last new_entries)) in
                case ls_replace_range ls truncate_from new_entries (io_store s) of
                  (st, Inl e) \<Rightarrow>
                    Inr (s\<lparr>io_store := st,
                           io_log := send_replies (mark_poisoned_and_notify l ''ReplaceRange failed'')
                                       [done_ch] (Inl e)\<rparr>, True)
                | (st, Inr _) \<Rightarrow>
                    Inr (s\<lparr>io_store := st,
                           io_pending_max := (if max_idx > 0 then max (io_pending_max s) max_idx
                                              else io_pending_max s),
                           io_log := send_replies l [done_ch] (Inr ())\<rparr>, False))
      | Purge cutoff done_ch \<Rightarrow>
          if rl_poisoned l then Inr (s\<lparr>io_log := send_replies l [done_ch] (Inr ())\<rparr>, True)
          else (case ls_purge ls cutoff (io_store s) of
                  (st, Inl e) \<Rightarrow>
                    Inr (s\<lparr>io_store := st,
                           io_log := send_replies (mark_poisoned_and_notify l ''Purge failed'') [done_ch] (Inr ())\<rparr>,
                         True)
                | (st, Inr _) \<Rightarrow>
                    Inr (s\<lparr>io_store := st, io_log := send_replies l [done_ch] (Inr ())\<rparr>, False))
      | Reset done_ch \<Rightarrow>
          (case ls_reset ls (io_store s) of
             (st, Inl e) \<Rightarrow>
               Inr (s\<lparr>io_store := st,
                      io_log := send_replies (mark_poisoned_and_notify l ''Reset failed'') [done_ch] (Inl e)\<rparr>,
                    True)
           | (st, Inr _) \<Rightarrow>
               Inr (s\<lparr>io_store := st, io_pending_max := 0, io_log := send_replies l [done_ch] (Inr ())\<rparr>,
                    False)))"

text \<open>The drain loop over the queued commands: the state, the collected replies, whether a
  shutdown was seen, and whether a command ended the thread.\<close>

fun drain_commands ::
    "'s log_store \<Rightarrow> io_task list \<Rightarrow> chan list \<Rightarrow> bool \<Rightarrow> 's io_state
     \<Rightarrow> ('s io_state \<times> chan list \<times> bool \<times> bool) result" where
  "drain_commands ls [] replies seen_shutdown s = Inr (s, replies, seen_shutdown, False)"
| "drain_commands ls (cmd # cmds) replies seen_shutdown s =
     (let s' = s\<lparr>io_log := (io_log s)\<lparr>rl_commands := cmds\<rparr>\<rparr> in
      case cmd of
        Shutdown \<Rightarrow> drain_commands ls cmds replies True s'
      | Flush reply \<Rightarrow> drain_commands ls cmds (replies @ [reply]) seen_shutdown s'
      | _ \<Rightarrow> bind_result (handle_non_write_cmd ls cmd s')
              (\<lambda>(s'', fatal).
                 if fatal
                 then Inr (s''\<lparr>io_log := send_replies (io_log s'') replies
                                 (Inl (Fatal ''fatal IO error, batch aborted''))\<rparr>,
                           [], seen_shutdown, True)
                 else drain_commands ls cmds replies seen_shutdown s''))"

definition submit :: "raft_log \<Rightarrow> u64 \<Rightarrow> chan list \<Rightarrow> raft_log" where
  "submit l max_index replies =
     (let c = rl_fsync l;
          c1 = (if max_index > 0 then c\<lparr>fc_pending_max := max (fc_pending_max c) max_index\<rparr> else c);
          c2 = c1\<lparr>fc_pending_replies := fc_pending_replies c1 @ replies\<rparr>
      in l\<lparr>rl_fsync := c2\<lparr>fc_inflight := True\<rparr>\<rparr>)"

definition run_batch_turn ::
    "'s log_store \<Rightarrow> chan list \<Rightarrow> bool \<Rightarrow> 's io_state \<Rightarrow> ('s io_state \<times> bool) result" where
  "run_batch_turn ls replies seen_shutdown s =
     (let start = rl_durable (io_log s) + 1; stop = rl_max (io_log s);
          (s1, r1) = persist_pending_range ls start stop s;
          persist_failed = \<not> is_ok r1;
          s2 = (if persist_failed
                then s1\<lparr>io_log := send_replies (io_log s1) replies (Inl (Fatal ''persist_entries failed''))\<rparr>
                else s1);
          replies1 = (if persist_failed then [] else replies)
      in bind_result (drain_commands ls (rl_commands (io_log s2)) replies1 seen_shutdown s2)
           (\<lambda>(s3, replies2, shut, aborted).
              if aborted then Inr (s3, True)
              else let s4 = (if replies2 \<noteq> [] \<and> \<not> persist_failed
                             then fst (persist_pending_range ls (io_pending_max s3 + 1)
                                         (rl_max (io_log s3)) s3)
                             else s3)
                   in Inr (s4\<lparr>io_log := submit (io_log s4) (io_pending_max s4) replies2,
                             io_pending_max := 0\<rparr>, shut)))"

text \<open>The three arms of the loop: a write notification, a command, the safety timer.\<close>

definition on_notified :: "'s log_store \<Rightarrow> 's io_state \<Rightarrow> ('s io_state \<times> bool) result" where
  "on_notified ls s = run_batch_turn ls [] False (s\<lparr>io_log := (io_log s)\<lparr>rl_notified := False\<rparr>\<rparr>)"

definition on_command :: "'s log_store \<Rightarrow> 's io_state \<Rightarrow> ('s io_state \<times> bool) result" where
  "on_command ls s =
     (case rl_commands (io_log s) of
        [] \<Rightarrow> Inr (s, True)
      | cmd # cmds \<Rightarrow>
          (let s' = s\<lparr>io_log := (io_log s)\<lparr>rl_commands := cmds\<rparr>\<rparr> in
           case cmd of
             Shutdown \<Rightarrow> run_batch_turn ls [] True s'
           | Flush reply \<Rightarrow> run_batch_turn ls [reply] False s'
           | _ \<Rightarrow> handle_non_write_cmd ls cmd s'))"

definition on_safety_timer :: "'s log_store \<Rightarrow> 's io_state \<Rightarrow> 's io_state" where
  "on_safety_timer ls s =
     (let s1 = fst (persist_pending_range ls (rl_durable (io_log s) + 1) (rl_max (io_log s)) s) in
      if io_pending_max s1 > 0
      then s1\<lparr>io_log := submit (io_log s1) (io_pending_max s1) [], io_pending_max := 0\<rparr>
      else s1)"

section \<open>The fsync task\<close>

text \<open>Taking the pending work.  The poisoned and the caught-up branch end the task; the
  second re-arms when work slipped in, which the interleaving below covers by taking again.\<close>

definition fsync_take :: "'s io_state \<Rightarrow> 's io_state" where
  "fsync_take s =
     (let l = io_log s; c = rl_fsync l;
          max_index = fc_pending_max c; replies = fc_pending_replies c;
          l1 = l\<lparr>rl_fsync := c\<lparr>fc_pending_max := 0, fc_pending_replies := []\<rparr>\<rparr>
      in if rl_poisoned l then
           (let l2 = send_replies l1 replies (Inl (Fatal ''raft log storage is poisoned''))
            in s\<lparr>io_log := l2\<lparr>rl_fsync := (rl_fsync l2)\<lparr>fc_inflight := False\<rparr>\<rparr>, io_task := FsIdle\<rparr>)
         else if max_index = 0 \<and> replies = [] then
           s\<lparr>io_log := l1\<lparr>rl_fsync := (rl_fsync l1)\<lparr>fc_inflight := False\<rparr>\<rparr>, io_task := FsIdle\<rparr>
         else s\<lparr>io_log := l1, io_task := FsTaken (fc_generation c) max_index replies\<rparr>)"

definition fsync_flush :: "'s log_store \<Rightarrow> 's io_state \<Rightarrow> 's io_state" where
  "fsync_flush ls s =
     (case io_task s of
        FsTaken g m rs \<Rightarrow>
          if ls_is_write_durable ls then s\<lparr>io_task := FsFlushed g m rs (Inr ())\<rparr>
          else (case ls_flush ls (io_store s) of
                  (st, r) \<Rightarrow> s\<lparr>io_store := st, io_task := FsFlushed g m rs r\<rparr>)
      | _ \<Rightarrow> s)"

definition fsync_fence :: "'s io_state \<Rightarrow> 's io_state" where
  "fsync_fence s =
     (case io_task s of
        FsFlushed g m rs r \<Rightarrow>
          if fc_generation (rl_fsync (io_log s)) \<noteq> g
          then s\<lparr>io_log := send_replies (io_log s) rs
                            (Inl (Fatal ''stale fsync generation, superseded by reset'')),
                 io_task := FsIdle\<rparr>
          else s\<lparr>io_task := FsPassed m rs r\<rparr>
      | _ \<Rightarrow> s)"

definition fsync_publish :: "'s io_state \<Rightarrow> 's io_state" where
  "fsync_publish s =
     (case io_task s of
        FsPassed m rs r \<Rightarrow>
          (let l = (case r of Inr _ \<Rightarrow> advance_durable_and_notify (io_log s) m
                    | Inl _ \<Rightarrow> mark_poisoned_and_notify (io_log s) ''fsync failed'')
           in s\<lparr>io_log := send_replies l rs (case r of Inr _ \<Rightarrow> Inr ()
                            | Inl _ \<Rightarrow> Inl (Fatal ''WAL fsync failed'')),
                io_task := FsIdle\<rparr>)
      | _ \<Rightarrow> s)"

definition fsync_round :: "'s log_store \<Rightarrow> 's io_state \<Rightarrow> 's io_state" where
  "fsync_round ls s = fsync_publish (fsync_fence (fsync_flush ls (fsync_take s)))"

text \<open>The loop repeats the round while there is work: \<^verbatim>\<open>inflight\<close> stays set until a round
  finds nothing.\<close>

fun run_until_caught_up :: "'s log_store \<Rightarrow> nat \<Rightarrow> 's io_state \<Rightarrow> 's io_state option" where
  "run_until_caught_up ls 0 s = None"
| "run_until_caught_up ls (Suc n) s =
     (if fc_inflight (rl_fsync (io_log s)) then run_until_caught_up ls n (fsync_round ls s)
      else Some s)"

end
