(* ===== verification/Io_Props.thy ===== *)
theory Io_Props
  imports Log_Io "HOL-Library.Multiset"
begin

text \<open>
  What the IO thread and the fsync coordinator guarantee: reply channels are neither lost nor
  answered twice, a wake-up followed by the fsync task makes the whole log durable, and a
  reset fences out results that are still in flight.
\<close>

fun task_chan :: "io_task \<Rightarrow> chan multiset" where
  "task_chan (ReplaceRange _ _ c) = {#c#}"
| "task_chan (Purge _ c) = {#c#}"
| "task_chan (Reset c) = {#c#}"
| "task_chan (Flush c) = {#c#}"
| "task_chan Shutdown = {#}"

definition queued_chans :: "io_task list \<Rightarrow> chan multiset" where
  "queued_chans cmds = sum_list (map task_chan cmds)"

fun fsync_chans :: "fsync_task \<Rightarrow> chan multiset" where
  "fsync_chans FsIdle = {#}"
| "fsync_chans (FsTaken _ _ rs) = mset rs"
| "fsync_chans (FsFlushed _ _ rs _) = mset rs"
| "fsync_chans (FsPassed _ rs _) = mset rs"

text \<open>Where a reply channel can be: in the command queue, with the coordinator, with the
  running fsync round, or already answered.\<close>

definition log_chans :: "raft_log \<Rightarrow> chan multiset" where
  "log_chans l = queued_chans (rl_commands l) + mset (fc_pending_replies (rl_fsync l))
                 + mset (map fst (rl_replies l))"

definition all_chans :: "'s io_state \<Rightarrow> chan multiset" where
  "all_chans s = log_chans (io_log s) + fsync_chans (io_task s)"

definition chans_ok :: "'s io_state \<Rightarrow> bool" where
  "chans_ok s = (all_chans s = mset [0 ..< rl_next_chan (io_log s)])"

text \<open>The interleavings of the Raft loop, the IO thread and the fsync task.\<close>

inductive io_step :: "'s log_store \<Rightarrow> 's io_state \<Rightarrow> 's io_state \<Rightarrow> bool" for ls where
  step_notified: "on_notified ls s = Inr (s', b) \<Longrightarrow> io_step ls s s'"
| step_command: "on_command ls s = Inr (s', b) \<Longrightarrow> io_step ls s s'"
| step_timer: "io_step ls s (on_safety_timer ls s)"
| step_take: "io_task s = FsIdle \<Longrightarrow> fc_inflight (rl_fsync (io_log s)) \<Longrightarrow> io_step ls s (fsync_take s)"
| step_flush: "io_step ls s (fsync_flush ls s)"
| step_fence: "io_step ls s (fsync_fence s)"
| step_publish: "io_step ls s (fsync_publish s)"
| step_append: "io_step ls s (s\<lparr>io_log := fst (append_entries (io_log s) es)\<rparr>)"
| step_replace: "io_step ls s (s\<lparr>io_log := fst (filter_out_conflicts_and_append (io_log s) p t es io)\<rparr>)"
| step_reset: "io_step ls s (s\<lparr>io_log := fst (reset (io_log s) io)\<rparr>)"
| step_purge: "io_step ls s (s\<lparr>io_log := fst (purge_logs_up_to (io_log s) c io)\<rparr>)"
| step_wait: "io_step ls s (s\<lparr>io_log := fst (flush (io_log s) io)\<rparr>)"

inductive_cases io_stepE: "io_step ls s s'"

lemma queued_chans_simps [simp]:
  "queued_chans [] = {#}"
  "queued_chans (c # cs) = task_chan c + queued_chans cs"
  "queued_chans (cs @ ds) = queued_chans cs + queued_chans ds"
  by (simp_all add: queued_chans_def)

lemma chan_fields [simp]:
  "rl_replies (insert_to_memory l es) = rl_replies l"
  "rl_fsync (insert_to_memory l es) = rl_fsync l"
  "rl_next_chan (insert_to_memory l es) = rl_next_chan l"
  "rl_commands (remove_range l a b) = rl_commands l"
  "rl_replies (remove_range l a b) = rl_replies l"
  "rl_fsync (remove_range l a b) = rl_fsync l"
  "rl_next_chan (remove_range l a b) = rl_next_chan l"
  "rl_commands (purge_prefix l c) = rl_commands l"
  "rl_replies (purge_prefix l c) = rl_replies l"
  "rl_fsync (purge_prefix l c) = rl_fsync l"
  "rl_next_chan (purge_prefix l c) = rl_next_chan l"
  by (simp_all add: insert_to_memory_def remove_range_def purge_prefix_def remove_range_locked_def Let_def)

lemma log_chans_upd [simp]:
  "log_chans (send_replies l rs r) = log_chans l + mset rs"
  "log_chans (mark_poisoned_and_notify l e) = log_chans l"
  "log_chans (advance_durable_and_notify l d) = log_chans l"
  "log_chans (submit l m rs) = log_chans l + mset rs"
  "log_chans (insert_to_memory l es) = log_chans l"
  "log_chans (remove_range l a b) = log_chans l"
  "log_chans (purge_prefix l c) = log_chans l"
  "log_chans (fence_reset l) = log_chans l"
  "log_chans (l\<lparr>rl_notified := n\<rparr>) = log_chans l"
  by (simp_all add: log_chans_def send_replies_def mark_poisoned_and_notify_def notify_fatal_def
      advance_durable_and_notify_def submit_def fence_reset_def Let_def comp_def)

lemma next_chan_upd [simp]:
  "rl_next_chan (send_replies l rs r) = rl_next_chan l"
  "rl_next_chan (mark_poisoned_and_notify l e) = rl_next_chan l"
  "rl_next_chan (advance_durable_and_notify l d) = rl_next_chan l"
  "rl_next_chan (submit l m rs) = rl_next_chan l"
  "rl_next_chan (fence_reset l) = rl_next_chan l"
  by (simp_all add: send_replies_def mark_poisoned_and_notify_def notify_fatal_def
      advance_durable_and_notify_def submit_def fence_reset_def Let_def)

lemma log_chans_send [simp]:
  "(\<And>c. task_chan (task c) = {#c#}) \<Longrightarrow> log_chans (send_command l task) = add_mset (rl_next_chan l) (log_chans l)"
  "rl_next_chan (send_command l task) = Suc (rl_next_chan l)"
  by (simp_all add: log_chans_def send_command_def)

lemma persist_pending_range_chans:
  assumes "persist_pending_range ls a b s = (s', r)"
  shows "log_chans (io_log s') = log_chans (io_log s)" and "io_task s' = io_task s"
    and "rl_commands (io_log s') = rl_commands (io_log s)"
    and "rl_next_chan (io_log s') = rl_next_chan (io_log s)"
  using assms
  by (auto simp: persist_pending_range_def Let_def mark_poisoned_and_notify_def notify_fatal_def
      log_chans_def split: if_splits prod.splits sum.splits)

lemma handle_non_write_chans:
  assumes "handle_non_write_cmd ls cmd s = Inr (s', b)"
  shows "log_chans (io_log s') = log_chans (io_log s) + task_chan cmd" and "io_task s' = io_task s"
    and "rl_commands (io_log s') = rl_commands (io_log s)"
    and "rl_next_chan (io_log s') = rl_next_chan (io_log s)"
  using assms
  by (cases cmd; auto simp: handle_non_write_cmd_def Let_def mark_poisoned_and_notify_def notify_fatal_def
      send_replies_def log_chans_def split: if_splits prod.splits sum.splits)+

lemma drain_commands_other:
  "\<not> (\<exists>c. cmd = Flush c \<or> cmd = Shutdown) \<Longrightarrow>
   drain_commands ls (cmd # cmds) rs shut s =
     bind_result (handle_non_write_cmd ls cmd (s\<lparr>io_log := (io_log s)\<lparr>rl_commands := cmds\<rparr>\<rparr>))
       (\<lambda>(s'', fatal). if fatal then Inr (s''\<lparr>io_log := send_replies (io_log s'') rs
           (Inl (Fatal ''fatal IO error, batch aborted''))\<rparr>, [], shut, True)
         else drain_commands ls cmds rs shut s'')"
  by (cases cmd) (simp_all add: Let_def)

definition same_chans :: "'s io_state \<Rightarrow> chan list \<Rightarrow> 's io_state \<Rightarrow> chan list \<Rightarrow> bool" where
  "same_chans s rs s' rs' = (log_chans (io_log s') + mset rs' = log_chans (io_log s) + mset rs
     \<and> io_task s' = io_task s \<and> rl_next_chan (io_log s') = rl_next_chan (io_log s))"

lemma drain_commands_chans:
  "drain_commands ls cmds rs shut s = Inr (s', rs', shut', ab) \<Longrightarrow> rl_commands (io_log s) = cmds \<Longrightarrow>
   same_chans s rs s' rs' \<and> (ab \<longrightarrow> rs' = [])"
proof (induction cmds arbitrary: rs shut s)
  case (Cons cmd cmds)
  let ?s = "s\<lparr>io_log := (io_log s)\<lparr>rl_commands := cmds\<rparr>\<rparr>"
  have chans: "log_chans (io_log s) = log_chans (io_log ?s) + task_chan cmd"
    using Cons.prems(2) by (simp add: log_chans_def)
  consider (flush) c where "cmd = Flush c" | (shut) "cmd = Shutdown"
    | (other) "\<not> (\<exists>c. cmd = Flush c \<or> cmd = Shutdown)"
    by blast
  then show ?case
  proof cases
    case flush
    then show ?thesis
      using Cons.IH [of "rs @ [c]" shut ?s] Cons.prems(1) chans by (simp add: same_chans_def)
  next
    case shut
    then show ?thesis
      using Cons.IH [of rs True ?s] Cons.prems(1) chans by (simp add: same_chans_def)
  next
    case other
    then obtain s2 fatal where h: "handle_non_write_cmd ls cmd ?s = Inr (s2, fatal)"
      and r: "(if fatal then Inr (s2\<lparr>io_log := send_replies (io_log s2) rs
           (Inl (Fatal ''fatal IO error, batch aborted''))\<rparr>, [], shut, True)
         else drain_commands ls cmds rs shut s2) = Inr (s', rs', shut', ab)"
      using Cons.prems(1) unfolding drain_commands_other [OF other] bind_result_Inr_iff by auto
    note hc = handle_non_write_chans [OF h]
    show ?thesis
    proof (cases fatal)
      case True
      then show ?thesis
        using r hc chans by (auto simp: same_chans_def)
    next
      case False
      then show ?thesis
        using r hc chans Cons.IH [of rs shut s2] by (simp add: same_chans_def)
    qed
  qed
qed (simp add: same_chans_def)

lemma run_batch_turn_chans:
  assumes "run_batch_turn ls rs shut s = Inr (s', b)"
  shows "same_chans s rs s' []"
proof -
  obtain s1 r1 where p: "persist_pending_range ls (rl_durable (io_log s) + 1) (rl_max (io_log s)) s = (s1, r1)"
    by fastforce
  define failed where "failed = (\<not> is_ok r1)"
  define s2 where "s2 = (if failed then s1\<lparr>io_log := send_replies (io_log s1) rs
      (Inl (Fatal ''persist_entries failed''))\<rparr> else s1)"
  define rs1 where "rs1 = (if failed then [] else rs)"
  have same2: "same_chans s rs s2 rs1"
    using persist_pending_range_chans [OF p] by (simp add: same_chans_def s2_def rs1_def)
  have "bind_result (drain_commands ls (rl_commands (io_log s2)) rs1 shut s2)
      (\<lambda>(s3, rs2, sh, ab). if ab then Inr (s3, True)
         else let s4 = (if rs2 \<noteq> [] \<and> \<not> failed
                 then fst (persist_pending_range ls (io_pending_max s3 + 1) (rl_max (io_log s3)) s3) else s3)
              in Inr (s4\<lparr>io_log := submit (io_log s4) (io_pending_max s4) rs2, io_pending_max := 0\<rparr>, sh))
      = Inr (s', b)"
    using assms unfolding run_batch_turn_def Let_def p prod.case s2_def rs1_def failed_def .
  then obtain s3 rs2 sh ab where d: "drain_commands ls (rl_commands (io_log s2)) rs1 shut s2 = Inr (s3, rs2, sh, ab)"
    and fin: "if ab then s' = s3 else
      (let s4 = (if rs2 \<noteq> [] \<and> \<not> failed
                 then fst (persist_pending_range ls (io_pending_max s3 + 1) (rl_max (io_log s3)) s3) else s3)
       in s' = s4\<lparr>io_log := submit (io_log s4) (io_pending_max s4) rs2, io_pending_max := 0\<rparr>)"
    unfolding bind_result_Inr_iff by (auto simp: Let_def split: if_splits)
  have same3: "same_chans s rs s3 rs2" and "ab \<longrightarrow> rs2 = []"
    using drain_commands_chans [OF d refl] same2 by (simp_all add: same_chans_def)
  moreover have "log_chans (io_log (fst (persist_pending_range ls a c s3))) = log_chans (io_log s3)"
    "io_task (fst (persist_pending_range ls a c s3)) = io_task s3"
    "rl_next_chan (io_log (fst (persist_pending_range ls a c s3))) = rl_next_chan (io_log s3)" for a c
    using persist_pending_range_chans [of ls a c s3] by (cases "persist_pending_range ls a c s3"; simp)+
  ultimately show ?thesis
    using fin by (cases ab) (auto simp: same_chans_def Let_def split: if_splits)
qed

text \<open>An operation of the Raft loop creates at most one channel, the next one.\<close>

definition chan_step :: "raft_log \<Rightarrow> raft_log \<Rightarrow> bool" where
  "chan_step l l' = (log_chans l' = log_chans l \<and> rl_next_chan l' = rl_next_chan l
     \<or> log_chans l' = add_mset (rl_next_chan l) (log_chans l) \<and> rl_next_chan l' = Suc (rl_next_chan l))"

lemma append_entries_chans:
  "log_chans (fst (append_entries l es)) = log_chans l"
  "rl_next_chan (fst (append_entries l es)) = rl_next_chan l"
  by (simp_all add: append_entries_def)

lemma reset_chans:
  "log_chans (fst (reset l io)) = add_mset (rl_next_chan l) (log_chans l)"
  "rl_next_chan (fst (reset l io)) = Suc (rl_next_chan l)"
proof -
  let ?l = "(fence_reset l)\<lparr>rl_entries := [], rl_durable := 0, rl_next_id := 1, rl_min := 0, rl_max := 0,
    rl_term_first := (\<lambda>_. None), rl_term_last := (\<lambda>_. None), rl_segments := ts_clear (rl_segments l)\<rparr>"
  have l: "log_chans ?l = log_chans (fence_reset l)" "rl_next_chan ?l = rl_next_chan (fence_reset l)"
    by (simp_all add: log_chans_def)
  have s: "fst (reset l io) = send_command ?l Reset"
    by (simp add: reset_def reset_internal_def Let_def)
  show "log_chans (fst (reset l io)) = add_mset (rl_next_chan l) (log_chans l)"
    unfolding s using l by simp
  show "rl_next_chan (fst (reset l io)) = Suc (rl_next_chan l)"
    unfolding s using l by simp
qed

lemma case_result_fst:
  "fst (case p of (l2, Inl e) \<Rightarrow> (l2, Inl e) | (l2, Inr u) \<Rightarrow> (l2, Inr (f u))) = fst p"
  by (auto split: prod.splits sum.splits)

lemma filter_out_chans:
  "chan_step l (fst (filter_out_conflicts_and_append l p t es io))"
proof -
  have app: "chan_step l (fst (case append_entries l xs of (l2, Inl e) \<Rightarrow> (l2, Inl e)
      | (l2, Inr u) \<Rightarrow> (l2, Inr v)))" for xs and v :: "log_id option"
    unfolding case_result_fst by (simp add: chan_step_def append_entries_chans)
  have rst: "chan_step l (fst (case reset l io of (l1, Inl e) \<Rightarrow> (l1, Inl e)
      | (l1, Inr u) \<Rightarrow> (case append_entries l1 es of (l2, Inl e) \<Rightarrow> (l2, Inl e)
           | (l2, Inr u) \<Rightarrow> (l2, Inr (last_lid es)))))"
    using reset_chans [of l io] append_entries_chans [of "fst (reset l io)" es]
    by (cases "reset l io"; cases "snd (reset l io)")
      (auto simp: chan_step_def split: prod.splits sum.splits)
  have cut: "chan_step l (send_command (insert_to_memory (remove_range l a b) xs) (ReplaceRange d xs))" for a b d xs
    by (simp add: chan_step_def)
  have refl: "chan_step l l"
    by (simp add: chan_step_def)
  show ?thesis
    unfolding filter_out_conflicts_and_append_def Let_def
    using rst app cut refl by (auto split: sum.splits option.splits)
qed

lemma purge_logs_chans: "chan_step l (fst (purge_logs_up_to l c io))"
  by (simp add: purge_logs_up_to_def Let_def chan_step_def)

lemma flush_chans: "chan_step l (fst (flush l io))"
  by (simp add: flush_def Let_def chan_step_def)

lemma on_command_chans:
  assumes "on_command ls s = Inr (s', b)"
  shows "same_chans s [] s' []"
proof (cases "rl_commands (io_log s)")
  case Nil
  then show ?thesis
    using assms by (simp add: on_command_def same_chans_def)
next
  case (Cons cmd cmds)
  let ?s = "s\<lparr>io_log := (io_log s)\<lparr>rl_commands := cmds\<rparr>\<rparr>"
  have chans: "log_chans (io_log s) = log_chans (io_log ?s) + task_chan cmd"
    using Cons by (simp add: log_chans_def)
  consider (flush) c where "cmd = Flush c" | (shut) "cmd = Shutdown"
    | (other) "on_command ls s = handle_non_write_cmd ls cmd ?s"
    using Cons by (cases cmd) (auto simp: on_command_def Let_def)
  then show ?thesis
  proof cases
    case flush
    then show ?thesis
      using assms Cons chans run_batch_turn_chans [of ls "[c]" False ?s s' b]
      by (simp add: on_command_def Let_def same_chans_def)
  next
    case shut
    then show ?thesis
      using assms Cons chans run_batch_turn_chans [of ls "[]" True ?s s' b]
      by (simp add: on_command_def Let_def same_chans_def)
  next
    case other
    then show ?thesis
      using assms chans handle_non_write_chans [of ls cmd ?s s' b] by (simp add: same_chans_def)
  qed
qed

lemma on_safety_timer_chans: "same_chans s [] (on_safety_timer ls s) []"
proof -
  let ?p = "persist_pending_range ls (rl_durable (io_log s) + 1) (rl_max (io_log s)) s"
  have "same_chans s [] (fst ?p) []"
    using persist_pending_range_chans [of ls _ _ s "fst ?p" "snd ?p"] by (simp add: same_chans_def)
  then show ?thesis
    by (auto simp: on_safety_timer_def Let_def same_chans_def)
qed

lemma fsync_take_chans:
  "io_task s = FsIdle \<Longrightarrow> all_chans (fsync_take s) = all_chans s"
  "rl_next_chan (io_log (fsync_take s)) = rl_next_chan (io_log s)"
  by (auto simp: fsync_take_def Let_def all_chans_def log_chans_def send_replies_def comp_def
      multiset.map_comp)

lemma fsync_steps_chans:
  "all_chans (fsync_flush ls s) = all_chans s"
  "rl_next_chan (io_log (fsync_flush ls s)) = rl_next_chan (io_log s)"
  "all_chans (fsync_fence s) = all_chans s"
  "rl_next_chan (io_log (fsync_fence s)) = rl_next_chan (io_log s)"
  "all_chans (fsync_publish s) = all_chans s"
  "rl_next_chan (io_log (fsync_publish s)) = rl_next_chan (io_log s)"
  by (cases "io_task s"; auto simp: fsync_flush_def fsync_fence_def fsync_publish_def all_chans_def Let_def
      split: prod.splits sum.splits)+

lemma io_step_chans:
  assumes "io_step ls s s'" and "chans_ok s"
  shows "chans_ok s'"
proof -
  have loop: "chans_ok (s\<lparr>io_log := l\<rparr>)" if "chan_step (io_log s) l" for l
    using that assms(2) by (auto simp: chan_step_def chans_ok_def all_chans_def simp del: mset_upt)
  have same: "chans_ok s'" if "same_chans s [] s' []"
    using that assms(2) by (simp add: same_chans_def chans_ok_def all_chans_def)
  have notified: "same_chans s [] s' []" if "on_notified ls s = Inr (s', b)" for b
    using run_batch_turn_chans [OF that [unfolded on_notified_def]] by (simp add: same_chans_def)
  have reset: "chan_step (io_log s) (fst (reset (io_log s) io))" for io
    by (simp add: chan_step_def reset_chans)
  have append: "chan_step (io_log s) (fst (append_entries (io_log s) es))" for es
    by (simp add: chan_step_def append_entries_chans)
  have fsync: "chans_ok x" if "all_chans x = all_chans s" and "rl_next_chan (io_log x) = rl_next_chan (io_log s)" for x
    using that assms(2) by (simp add: chans_ok_def)
  show ?thesis
    using assms(1)
  proof cases
    case step_notified then show ?thesis by (rule same [OF notified])
  next
    case step_command then show ?thesis by (rule same [OF on_command_chans])
  next
    case step_timer then show ?thesis using on_safety_timer_chans by (intro same) simp
  next
    case step_take then show ?thesis by (intro fsync) (simp_all add: fsync_take_chans)
  qed (use loop reset append filter_out_chans purge_logs_chans flush_chans in
    \<open>auto simp: fsync_steps_chans intro!: fsync\<close>)
qed

section \<open>Properties\<close>

definition io_init :: "raft_log \<Rightarrow> 's \<Rightarrow> 's io_state" where
  "io_init l st = \<lparr>io_log = l, io_store = st, io_pending_max = 0, io_task = FsIdle\<rparr>"

lemma new_raft_log_chans: "log_chans (new_raft_log n es b) = {#}" "rl_next_chan (new_raft_log n es b) = 0"
  by (simp_all add: new_raft_log_def Let_def log_chans_def fc_new_def case_prod_beta)

lemma distinct_submset:
  assumes "mset xs \<subseteq># mset ys" and "distinct ys"
  shows "distinct xs"
  unfolding distinct_count_atmost_1
proof
  fix a
  have "count (mset xs) a \<le> count (mset ys) a"
    using assms(1) by (rule mset_subset_eq_count)
  moreover have "count (mset ys) a \<le> 1"
    using assms(2) by (simp add: distinct_count_atmost_1)
  ultimately have "count (mset xs) a \<le> 1"
    by simp
  then show "count (mset xs) a = (if a \<in> set xs then 1 else 0)"
    by (auto simp: count_eq_zero_iff le_Suc_eq simp flip: set_mset_mset)
qed

lemma io_chans_lemma:
  assumes "(io_step ls)\<^sup>*\<^sup>* (io_init (new_raft_log n es b) st) s"
  shows "all_chans s = mset [0 ..< rl_next_chan (io_log s)] \<and> distinct (map fst (rl_replies (io_log s)))"
proof -
  have "chans_ok s"
    using assms
  proof induction
    case base
    then show ?case
      by (simp add: chans_ok_def all_chans_def io_init_def new_raft_log_chans)
  qed (rule io_step_chans)
  then have eq: "all_chans s = mset [0 ..< rl_next_chan (io_log s)]"
    by (simp add: chans_ok_def)
  then have "mset (map fst (rl_replies (io_log s))) \<subseteq># mset [0 ..< rl_next_chan (io_log s)]"
    unfolding eq [symmetric] all_chans_def log_chans_def by (simp del: mset_map add: subset_mset.add_increasing)
  then have "distinct (map fst (rl_replies (io_log s)))"
    by (rule distinct_submset) simp
  then show ?thesis
    using eq by simp
qed

lemma write_durable_lemma:
  assumes inv: "log_inv l" and ok: "\<not> rl_poisoned l" and idle: "rl_commands l = []" "rl_fsync l = fc_new"
    and behind: "rl_durable l < rl_max l" "rl_min l \<le> Suc (rl_durable l)"
    and persist: "ls_persist ls (get_entries_range l (Suc (rl_durable l)) (rl_max l)) st = (st1, Inr ())"
    and flush: "\<not> ls_is_write_durable ls" "ls_flush ls st1 = (st2, Inr ())"
  shows "\<exists>s1 s2. on_notified ls (io_init l st) = Inr (s1, False)
           \<and> run_until_caught_up ls 3 s1 = Some s2
           \<and> rl_durable (io_log s2) = rl_max l \<and> rl_entries (io_log s2) = rl_entries l
           \<and> io_store s2 = st2 \<and> \<not> rl_poisoned (io_log s2)"
proof -
  have ne: "get_entries_range l (Suc (rl_durable l)) (rl_max l) \<noteq> []"
    using brl.range_length [OF inv, of "Suc (rl_durable l)" "rl_max l"] behind
    by (auto simp: first_entry_id_def last_entry_id_def)
  let ?l1 = "(l\<lparr>rl_notified := False\<rparr>)\<lparr>rl_fsync := fc_new\<lparr>fc_pending_max := rl_max l, fc_inflight := True\<rparr>\<rparr>"
  let ?s1 = "\<lparr>io_log = ?l1, io_store = st1, io_pending_max = 0, io_task = FsIdle\<rparr>"
  have "on_notified ls (io_init l st) = Inr (?s1, False)"
    using ok idle behind persist ne
    by (simp add: on_notified_def io_init_def run_batch_turn_def persist_pending_range_def Let_def
        submit_def fc_new_def get_entries_range_def)
  moreover have "\<exists>s2. run_until_caught_up ls 3 ?s1 = Some s2 \<and> rl_durable (io_log s2) = rl_max l
      \<and> rl_entries (io_log s2) = rl_entries l \<and> io_store s2 = st2 \<and> \<not> rl_poisoned (io_log s2)"
    using ok behind flush
    by (simp add: numeral_3_eq_3 fsync_round_def fsync_take_def fsync_flush_def fsync_fence_def fsync_publish_def
        fc_new_def Let_def send_replies_def advance_durable_and_notify_def)
  ultimately show ?thesis
    by blast
qed

end
