(* ===== verification/Byte_Codec.thy ===== *)
theory Byte_Codec
  imports DPrelude
begin

text \<open>
  Byte strings and the fixed-width big-endian integers that every file format of the engine
  is built from: \<^verbatim>\<open>u64::to_be_bytes\<close>, \<^verbatim>\<open>u64::from_be_bytes\<close>, and reading a field off the front
  of a buffer.
\<close>

type_synonym bytes = "nat list"

definition u64_to_be_bytes :: "nat \<Rightarrow> bytes" where
  "u64_to_be_bytes n = map (\<lambda>i. n div 256 ^ (7 - i) mod 256) [0 ..< 8]"

definition u64_from_be_bytes :: "bytes \<Rightarrow> nat" where
  "u64_from_be_bytes bs = foldl (\<lambda>a b. a * 256 + b) 0 bs"

lemma be_bytes_length [simp]: "length (u64_to_be_bytes n) = 8"
  by (simp add: u64_to_be_bytes_def)

lemma be_bytes_round_trip:
  assumes "n < 2 ^ 64"
  shows "u64_from_be_bytes (u64_to_be_bytes n) = n"
proof -
  have step: "n div (256 * m) * 256 + n div m mod 256 = n div m" for m
    by (metis div_mult2_eq div_mult_mod_eq mult.commute)
  have bytes: "u64_to_be_bytes n = [n div 72057594037927936 mod 256, n div 281474976710656 mod 256,
      n div 1099511627776 mod 256, n div 4294967296 mod 256, n div 16777216 mod 256,
      n div 65536 mod 256, n div 256 mod 256, n mod 256]"
    by (simp add: u64_to_be_bytes_def upt_rec [of _ 8])
  have top: "n div 72057594037927936 mod 256 = n div 72057594037927936"
    using assms by simp
  show ?thesis
    using step [of 281474976710656] step [of 1099511627776] step [of 4294967296] step [of 16777216]
      step [of 65536] step [of 256] step [of 1]
    by (simp add: u64_from_be_bytes_def bytes top)
qed

text \<open>A field written in front of further bytes is read back, and what follows remains.\<close>

lemma be_bytes_take_drop [simp]:
  "take 8 (u64_to_be_bytes n @ bs) = u64_to_be_bytes n"
  "drop 8 (u64_to_be_bytes n @ bs) = bs"
  by simp_all

lemma be_bytes_front:
  "n < 2 ^ 64 \<Longrightarrow> u64_from_be_bytes (take 8 (u64_to_be_bytes n @ bs)) = n"
  by (simp add: be_bytes_round_trip)

end
