(* ===== verification/File_Store.thy ===== *)
theory File_Store
  imports Log_Io Byte_Codec
begin

text \<open>
  The file-backed log store (\<^verbatim>\<open>FileLogStore\<close> of
  \<^verbatim>\<open>d-engine-server/src/storage/adaptors/file/file_storage_engine.rs\<close>): an in-memory map, the
  bytes of the file, the map from an index to the file offset after its entry, and the cached
  last index.  A frame is an eight-byte big-endian length followed by the encoded entry.  The
  protobuf encoder and decoder of entries are parameters, \<^verbatim>\<open>enc\<close> and \<^verbatim>\<open>dec\<close>; calls of the
  file system succeed.
\<close>

record file_store =
  fs_entries :: "entry omap"
  fs_file :: bytes
  fs_index_end_pos :: "nat omap"
  fs_last_index :: u64

text \<open>\<^verbatim>\<open>File::set_len\<close>: cut, or extend with zero bytes.\<close>

definition set_len :: "nat \<Rightarrow> bytes \<Rightarrow> bytes" where
  "set_len n file = take n file @ replicate (n - length file) 0"

definition write_encoded :: "bytes \<Rightarrow> file_store \<Rightarrow> file_store \<times> nat" where
  "write_encoded encoded s =
     (let file' = fs_file s @ u64_to_be_bytes (length encoded) @ encoded
      in (s\<lparr>fs_file := file'\<rparr>, length file'))"

definition end_pos_before :: "nat \<Rightarrow> file_store \<Rightarrow> nat" where
  "end_pos_before from_index s =
     (let below = filter (\<lambda>b. fst b < from_index) (fs_index_end_pos s)
      in if below = [] then 0 else snd (last below))"

definition remove_from_index :: "nat \<Rightarrow> file_store \<Rightarrow> file_store" where
  "remove_from_index from_index s =
     (let keys = map fst (filter (\<lambda>b. from_index \<le> fst b) (fs_entries s))
      in s\<lparr>fs_entries := filter (\<lambda>b. fst b \<notin> set keys) (fs_entries s),
           fs_index_end_pos := filter (\<lambda>b. fst b \<notin> set keys) (fs_index_end_pos s)\<rparr>)"

definition write_entry :: "(entry \<Rightarrow> bytes) \<Rightarrow> entry \<Rightarrow> file_store \<Rightarrow> file_store" where
  "write_entry enc e s =
     (case write_encoded (enc e) s of
        (s1, end_pos) \<Rightarrow>
          s1\<lparr>fs_entries := om_put (e_index e) e (fs_entries s1),
             fs_index_end_pos := om_put (e_index e) end_pos (fs_index_end_pos s1)\<rparr>)"

fun write_entries :: "(entry \<Rightarrow> bytes) \<Rightarrow> entry list \<Rightarrow> file_store \<Rightarrow> file_store" where
  "write_entries enc [] s = s"
| "write_entries enc (e # es) s = write_entries enc es (write_entry enc e s)"

definition file_persist_entries :: "(entry \<Rightarrow> bytes) \<Rightarrow> entry list \<Rightarrow> file_store \<Rightarrow> file_store" where
  "file_persist_entries enc es s =
     (if es = [] then s
      else (write_entries enc es s)\<lparr>fs_last_index := max_entry_index es\<rparr>)"

fun rewrite_entries :: "(entry \<Rightarrow> bytes) \<Rightarrow> entry list \<Rightarrow> file_store \<Rightarrow> file_store" where
  "rewrite_entries enc [] s = s"
| "rewrite_entries enc (e # es) s =
     (case write_encoded (enc e) s of
        (s1, end_pos) \<Rightarrow>
          rewrite_entries enc es
            (s1\<lparr>fs_index_end_pos := om_put (e_index e) end_pos (fs_index_end_pos s1)\<rparr>))"

definition file_purge :: "(entry \<Rightarrow> bytes) \<Rightarrow> log_id \<Rightarrow> file_store \<Rightarrow> file_store" where
  "file_purge enc cutoff s =
     (let keep = map snd (filter (\<lambda>b. lid_index cutoff + 1 \<le> fst b) (fs_entries s));
          s1 = s\<lparr>fs_file := set_len 0 (fs_file s), fs_index_end_pos := []\<rparr>;
          s2 = rewrite_entries enc keep s1
      in s2\<lparr>fs_entries := filter (\<lambda>b. fst b > lid_index cutoff) (fs_entries s2)\<rparr>)"

definition file_truncate :: "nat \<Rightarrow> file_store \<Rightarrow> file_store" where
  "file_truncate from_index s =
     (let s1 = s\<lparr>fs_file := set_len (end_pos_before from_index s) (fs_file s)\<rparr>;
          s2 = remove_from_index from_index s1
      in s2\<lparr>fs_last_index := (case om_back (fs_entries s2) of None \<Rightarrow> 0 | Some k \<Rightarrow> k)\<rparr>)"

definition file_replace_range ::
    "(entry \<Rightarrow> bytes) \<Rightarrow> nat \<Rightarrow> entry list \<Rightarrow> file_store \<Rightarrow> file_store" where
  "file_replace_range enc from_index new_entries s =
     (let s1 = s\<lparr>fs_file := set_len (end_pos_before from_index s) (fs_file s)\<rparr>;
          s2 = remove_from_index from_index s1;
          s3 = write_entries enc new_entries s2
      in s3\<lparr>fs_last_index := (case om_back (fs_entries s3) of None \<Rightarrow> 0 | Some k \<Rightarrow> k)\<rparr>)"

definition file_reset :: "file_store \<Rightarrow> file_store" where
  "file_reset s = s\<lparr>fs_file := set_len 0 (fs_file s), fs_entries := [], fs_index_end_pos := [],
                    fs_last_index := 0\<rparr>"

definition file_get_entries :: "nat \<Rightarrow> nat \<Rightarrow> file_store \<Rightarrow> entry list" where
  "file_get_entries a b s = om_range a b (fs_entries s)"

section \<open>Loading at start-up\<close>

text \<open>The loop over the frames; it stops at the first incomplete frame, and skips a frame
  that does not decode.\<close>

function load_loop ::
    "(bytes \<Rightarrow> entry option) \<Rightarrow> bytes \<Rightarrow> nat \<Rightarrow> file_store \<Rightarrow> nat \<Rightarrow> file_store \<times> nat" where
  "load_loop dec buffer pos s max_index =
     (if \<not> pos < length buffer then (s, max_index)
      else if pos + 8 > length buffer then (s, max_index)
      else let entry_len = u64_from_be_bytes (take 8 (drop pos buffer));
               data_start = pos + 8;
               end_pos = data_start + entry_len
           in if end_pos > length buffer then (s, max_index)
              else case dec (take entry_len (drop data_start buffer)) of
                     Some e \<Rightarrow>
                       load_loop dec buffer end_pos
                         (s\<lparr>fs_entries := om_put (e_index e) e (fs_entries s),
                            fs_index_end_pos := om_put (e_index e) end_pos (fs_index_end_pos s)\<rparr>)
                         (max max_index (e_index e))
                   | None \<Rightarrow> load_loop dec buffer end_pos s max_index)"
  by pat_completeness auto
termination
  by (relation "measure (\<lambda>(dec, buffer, pos, s, m). length buffer - pos)") auto

definition file_open :: "(bytes \<Rightarrow> entry option) \<Rightarrow> bytes \<Rightarrow> file_store" where
  "file_open dec file =
     (case load_loop dec file 0
             \<lparr>fs_entries = [], fs_file = file, fs_index_end_pos = [], fs_last_index = 0\<rparr> 0 of
        (s, last_index) \<Rightarrow> s\<lparr>fs_last_index := last_index\<rparr>)"

text \<open>The store as the IO thread uses it.\<close>

definition file_log_store :: "(entry \<Rightarrow> bytes) \<Rightarrow> file_store log_store" where
  "file_log_store enc =
     \<lparr>ls_persist = (\<lambda>es s. (file_persist_entries enc es s, Inr ())),
      ls_replace_range = (\<lambda>f es s. (file_replace_range enc f es s, Inr ())),
      ls_purge = (\<lambda>c s. (file_purge enc c s, Inr ())),
      ls_reset = (\<lambda>s. (file_reset s, Inr ())),
      ls_flush = (\<lambda>s. (s, Inr ())),
      ls_is_write_durable = False\<rparr>"

declare load_loop.simps [simp del]

section \<open>Frames\<close>

definition frame :: "(entry \<Rightarrow> bytes) \<Rightarrow> entry \<Rightarrow> bytes" where
  "frame enc e = u64_to_be_bytes (length (enc e)) @ enc e"

definition frames :: "(entry \<Rightarrow> bytes) \<Rightarrow> entry omap \<Rightarrow> bytes" where
  "frames enc m = concat (map (frame enc \<circ> snd) m)"

fun end_positions :: "(entry \<Rightarrow> bytes) \<Rightarrow> nat \<Rightarrow> entry omap \<Rightarrow> nat omap" where
  "end_positions enc pos [] = []"
| "end_positions enc pos (b # m) =
     (let p = pos + length (frame enc (snd b)) in (fst b, p) # end_positions enc p m)"

text \<open>The invariant: the file is the entries' frames in index order, and the offsets are
  where the frames end.\<close>

definition file_inv :: "(entry \<Rightarrow> bytes) \<Rightarrow> file_store \<Rightarrow> bool" where
  "file_inv enc s = (om_wf (fs_entries s) \<and> (\<forall>b \<in> set (fs_entries s). e_index (snd b) = fst b)
     \<and> fs_file s = frames enc (fs_entries s)
     \<and> fs_index_end_pos s = end_positions enc 0 (fs_entries s))"

lemma frames_simps [simp]:
  "frames enc [] = []"
  "frames enc (b # m) = frame enc (snd b) @ frames enc m"
  "frames enc (m @ m') = frames enc m @ frames enc m'"
  by (simp_all add: frames_def)

lemma end_positions_append:
  "end_positions enc pos (m @ m') = end_positions enc pos m @ end_positions enc (pos + length (frames enc m)) m'"
  by (induction m arbitrary: pos) (simp_all add: Let_def add.assoc)

lemma end_positions_fst [simp]: "map fst (end_positions enc pos m) = map fst m"
  by (induction m arbitrary: pos) (simp_all add: Let_def)

lemma end_positions_eq_Nil [simp]: "end_positions enc pos m = [] \<longleftrightarrow> m = []"
  by (cases m) (simp_all add: Let_def)

lemma end_positions_last:
  "m \<noteq> [] \<Longrightarrow> snd (last (end_positions enc pos m)) = pos + length (frames enc m)"
  by (induction m arbitrary: pos) (auto simp: Let_def)

lemma end_positions_set_fst: "fst ` set (end_positions enc pos m) = fst ` set m"
  by (metis end_positions_fst list.set_map)

lemma write_entry_inv:
  assumes "file_inv enc s" and "\<forall>b \<in> set (fs_entries s). fst b < e_index e"
  shows "file_inv enc (write_entry enc e s)"
    and "fs_entries (write_entry enc e s) = fs_entries s @ [(e_index e, e)]"
proof -
  have "\<forall>i \<in> fst ` set (fs_index_end_pos s). i < e_index e"
    using assms by (simp add: file_inv_def end_positions_set_fst)
  then have pos: "\<forall>b \<in> set (fs_index_end_pos s). fst b < e_index e"
    by simp
  show ent: "fs_entries (write_entry enc e s) = fs_entries s @ [(e_index e, e)]"
    using assms(2) by (simp add: write_entry_def write_encoded_def Let_def om_put_back)
  have "fs_index_end_pos (write_entry enc e s) = end_positions enc 0 (fs_entries s @ [(e_index e, e)])"
    and "fs_file (write_entry enc e s) = frames enc (fs_entries s @ [(e_index e, e)])"
    using pos assms(1)
    by (simp_all add: file_inv_def write_entry_def write_encoded_def Let_def om_put_back
        end_positions_append frame_def add.assoc)
  then show "file_inv enc (write_entry enc e s)"
    using assms by (simp add: file_inv_def ent om_wf_append)
qed

lemma write_entries_inv:
  "file_inv enc s \<Longrightarrow> sorted_wrt (<) (map e_index es) \<Longrightarrow> \<forall>b \<in> set (fs_entries s). \<forall>e \<in> set es. fst b < e_index e
   \<Longrightarrow> file_inv enc (write_entries enc es s) \<and> fs_entries (write_entries enc es s) = fs_entries s @ tag es"
proof (induction es arbitrary: s)
  case (Cons e es)
  then show ?case
    using write_entry_inv [of enc s e] by auto
qed simp

lemma file_inv_last [simp]: "file_inv enc (s\<lparr>fs_last_index := i\<rparr>) = file_inv enc s"
  by (simp add: file_inv_def)

text \<open>Splitting the entries at an index splits the file at the recorded offset.\<close>

lemma wf_split:
  assumes "om_wf m"
  shows "m = filter (\<lambda>b. fst b < k) m @ filter (\<lambda>b. k \<le> fst b) m"
  using assms
proof (induction m)
  case (Cons b m)
  show ?case
  proof (cases "fst b < k")
    case False
    then have "\<forall>c \<in> set m. k \<le> fst c"
      using Cons.prems by auto
    then have "filter (\<lambda>c. fst c < k) m = []" and "filter (\<lambda>c. k \<le> fst c) m = m"
      by (auto simp: filter_empty_conv filter_id_conv not_less)
    then show ?thesis
      using False by simp
  qed (use Cons in simp)
qed simp

lemma end_positions_filter:
  assumes "om_wf m"
  shows "filter (\<lambda>b. fst b < k) (end_positions enc pos m) = end_positions enc pos (filter (\<lambda>b. fst b < k) m)"
  using assms
proof (induction m arbitrary: pos)
  case (Cons b m)
  show ?case
  proof (cases "fst b < k")
    case False
    then have "\<forall>c \<in> set m. \<not> fst c < k"
      using Cons.prems by auto
    then have "\<forall>i \<in> fst ` set m. \<not> i < k"
      by simp
    then have "\<forall>c \<in> set (end_positions enc p m). \<not> fst c < k" for p
      unfolding end_positions_set_fst [of enc p m, symmetric] by simp
    then have "filter (\<lambda>c. fst c < k) (end_positions enc p m) = []" "filter (\<lambda>c. fst c < k) m = []" for p
      using \<open>\<forall>c \<in> set m. \<not> fst c < k\<close> by (simp_all add: filter_empty_conv)
    then show ?thesis
      using False by (simp add: Let_def)
  qed (use Cons in \<open>simp add: Let_def\<close>)
qed simp

lemma end_pos_before_exact:
  assumes "file_inv enc s"
  shows "end_pos_before k s = length (frames enc (filter (\<lambda>b. fst b < k) (fs_entries s)))"
  using assms end_positions_last [of "filter (\<lambda>b. fst b < k) (fs_entries s)" enc 0]
  by (auto simp: end_pos_before_def file_inv_def end_positions_filter Let_def)

lemma filter_gone:
  fixes k :: nat
  assumes "fst ` set xs \<subseteq> fst ` set m"
  shows "filter (\<lambda>b. fst b \<notin> set (map fst (filter (\<lambda>b. k \<le> fst b) m))) xs = filter (\<lambda>b. fst b < k) xs"
proof (rule filter_cong [OF refl])
  fix x
  assume "x \<in> set xs"
  then have "fst x \<in> fst ` set m"
    using assms by blast
  then show "(fst x \<notin> set (map fst (filter (\<lambda>b. k \<le> fst b) m))) = (fst x < k)"
    by (auto simp: not_le image_iff)
qed

lemma truncate_state_inv:
  fixes k :: nat
  assumes inv: "file_inv enc s"
  defines "s' \<equiv> remove_from_index k (s\<lparr>fs_file := set_len (end_pos_before k s) (fs_file s)\<rparr>)"
  shows "file_inv enc s'" and "fs_entries s' = filter (\<lambda>b. fst b < k) (fs_entries s)"
proof -
  let ?m = "fs_entries s" and ?lo = "filter (\<lambda>b. fst b < k) (fs_entries s)"
  have wf: "om_wf ?m" and pos: "fs_index_end_pos s = end_positions enc 0 ?m"
    using inv by (simp_all add: file_inv_def)
  show ent: "fs_entries s' = ?lo"
    using filter_gone [of ?m ?m k] by (simp add: s'_def remove_from_index_def Let_def)
  have "frames enc ?m = frames enc ?lo @ frames enc (filter (\<lambda>b. k \<le> fst b) ?m)"
    by (subst wf_split [OF wf, of k]) simp
  then have "fs_file s' = frames enc ?lo"
    using inv by (simp add: s'_def remove_from_index_def Let_def set_len_def file_inv_def end_pos_before_exact [OF inv])
  moreover have "fs_index_end_pos s' = end_positions enc 0 ?lo"
    using filter_gone [of "end_positions enc 0 ?m" ?m k] end_positions_set_fst [of enc 0 ?m]
    by (simp add: s'_def remove_from_index_def Let_def pos end_positions_filter [OF wf])
  ultimately show "file_inv enc s'"
    using inv om_wf_filter [OF wf] by (simp add: file_inv_def ent)
qed

lemma rewrite_entries_inv:
  "fs_file s = frames enc m \<Longrightarrow> fs_index_end_pos s = end_positions enc 0 m \<Longrightarrow> om_wf (m @ tag es)
   \<Longrightarrow> fs_file (rewrite_entries enc es s) = frames enc (m @ tag es)
     \<and> fs_index_end_pos (rewrite_entries enc es s) = end_positions enc 0 (m @ tag es)
     \<and> fs_entries (rewrite_entries enc es s) = fs_entries s"
proof (induction es arbitrary: s m)
  case (Cons e es)
  let ?p = "length (fs_file s @ frame enc e)"
  let ?s = "s\<lparr>fs_file := fs_file s @ frame enc e,
               fs_index_end_pos := om_put (e_index e) ?p (fs_index_end_pos s)\<rparr>"
  have "\<forall>i \<in> fst ` set (end_positions enc 0 m). i < e_index e"
    unfolding end_positions_set_fst using Cons.prems(3) by (simp add: om_wf_append)
  then have "fs_index_end_pos ?s = end_positions enc 0 (m @ [(e_index e, e)])"
    using Cons.prems(1,2) by (simp add: om_put_back end_positions_append)
  then show ?case
    using Cons.IH [of ?s "m @ [(e_index e, e)]"] Cons.prems
    by (simp add: write_encoded_def Let_def frame_def)
qed simp

lemma file_purge_inv:
  assumes inv: "file_inv enc s"
  shows "file_inv enc (file_purge enc c s)"
    and "fs_entries (file_purge enc c s) = filter (\<lambda>b. lid_index c < fst b) (fs_entries s)"
proof -
  let ?hi = "filter (\<lambda>b. lid_index c < fst b) (fs_entries s)"
  have "tag (map snd m) = m" if "\<forall>b \<in> set m. e_index (snd b) = fst b" for m :: "entry omap"
    using that by (induction m) auto
  then have tag: "tag (map snd ?hi) = ?hi" and wf: "om_wf ?hi"
    using inv om_wf_filter by (auto simp: file_inv_def)
  note rw = rewrite_entries_inv [of "s\<lparr>fs_file := set_len 0 (fs_file s), fs_index_end_pos := []\<rparr>" enc "[]" "map snd ?hi"]
  show ent: "fs_entries (file_purge enc c s) = ?hi"
    using rw wf by (simp add: file_purge_def Let_def Suc_le_eq tag set_len_def)
  show "file_inv enc (file_purge enc c s)"
    using rw wf inv ent by (simp add: file_inv_def file_purge_def Let_def Suc_le_eq tag set_len_def)
qed

section \<open>Recovery\<close>

text \<open>What the loader relies on of the protobuf codec, for the entries stored: decoding inverts
  encoding, and an encoded entry is shorter than \<open>2 ^ 64\<close> bytes.\<close>

definition codec_ok :: "(entry \<Rightarrow> bytes) \<Rightarrow> (bytes \<Rightarrow> entry option) \<Rightarrow> entry omap \<Rightarrow> bool" where
  "codec_ok enc dec m = (\<forall>b \<in> set m. dec (enc (snd b)) = Some (snd b) \<and> length (enc (snd b)) < 2 ^ 64)"

lemma load_one:
  assumes "dec (enc e) = Some e" and "length (enc e) < 2 ^ 64"
  shows "load_loop dec (pre @ frame enc e @ post) (length pre) s mx =
    load_loop dec (pre @ frame enc e @ post) (length pre + length (frame enc e))
      (s\<lparr>fs_entries := om_put (e_index e) e (fs_entries s),
         fs_index_end_pos := om_put (e_index e) (length pre + length (frame enc e)) (fs_index_end_pos s)\<rparr>)
      (max mx (e_index e))"
proof -
  have "u64_from_be_bytes (u64_to_be_bytes (length (enc e))) = length (enc e)"
    using assms(2) by (rule be_bytes_round_trip)
  then show ?thesis
    using assms(1) by (subst load_loop.simps) (simp add: frame_def Let_def add.assoc)
qed

lemma load_frames:
  "codec_ok enc dec m \<Longrightarrow> om_wf (fs_entries s @ m) \<Longrightarrow> \<forall>b \<in> set m. e_index (snd b) = fst b
    \<Longrightarrow> map fst (fs_index_end_pos s) = map fst (fs_entries s)
    \<Longrightarrow> load_loop dec (pre @ frames enc m @ junk) (length pre) s mx =
      load_loop dec (pre @ frames enc m @ junk) (length pre + length (frames enc m))
        (s\<lparr>fs_entries := fs_entries s @ m,
           fs_index_end_pos := fs_index_end_pos s @ end_positions enc (length pre) m\<rparr>)
        (foldl (\<lambda>a b. max a (fst b)) mx m)"
proof (induction m arbitrary: pre s mx)
  case (Cons b m)
  obtain e where b: "b = (e_index e, e)"
    using Cons.prems(3) by (cases b) auto
  have codec: "dec (enc e) = Some e" "length (enc e) < 2 ^ 64" "codec_ok enc dec m"
    using Cons.prems(1) b by (simp_all add: codec_ok_def)
  let ?p = "length pre + length (frame enc e)"
  let ?s = "s\<lparr>fs_entries := fs_entries s @ [b], fs_index_end_pos := fs_index_end_pos s @ [(e_index e, ?p)]\<rparr>"
  have below: "\<forall>c \<in> set (fs_entries s). fst c < e_index e"
    using Cons.prems(2) b by (auto simp: om_wf_append)
  have "fst ` set (fs_index_end_pos s) = fst ` set (fs_entries s)"
    using Cons.prems(4) by (metis list.set_map)
  then have "\<forall>i \<in> fst ` set (fs_index_end_pos s). i < e_index e"
    using below by simp
  then have put: "om_put (e_index e) e (fs_entries s) = fs_entries s @ [b]"
    "om_put (e_index e) ?p (fs_index_end_pos s) = fs_index_end_pos s @ [(e_index e, ?p)]"
    using below b by (simp_all add: om_put_back)
  show ?case
    using load_one [of dec enc e pre "frames enc m @ junk" s mx] codec(1,2)
      Cons.IH [OF codec(3), of ?s "pre @ frame enc e" "max mx (e_index e)"] Cons.prems b
    by (simp add: put Let_def add.assoc)
qed simp

lemma load_stop:
  assumes "length junk < 8 \<or> length junk < 8 + u64_from_be_bytes (take 8 junk)"
  shows "load_loop dec (pre @ junk) (length pre) s mx = (s, mx)"
  using assms by (subst load_loop.simps) (cases "length junk < 8"; simp add: Let_def)

lemma foldl_max_sorted:
  "om_wf m \<Longrightarrow> \<forall>b \<in> set m. a \<le> fst b \<Longrightarrow>
   foldl (\<lambda>a b. max a (fst b)) a m = (case om_back m of None \<Rightarrow> a | Some k \<Rightarrow> k)"
proof (induction m arbitrary: a)
  case (Cons b m)
  have "max a (fst b) = fst b" and "\<forall>c \<in> set m. fst b \<le> fst c" and "om_wf m"
    using Cons.prems by (auto simp: max_absorb2 less_imp_le)
  then show ?case
    using Cons.IH [of "fst b"] by (cases "m = []") (simp_all add: om_back_def)
qed (simp add: om_back_def)

lemma file_open_frames:
  assumes codec: "codec_ok enc dec m" and wf: "om_wf m" and idx: "\<forall>b \<in> set m. e_index (snd b) = fst b"
    and junk: "length junk < 8 \<or> length junk < 8 + u64_from_be_bytes (take 8 junk)"
  shows "file_open dec (frames enc m @ junk) =
    \<lparr>fs_entries = m, fs_file = frames enc m @ junk, fs_index_end_pos = end_positions enc 0 m,
     fs_last_index = (case om_back m of None \<Rightarrow> 0 | Some k \<Rightarrow> k)\<rparr>"
proof -
  let ?s0 = "\<lparr>fs_entries = [], fs_file = frames enc m @ junk, fs_index_end_pos = [], fs_last_index = 0\<rparr>"
  let ?s1 = "\<lparr>fs_entries = m, fs_file = frames enc m @ junk, fs_index_end_pos = end_positions enc 0 m,
    fs_last_index = 0\<rparr>"
  let ?mx = "foldl (\<lambda>a b. max a (fst b)) 0 m"
  have "load_loop dec (frames enc m @ junk) 0 ?s0 0
      = load_loop dec (frames enc m @ junk) (length (frames enc m)) ?s1 ?mx"
    using load_frames [OF codec, of ?s0 "[]" junk 0] wf idx by simp
  also have "\<dots> = (?s1, ?mx)"
    by (rule load_stop [OF junk])
  finally show ?thesis
    using foldl_max_sorted [OF wf, of 0] by (simp add: file_open_def)
qed

text \<open>A torn frame is never taken for an entry.\<close>

lemma take_frames:
  assumes "n \<le> length (frames enc m)"
  obtains k junk where "k \<le> length m" and "take n (frames enc m) = frames enc (take k m) @ junk"
    and "junk = [] \<or> k < length m \<and> (\<exists>suf. suf \<noteq> [] \<and> frame enc (snd (m ! k)) = junk @ suf)"
  using assms
proof (induction m arbitrary: n thesis)
  case (Cons b m)
  let ?f = "frame enc (snd b)"
  show ?case
  proof (cases "n < length ?f")
    case True
    then have "drop n ?f \<noteq> [] \<and> ?f = take n ?f @ drop n ?f"
      by simp
    then have "\<exists>suf. suf \<noteq> [] \<and> ?f = take n ?f @ suf"
      by (rule exI)
    then show ?thesis
      using Cons.prems(1) [of 0 "take n ?f"] True by simp
  next
    case False
    then have "n - length ?f \<le> length (frames enc m)"
      using Cons.prems(2) by simp
    then obtain k junk where "k \<le> length m"
      and "take (n - length ?f) (frames enc m) = frames enc (take k m) @ junk"
      and "junk = [] \<or> k < length m \<and> (\<exists>suf. suf \<noteq> [] \<and> frame enc (snd (m ! k)) = junk @ suf)"
      using Cons.IH by blast
    then show ?thesis
      using Cons.prems(1) [of "Suc k" junk] False by simp
  qed
qed simp

text \<open>The loader stops at a proper prefix of a frame.\<close>

lemma torn_junk:
  assumes codec: "length (enc e) < 2 ^ 64" and f: "frame enc e = junk @ suf" and suf: "suf \<noteq> []"
  shows "length junk < 8 \<or> length junk < 8 + u64_from_be_bytes (take 8 junk)"
proof (cases "length junk < 8")
  case False
  have "take 8 junk = take 8 (frame enc e)"
    unfolding f using False by simp
  then have "u64_from_be_bytes (take 8 junk) = length (enc e)"
    using be_bytes_round_trip [OF codec] by (simp add: frame_def)
  moreover have "length junk + length suf = 8 + length (enc e)"
    using arg_cong [OF f, of length] by (simp add: frame_def)
  ultimately show ?thesis
    using suf by (cases suf) simp_all
qed simp

lemma om_wf_take: "om_wf m \<Longrightarrow> om_wf (take k m)"
  using om_wf_append [of "take k m" "drop k m"] by simp

end
