(* ===== verification/Store_Laws.thy ===== *)
theory Store_Laws
  imports Io_Props File_Store
begin

text \<open>
  The contract between the IO thread and a log store (the \<^verbatim>\<open>LogStore\<close> trait of
  \<^verbatim>\<open>d-engine-core/src/storage/storage_engine.rs\<close>) as a locale, what the IO thread achieves with
  any store that keeps it, and its interpretation on the file store.
\<close>

text \<open>The store holds the durable part of the log.\<close>

definition mirrors :: "entry omap \<Rightarrow> raft_log \<Rightarrow> bool" where
  "mirrors d l = (d = filter (\<lambda>b. fst b \<le> rl_durable l) (rl_entries l))"

locale log_store_laws =
  fixes ls :: "'s log_store" and ok :: "'s \<Rightarrow> bool" and disk :: "'s \<Rightarrow> entry omap"
  assumes persist: "ok st \<Longrightarrow> sorted_wrt (<) (map e_index es)
      \<Longrightarrow> \<forall>b \<in> set (disk st). \<forall>e \<in> set es. fst b < e_index e
      \<Longrightarrow> \<exists>st'. ls_persist ls es st = (st', Inr ()) \<and> ok st' \<and> disk st' = disk st @ tag es"
    and replace: "ok st \<Longrightarrow> sorted_wrt (<) (map e_index es) \<Longrightarrow> \<forall>e \<in> set es. f \<le> e_index e
      \<Longrightarrow> \<exists>st'. ls_replace_range ls f es st = (st', Inr ()) \<and> ok st'
              \<and> disk st' = filter (\<lambda>b. fst b < f) (disk st) @ tag es"
    and purge: "ok st \<Longrightarrow> \<exists>st'. ls_purge ls c st = (st', Inr ()) \<and> ok st'
              \<and> disk st' = filter (\<lambda>b. lid_index c < fst b) (disk st)"
    and reset: "ok st \<Longrightarrow> \<exists>st'. ls_reset ls st = (st', Inr ()) \<and> ok st' \<and> disk st' = []"
    and flush: "ok st \<Longrightarrow> \<exists>st'. ls_flush ls st = (st', Inr ()) \<and> ok st' \<and> disk st' = disk st"
    and not_durable: "\<not> ls_is_write_durable ls"
begin

lemma notified_mirrors:
  assumes inv: "log_inv l" and idle: "\<not> rl_poisoned l" "rl_commands l = []" "rl_fsync l = fc_new"
    and behind: "rl_durable l < rl_max l" "rl_min l \<le> Suc (rl_durable l)"
    and st: "ok st" "mirrors (disk st) l"
  shows "\<exists>s1 s2. on_notified ls (io_init l st) = Inr (s1, False) \<and> run_until_caught_up ls 3 s1 = Some s2
           \<and> rl_durable (io_log s2) = rl_max l \<and> ok (io_store s2) \<and> disk (io_store s2) = rl_entries l"
proof -
  let ?es = "get_entries_range l (Suc (rl_durable l)) (rl_max l)"
  have ne: "rl_entries l \<noteq> []"
    using inv behind by (auto simp: log_inv_def bounds_ok_def)
  have idx: "map e_index ?es = [Suc (rl_durable l) ..< Suc (rl_max l)]"
    using brl.range_full [OF inv, of "Suc (rl_durable l)" "rl_max l"] behind
    by (simp add: first_entry_id_def last_entry_id_def del: upt_Suc)
  have split: "rl_entries l = disk st @ tag ?es"
  proof -
    have "tag ?es = filter (\<lambda>b. Suc (rl_durable l) \<le> fst b) (rl_entries l)"
    proof -
      have "tag (map snd m) = m" if "\<forall>b \<in> set m. e_index (snd b) = fst b" for m :: "entry omap"
        using that by (induction m) auto
      moreover have "filter (\<lambda>x. Suc (rl_durable l) \<le> fst x \<and> fst x \<le> rl_max l) (rl_entries l)
          = filter (\<lambda>b. Suc (rl_durable l) \<le> fst b) (rl_entries l)"
        using log_inv_key_range(2) [OF inv] by (intro filter_cong) auto
      ultimately show ?thesis
        using inv by (simp add: get_entries_range_def om_range_def log_inv_def keys_ok_def)
    qed
    then show ?thesis
      using wf_split [OF log_inv_wf [OF inv], of "Suc (rl_durable l)"] st(2)
      by (simp add: mirrors_def less_Suc_eq_le)
  qed
  have "\<forall>b \<in> set (disk st). \<forall>e \<in> set ?es. fst b < e_index e"
    using log_inv_wf [OF inv] unfolding split by (auto simp: om_wf_append set_tag)
  then obtain st1 where st1: "ls_persist ls ?es st = (st1, Inr ())" "ok st1" "disk st1 = rl_entries l"
    using persist [OF st(1), of ?es] idx split by (auto simp del: upt_Suc)
  obtain st2 where st2: "ls_flush ls st1 = (st2, Inr ())" "ok st2" "disk st2 = disk st1"
    using flush [OF st1(2)] by blast
  show ?thesis
    using write_durable_lemma [OF inv idle behind st1(1) not_durable st2(1)] st1(3) st2(2,3) by fastforce
qed

end

interpretation fls: log_store_laws "file_log_store enc" "file_inv enc" fs_entries for enc
proof unfold_locales
  fix st es f c
  assume inv: "file_inv enc st"
  show "\<exists>st'. ls_persist (file_log_store enc) es st = (st', Inr ()) \<and> file_inv enc st' \<and> fs_entries st' = fs_entries st @ tag es"
    if "sorted_wrt (<) (map e_index es)" "\<forall>b \<in> set (fs_entries st). \<forall>e \<in> set es. fst b < e_index e"
    using write_entries_inv [OF inv that] inv by (simp add: file_log_store_def file_persist_entries_def)
  show "\<exists>st'. ls_replace_range (file_log_store enc) f es st = (st', Inr ()) \<and> file_inv enc st'
      \<and> fs_entries st' = filter (\<lambda>b. fst b < f) (fs_entries st) @ tag es"
    if "sorted_wrt (<) (map e_index es)" "\<forall>e \<in> set es. f \<le> e_index e"
  proof -
    note tr = truncate_state_inv [OF inv, of f]
    have "\<forall>b \<in> set (filter (\<lambda>b. fst b < f) (fs_entries st)). \<forall>e \<in> set es. fst b < e_index e"
      using that(2) by fastforce
    then show ?thesis
      using write_entries_inv [OF tr(1) that(1)] tr(2)
      by (simp add: file_log_store_def file_replace_range_def Let_def)
  qed
  show "\<exists>st'. ls_purge (file_log_store enc) c st = (st', Inr ()) \<and> file_inv enc st'
      \<and> fs_entries st' = filter (\<lambda>b. lid_index c < fst b) (fs_entries st)"
    using file_purge_inv [OF inv, of c] by (simp add: file_log_store_def)
  show "\<exists>st'. ls_reset (file_log_store enc) st = (st', Inr ()) \<and> file_inv enc st' \<and> fs_entries st' = []"
    by (simp add: file_log_store_def file_reset_def file_inv_def set_len_def)
  show "\<exists>st'. ls_flush (file_log_store enc) st = (st', Inr ()) \<and> file_inv enc st' \<and> fs_entries st' = fs_entries st"
    using inv by (simp add: file_log_store_def)
qed (simp add: file_log_store_def)

end
