(* ===== verification/Log_Properties.thy ===== *)
theory Log_Properties
  imports Store_Laws
begin

text \<open>
  The properties of the log and of its storage: the follower's append, the invariant, the
  term lookup, the commit rule, index allocation, the reply channels of the IO thread, and
  recovery of a fsynced log from the bytes of the file.
\<close>

text \<open>A small log and its store for the witnesses: three entries of term 1, all durable.\<close>

definition ex_entries :: "entry list" where
  "ex_entries = [mk_entry 1 1 Noop, mk_entry 2 1 (Command ''a''), mk_entry 3 1 (Command ''b'')]"

definition ex_log :: raft_log where
  "ex_log = new_raft_log 3 (Inr ex_entries) (Inr None)"

definition ex_enc :: "entry \<Rightarrow> bytes" where
  "ex_enc e = [e_index e]"

definition ex_store :: file_store where
  "ex_store = file_persist_entries ex_enc ex_entries
     \<lparr>fs_entries = [], fs_file = [], fs_index_end_pos = [], fs_last_index = 0\<rparr>"

definition ex_dec :: "bytes \<Rightarrow> entry option" where
  "ex_dec bs = (case bs of [i] \<Rightarrow> find (\<lambda>e. e_index e = i) (ex_entries @ [mk_entry 4 2 Noop]) | _ \<Rightarrow> None)"

section \<open>Opening a log\<close>

lemma new_raft_log_fields:
  assumes "0 < k"
  shows "rl_entries (new_raft_log k (Inr es) b) = put_entries es []"
    and "rl_segments (new_raft_log k (Inr es) b) = ts_on_append es ts_new"
    and "rl_min (new_raft_log k (Inr es) b) = (case om_front (put_entries es []) of None \<Rightarrow> 0 | Some i \<Rightarrow> i)"
    and "rl_max (new_raft_log k (Inr es) b) = (case om_back (put_entries es []) of None \<Rightarrow> 0 | Some i \<Rightarrow> i)"
    and "rl_next_id (new_raft_log k (Inr es) b) = k + 1"
    and "rl_durable (new_raft_log k (Inr es) b) = k"
    and "\<not> rl_poisoned (new_raft_log k (Inr es) b)"
    and "\<exists>l0. new_raft_log k (Inr es) b = update_term_indexes es l0 \<and> terms_ok [] l0"
  using assms
  by (simp_all add: new_raft_log_def Let_def case_prod_beta)
    (auto simp: terms_ok_def first_with_term_def last_with_term_def)

lemma new_raft_log_inv:
  assumes con: "contig_from n es" and ok: "\<forall>e \<in> set es. entry_ok e" and ne: "es \<noteq> []"
    and k: "k = e_index (last es)" and cnt: "length es \<le> MAX_TERM_SEGMENTS"
  shows "log_inv (new_raft_log k (Inr es) b)" and "rl_entries (new_raft_log k (Inr es) b) = tag es"
proof -
  have pos: "0 < k"
    using ok ne k last_in_set [OF ne] by (auto simp: entry_ok_def)
  note fields = new_raft_log_fields [OF pos, of es b]
  have put: "put_entries es [] = tag es"
    using put_entries_back [of es "[]"] contig_from_sorted [OF con] by simp
  show ents: "rl_entries (new_raft_log k (Inr es) b) = tag es"
    using fields put by simp
  have wf: "om_wf (tag es)"
    using contig_from_sorted [OF con] by (simp add: om_wf_def)
  have le: "\<forall>e \<in> set es. e_index e \<le> u64_max" and tpos: "\<forall>e \<in> set es. 0 < e_term e"
    using ok by (auto simp: entry_ok_def)
  have count: "ts_seg_count (ts_on_append es ts_new) \<le> MAX_TERM_SEGMENTS"
    using ts_count_append [of es ts_new] cnt by (simp add: ts_new_def)
  have segs: "ts_ok (ts_on_append es ts_new)" "ts_agrees (ts_on_append es ts_new) (tag es)"
    using ts_ok_append [OF ts_ok_new tpos count] ts_agrees_append [of ts_new "[]" es] ts_ok_new tpos count
      contig_from_sorted [OF con]
    by (simp_all add: tag_def)
  obtain l0 where "new_raft_log k (Inr es) b = update_term_indexes es l0" and "terms_ok [] l0"
    using fields(8) by blast
  then have terms: "terms_ok (tag es) (new_raft_log k (Inr es) b)"
    using terms_ok_updates [of "[]" l0 es] wf le by simp
  have keys: "map fst (tag es) = [n ..< n + length es]"
    using con by (simp add: contig_from_def)
  have "om_back (tag es) = Some k" "om_front (tag es) = Some n" and "Suc k = n + length es"
    using om_ends_upt [OF keys] ne contig_from_last [OF con ne] k by auto
  then have "bounds_ok (new_raft_log k (Inr es) b)" and "rl_max (new_raft_log k (Inr es) b) = k"
    using fields put keys ne by (simp_all add: bounds_ok_def del: upt_Suc)
  then show "log_inv (new_raft_log k (Inr es) b)"
    using ents fields segs terms ok by (simp add: log_inv_def keys_ok_def set_tag)
qed

lemma reset_inv: "log_inv (fst (reset l io))" and reset_entries: "rl_entries (fst (reset l io)) = []"
proof -
  show "log_inv (fst (reset l io))"
    using ts_ok_clear
    by (simp add: reset_def reset_internal_def Let_def log_inv_def keys_ok_def bounds_ok_def terms_ok_def
        send_command_def first_with_term_def last_with_term_def)
  show "rl_entries (fst (reset l io)) = []"
    by (simp add: reset_def reset_internal_def Let_def send_command_def)
qed

lemma reset_poisoned: "rl_poisoned (fst (reset f io)) = rl_poisoned f"
  and reset_segments: "ts_seg_count (rl_segments (fst (reset f io))) = 0"
  and reset_purged: "rl_purged_index (fst (reset f io)) = rl_purged_index f"
  and reset_result: "snd (reset f io) = io"
  by (simp_all add: reset_def reset_internal_def Let_def send_command_def fence_reset_def send_replies_def ts_clear_def)

text \<open>The branch for a request that starts at the beginning of the log: whatever the log held
  is replaced by the entries of the request.\<close>

lemma first_request_replaces:
  assumes "\<not> rl_poisoned l" and "good_request l 0 es"
  shows "\<exists>l'. filter_out_conflicts_and_append l 0 0 es (Inr ()) = (l', Inr (last_lid es))
     \<and> rl_entries l' = tag es \<and> log_inv l' \<and> (rl_purged_index l = 0 \<longrightarrow> boundary_ok l')"
proof -
  obtain r where rr: "reset l (Inr ()) = (r, Inr ())"
    by (metis prod.collapse reset_result)
  have r: "log_inv r" "rl_entries r = []" "ts_seg_count (rl_segments r) = 0" "\<not> rl_poisoned r"
    "rl_purged_index r = rl_purged_index l"
    using reset_inv [of l "Inr ()"] reset_entries [of l "Inr ()"] reset_segments [of l "Inr ()"]
      reset_poisoned [of l "Inr ()"] reset_purged [of l "Inr ()"] assms(1)
    by (simp_all add: rr)
  show ?thesis
  proof (cases "es = []")
    case True
    then show ?thesis
      using rr r by (simp add: filter_out_conflicts_and_append_def append_entries_def last_lid_def tag_Nil boundary_ok_def)
  next
    case False
    have "appendable r es"
      using False assms(2) ts_count_append [of es "rl_segments r"]
      by (cases es) (auto simp: appendable_def r good_request_def contig_from_Cons)
    note ins = insert_to_memory_inv [OF r(1) this]
    have "filter_out_conflicts_and_append l 0 0 es (Inr ())
        = ((insert_to_memory r es)\<lparr>rl_notified := True\<rparr>, Inr (last_lid es))"
      using False r by (simp add: filter_out_conflicts_and_append_def append_entries_ok rr)
    then show ?thesis
      using ins r(2,5) insert_to_memory_fields [of r es] by (simp add: boundary_ok_def)
  qed
qed

lemma ex_log_inv: "log_inv ex_log" and ex_log_entries: "rl_entries ex_log = tag ex_entries"
proof -
  have "contig_from 1 ex_entries" and "\<forall>e \<in> set ex_entries. entry_ok e" and "ex_entries \<noteq> []"
    and "3 = e_index (last ex_entries)" and "length ex_entries \<le> MAX_TERM_SEGMENTS"
    by (simp_all add: ex_entries_def contig_from_Cons entry_ok_def u64_max_def MAX_TERM_SEGMENTS_def)
  then show "log_inv ex_log" and "rl_entries ex_log = tag ex_entries"
    unfolding ex_log_def by (rule new_raft_log_inv)+
qed

lemma ex_log_fields:
  "\<not> rl_poisoned ex_log" "rl_durable ex_log = 3" "rl_next_id ex_log = 4" "rl_max ex_log = 3" "rl_min ex_log = 1"
  "rl_purged_index ex_log = 0" "rl_commands ex_log = []" "rl_fsync ex_log = fc_new"
  "rl_segments ex_log = \<lparr>ts_last_term = 1, ts_last_term_start = 1, ts_seg_count = 0,
     ts_seg_starts = (\<lambda>_. 0), ts_seg_terms = (\<lambda>_. 0)\<rparr>"
  by (simp_all add: ex_log_def ex_entries_def new_raft_log_def Let_def om_put_def om_front_def om_back_def
      ts_new_def ts_on_append_one_def update_term_index_def)

lemma ex_store_inv: "file_inv ex_enc ex_store" and ex_store_entries: "fs_entries ex_store = tag ex_entries"
proof -
  let ?s = "\<lparr>fs_entries = [], fs_file = [], fs_index_end_pos = [], fs_last_index = 0\<rparr>"
  have "file_inv ex_enc ?s"
    by (simp add: file_inv_def)
  from write_entries_inv [OF this, of ex_entries]
  show "file_inv ex_enc ex_store" and "fs_entries ex_store = tag ex_entries"
    by (simp_all add: ex_store_def file_persist_entries_def ex_entries_def)
qed

section \<open>The follower's append\<close>

text \<open>C1: the follower's append for a well-formed log that accepts writes, whose storage answers,
  and a request of consecutive entries with terms that never decrease.  If the previous entry
  of the request matches, \<^verbatim>\<open>filter_out_conflicts_and_append\<close> (fast path, slow path, truncation
  and idempotent repeat alike) leaves exactly the entries of the receiver rule \<^verbatim>\<open>raft_append\<close>
  of the Raft paper.  If the request starts at the beginning of the log (previous index and
  term 0) the rule is not followed: the whole log is replaced by the entries of the request,
  also entries behind them that agree.  Either way the answer is the id of the last entry of
  the request and the log stays well formed.\<close>

theorem follower_append_refines_raft:
  assumes "log_inv l" and "boundary_ok l" and "\<not> rl_poisoned l" and "good_request l prev es"
    and "prev = 0 \<and> t = 0 \<or> term_at l prev = Some t"
  shows "\<exists>l'. filter_out_conflicts_and_append l prev t es (Inr ()) = (l', Inr (last_lid es))
           \<and> rl_entries l' = (if prev = 0 \<and> t = 0 then tag es else raft_append (rl_entries l) es)
           \<and> log_inv l' \<and> (prev \<noteq> 0 \<or> t \<noteq> 0 \<or> rl_purged_index l = 0 \<longrightarrow> boundary_ok l')"
proof (cases "prev = 0 \<and> t = 0")
  case True
  then show ?thesis
    using first_request_replaces [of l es] assms(3,4) by simp
next
  case False
  then show ?thesis
    using filter_out_refines [OF assms(1-3) False _ assms(4)] assms(5) by auto
qed

theorem follower_append_refines_raft_witness:
  "(\<exists>l'. filter_out_conflicts_and_append ex_log 1 1 [mk_entry 2 2 Noop] (Inr ()) = (l', Inr (Some (mk_lid 2 2)))
      \<and> rl_entries l' = [(1, mk_entry 1 1 Noop), (2, mk_entry 2 2 Noop)] \<and> log_inv l')
   \<and> (\<exists>l'. filter_out_conflicts_and_append ex_log 0 0 [mk_entry 1 1 Noop] (Inr ()) = (l', Inr (Some (mk_lid 1 1)))
      \<and> rl_entries l' = [(1, mk_entry 1 1 Noop)] \<and> log_inv l')"
proof -
  have bnd: "boundary_ok ex_log"
    by (simp add: boundary_ok_def ex_log_fields)
  have good: "good_request ex_log 1 [mk_entry 2 2 Noop]" "good_request ex_log 0 [mk_entry 1 1 Noop]"
    by (simp_all add: good_request_def contig_from_Cons entry_ok_def u64_max_def MAX_TERM_SEGMENTS_def ex_log_fields)
  have at: "term_at ex_log 1 = Some 1"
    by (simp add: term_at_def entry_def ex_log_entries ex_entries_def om_get_def)
  show ?thesis
    using follower_append_refines_raft [OF ex_log_inv bnd ex_log_fields(1) good(1), of 1]
      follower_append_refines_raft [OF ex_log_inv bnd ex_log_fields(1) good(2), of 0] at
    by (auto simp: last_lid_def entry_lid_def ex_log_entries ex_entries_def om_get_def)
qed

text \<open>C17: a request whose previous entry does not match changes nothing: the log is returned
  as it was, with the id of its last entry (or of the purge boundary when it is empty).\<close>

theorem follower_append_mismatch:
  assumes "log_inv l" and "\<not> (prev = 0 \<and> t = 0)" and "term_at l prev \<noteq> Some t"
  shows "filter_out_conflicts_and_append l prev t es io = (l, Inr (last_log_id l))"
  using assms by (auto simp: filter_out_conflicts_and_append_def entry_term_exact Let_def)

theorem follower_append_mismatch_witness:
  "filter_out_conflicts_and_append ex_log 3 2 [mk_entry 4 2 Noop] (Inr ()) = (ex_log, Inr (last_log_id ex_log))"
  by (rule follower_append_mismatch [OF ex_log_inv])
    (simp_all add: term_at_def entry_def ex_log_entries ex_entries_def om_get_def)

section \<open>Invariant, reads and the commit rule\<close>

lemma advance_inv:
  "log_inv (advance_durable_and_notify x d) = log_inv x"
  "rl_entries (advance_durable_and_notify x d) = rl_entries x"
  by (simp_all add: advance_durable_and_notify_def Let_def log_inv_def bounds_ok_def terms_ok_def)

text \<open>C7: every operation of the Raft loop on the log keeps it well formed (boundaries, per-term
  indexes and term segments all determined by the entries): appending consecutive entries,
  purging a prefix, resetting, and waiting for a flush; and the entries afterwards are what
  the operation says.\<close>

theorem log_operations_keep_invariant:
  assumes "log_inv l" and "appendable l es"
  shows "log_inv (fst (append_entries l es))
       \<and> rl_entries (fst (append_entries l es)) = (if rl_poisoned l then rl_entries l else rl_entries l @ tag es)
       \<and> log_inv (fst (purge_logs_up_to l c io))
       \<and> rl_entries (fst (purge_logs_up_to l c io)) = filter (\<lambda>b. lid_index c < fst b) (rl_entries l)
       \<and> log_inv (fst (reset l io)) \<and> rl_entries (fst (reset l io)) = []
       \<and> log_inv (fst (flush l io)) \<and> rl_entries (fst (flush l io)) = rl_entries l"
proof -
  have "es \<noteq> []"
    using assms(2) by (simp add: appendable_def)
  then show ?thesis
    using insert_to_memory_inv [OF assms] purge_prefix_inv [OF assms(1), of c] assms(1) reset_inv reset_entries
    by (simp add: append_entries_def purge_logs_up_to_def flush_def Let_def advance_inv)
qed

theorem log_operations_keep_invariant_witness:
  "log_inv (fst (append_entries ex_log [mk_entry 4 2 Noop]))
   \<and> rl_entries (fst (append_entries ex_log [mk_entry 4 2 Noop]))
       = (if rl_poisoned ex_log then rl_entries ex_log else rl_entries ex_log @ tag [mk_entry 4 2 Noop])
   \<and> log_inv (fst (purge_logs_up_to ex_log (mk_lid 1 2) (Inr ())))
   \<and> rl_entries (fst (purge_logs_up_to ex_log (mk_lid 1 2) (Inr ())))
       = filter (\<lambda>b. lid_index (mk_lid 1 2) < fst b) (rl_entries ex_log)
   \<and> log_inv (fst (reset ex_log (Inr ()))) \<and> rl_entries (fst (reset ex_log (Inr ()))) = []
   \<and> log_inv (fst (flush ex_log (Inr ()))) \<and> rl_entries (fst (flush ex_log (Inr ()))) = rl_entries ex_log"
  by (rule log_operations_keep_invariant [OF ex_log_inv])
    (simp add: appendable_def ex_log_entries ex_log_fields contig_from_Cons entry_ok_def u64_max_def
      MAX_TERM_SEGMENTS_def ts_on_append_one_def ex_entries_def)












lemma majority_matched_iff:
  "calculate_majority_matched_index l t c peers = Some n \<longleftrightarrow>
     c \<le> n \<and> (\<exists>e. entry l n = Some e \<and> e_term e = t)
     \<and> (\<forall>k. is_majority (length (filter (\<lambda>m. k \<le> m) (peers @ [last_entry_id l]))) (length peers + 1)
            \<longleftrightarrow> k \<le> n)"
proof -
  let ?ids = "peers @ [last_entry_id l]"
  let ?x = "rev (sort ?ids) ! (length ?ids div 2)"
  have maj: "k \<le> ?x \<longleftrightarrow> is_majority (length (filter (\<lambda>m. k \<le> m) ?ids)) (length peers + 1)" for k
    using majority_index_iff [of ?ids k] by simp
  have uniq: "(\<forall>k. k \<le> ?x \<longleftrightarrow> k \<le> n) \<longleftrightarrow> ?x = n"
    by (metis order_antisym order_refl)
  have "calculate_majority_matched_index l t c peers = Some n \<longleftrightarrow>
      ?x = n \<and> c \<le> n \<and> (\<exists>e. entry l n = Some e \<and> e_term e = t)"
    by (auto simp: calculate_majority_matched_index_def Let_def split: option.splits)
  then show ?thesis
    unfolding maj [symmetric] uniq by blast
qed

text \<open>C3: the commit rule picks the largest index stored on a majority.  The index
  \<^verbatim>\<open>calculate_majority_matched_index\<close> returns is at least the old commit index, carries an
  entry of the leader's term, and is the greatest index that a strict majority of the replicas
  counted (the peers given and the leader itself) has reached; and whenever such an index
  exists it is returned.\<close>

theorem commit_rule_largest_majority:
  "calculate_majority_matched_index l t c peers = Some n \<longleftrightarrow>
     c \<le> n \<and> (\<exists>e. entry l n = Some e \<and> e_term e = t)
     \<and> (\<forall>k. is_majority (length (filter (\<lambda>m. k \<le> m) (peers @ [last_entry_id l]))) (length peers + 1)
            \<longleftrightarrow> k \<le> n)"
  by (rule majority_matched_iff)

text \<open>C18: index allocation is fresh and gap free.  Two successive range allocations return
  adjacent ranges of the requested sizes that lie above every entry of the log and below
  \<open>2 ^ 64\<close>; an allocation that would overflow panics and an empty one changes nothing.\<close>

theorem allocated_ranges_fresh:
  assumes "log_inv l" and "0 < c" and "0 < d"
    and "pre_allocate_id_range l c = Inr (l1, a, b)" and "pre_allocate_id_range l1 d = Inr (l2, a', b')"
  shows "last_entry_id l < a \<and> b = a + c - 1 \<and> a' = b + 1 \<and> b' = a' + d - 1 \<and> b' < u64_max
       \<and> rl_entries l2 = rl_entries l
       \<and> (pre_allocate_id_range l e = Inl (Panic ''ID overflow'') \<longleftrightarrow> 0 < e \<and> u64_max - e < rl_next_id l)
       \<and> pre_allocate_id_range l 0 = Inr (l, u64_max, u64_max)"
  using assms
  by (auto simp: pre_allocate_id_range_def Let_def log_inv_def last_entry_id_def split: if_splits)

theorem allocated_ranges_fresh_witness:
  "\<exists>l1 l2. pre_allocate_id_range ex_log 2 = Inr (l1, 4, 5) \<and> pre_allocate_id_range l1 1 = Inr (l2, 6, 6)
     \<and> last_entry_id ex_log < 4 \<and> (5 :: nat) = 4 + 2 - 1 \<and> rl_entries l2 = rl_entries ex_log"
proof -
  have a: "pre_allocate_id_range ex_log 2 = Inr (ex_log\<lparr>rl_next_id := 6\<rparr>, 4, 5)"
    and b: "pre_allocate_id_range (ex_log\<lparr>rl_next_id := 6\<rparr>) 1 = Inr (ex_log\<lparr>rl_next_id := 7\<rparr>, 6, 6)"
    by (simp_all add: pre_allocate_id_range_def ex_log_fields u64_max_def)
  show ?thesis
    using allocated_ranges_fresh [OF ex_log_inv _ _ a b] a b by auto
qed

section \<open>The IO thread and recovery\<close>

text \<open>C16: no reply channel is lost and none is answered twice.  In every interleaving of the Raft
  loop, the IO thread and the fsync task from a freshly opened log, the channels created so far
  are exactly the ones in the command queue, with the coordinator, with the running fsync round
  or answered, each once; so no caller is answered twice.\<close>

theorem io_replies_exactly_once:
  assumes "(io_step ls)\<^sup>*\<^sup>* (io_init (new_raft_log n es b) st) s"
  shows "all_chans s = mset [0 ..< rl_next_chan (io_log s)] \<and> distinct (map fst (rl_replies (io_log s)))"
  using assms by (rule io_chans_lemma)

theorem io_replies_exactly_once_witness:
  "\<exists>s. all_chans s = mset [0 ..< rl_next_chan (io_log s)] \<and> distinct (map fst (rl_replies (io_log s)))
     \<and> s = (io_init ex_log ex_store)\<lparr>io_log := fst (reset (io_log (io_init ex_log ex_store)) (Inr ()))\<rparr>"
proof -
  have "(io_step (file_log_store ex_enc))\<^sup>*\<^sup>* (io_init (new_raft_log 3 (Inr ex_entries) (Inr None)) ex_store)
      ((io_init ex_log ex_store)\<lparr>io_log := fst (reset (io_log (io_init ex_log ex_store)) (Inr ()))\<rparr>)"
    unfolding ex_log_def by (intro r_into_rtranclp step_reset)
  from io_replies_exactly_once [OF this] show ?thesis
    by blast
qed

text \<open>C13: what the IO thread reports durable survives a restart.  Take a well-formed log that
  accepts writes, with entries beyond its durable index and no gap there, no queued command and
  an idle fsync task, and a file store that holds exactly the durable part of the log.  Its
  file-system calls succeed and the entry decoder inverts the encoder.  Then one wake-up of the
  IO thread followed by the fsync task (which ends within three turns) raises the durable index
  to the end of the log, and opening the bytes of the file yields exactly the entries of the
  log.\<close>

theorem durable_log_survives_restart:
  assumes "codec_ok enc dec (rl_entries l)"
    and "log_inv l" and "\<not> rl_poisoned l" and "rl_commands l = []" and "rl_fsync l = fc_new"
    and "rl_durable l < rl_max l" and "rl_min l \<le> Suc (rl_durable l)"
    and "file_inv enc st" and "mirrors (fs_entries st) l"
  shows "\<exists>s1 s2. on_notified (file_log_store enc) (io_init l st) = Inr (s1, False)
           \<and> run_until_caught_up (file_log_store enc) 3 s1 = Some s2
           \<and> durable_index (io_log s2) = last_entry_id l
           \<and> fs_entries (file_open dec (fs_file (io_store s2))) = rl_entries l"
proof -
  obtain s1 s2 where s: "on_notified (file_log_store enc) (io_init l st) = Inr (s1, False)"
    "run_until_caught_up (file_log_store enc) 3 s1 = Some s2" "rl_durable (io_log s2) = rl_max l"
    "file_inv enc (io_store s2)" "fs_entries (io_store s2) = rl_entries l"
    using fls.notified_mirrors [OF assms(2-9)] by blast
  then have "fs_entries (file_open dec (fs_file (io_store s2))) = rl_entries l"
    using file_open_frames [OF assms(1), of "[]"] by (simp add: file_inv_def)
  then show ?thesis
    using s by (auto simp: durable_index_def last_entry_id_def)
qed

theorem durable_log_survives_restart_witness:
  "\<exists>s1 s2. on_notified (file_log_store ex_enc) (io_init (fst (append_entries ex_log [mk_entry 4 2 Noop])) ex_store)
         = Inr (s1, False)
     \<and> run_until_caught_up (file_log_store ex_enc) 3 s1 = Some s2
     \<and> durable_index (io_log s2) = last_entry_id (fst (append_entries ex_log [mk_entry 4 2 Noop]))
     \<and> fs_entries (file_open ex_dec (fs_file (io_store s2)))
         = rl_entries (fst (append_entries ex_log [mk_entry 4 2 Noop]))"
proof (rule durable_log_survives_restart)
  have app: "appendable ex_log [mk_entry 4 2 Noop]"
    by (simp add: appendable_def ex_log_entries ex_log_fields contig_from_Cons entry_ok_def u64_max_def
        MAX_TERM_SEGMENTS_def ts_on_append_one_def ex_entries_def)
  have ap: "fst (append_entries ex_log [mk_entry 4 2 Noop])
      = (insert_to_memory ex_log [mk_entry 4 2 Noop])\<lparr>rl_notified := True\<rparr>"
    by (simp add: append_entries_def ex_log_fields)
  note ents = insert_to_memory_inv [OF ex_log_inv app]
  show "log_inv (fst (append_entries ex_log [mk_entry 4 2 Noop]))"
    unfolding ap using ents by simp
  show "codec_ok ex_enc ex_dec (rl_entries (fst (append_entries ex_log [mk_entry 4 2 Noop])))"
    unfolding ap using ents(2) by (simp add: codec_ok_def ex_log_entries ex_entries_def ex_enc_def ex_dec_def)
  show "mirrors (fs_entries ex_store) (fst (append_entries ex_log [mk_entry 4 2 Noop]))"
    unfolding ap mirrors_def using ents(2)
    by (simp add: ex_store_entries ex_log_entries ex_log_fields ex_entries_def)
qed (simp_all add: append_entries_def ex_log_fields ex_store_inv max_entry_index_def)

text \<open>C14: recovery of the file store is exact and torn writes are harmless.  After any operation
  the file decodes to the entries held in memory with the same offsets; and when only the first
  \<open>n\<close> bytes reached the disk, loading yields exactly the entries whose frames are complete.\<close>

theorem file_store_recovery:
  assumes codec: "codec_ok enc dec (fs_entries s)" and inv: "file_inv enc s" and n: "n \<le> length (fs_file s)"
  shows "fs_entries (file_open dec (fs_file s)) = fs_entries s
       \<and> fs_index_end_pos (file_open dec (fs_file s)) = fs_index_end_pos s
       \<and> (\<exists>k \<le> length (fs_entries s). fs_entries (file_open dec (take n (fs_file s))) = take k (fs_entries s)
            \<and> length (frames enc (take k (fs_entries s))) \<le> n
            \<and> (k < length (fs_entries s) \<longrightarrow> n < length (frames enc (take (Suc k) (fs_entries s)))))"
proof -
  let ?m = "fs_entries s"
  have m: "om_wf ?m" "\<forall>b \<in> set ?m. e_index (snd b) = fst b" "fs_file s = frames enc ?m"
    "fs_index_end_pos s = end_positions enc 0 ?m"
    using inv by (simp_all add: file_inv_def)
  obtain k junk where k: "k \<le> length ?m" "take n (frames enc ?m) = frames enc (take k ?m) @ junk"
    and junk: "junk = [] \<or> k < length ?m \<and> (\<exists>suf. suf \<noteq> [] \<and> frame enc (snd (?m ! k)) = junk @ suf)"
    using take_frames [of n enc ?m] n unfolding m(3) by blast
  have len: "n = length (frames enc (take k ?m)) + length junk"
    using arg_cong [OF k(2), of length] n m(3) by simp
  have stop: "length junk < 8 \<or> length junk < 8 + u64_from_be_bytes (take 8 junk)"
    using junk codec torn_junk [of enc "snd (?m ! k)" junk] by (auto simp: codec_ok_def)
  have last: "n < length (frames enc (take (Suc k) ?m))" if "k < length ?m"
  proof -
    have "length junk < length (frame enc (snd (?m ! k)))"
    proof (cases "junk = []")
      case True
      then show ?thesis
        by (simp add: frame_def)
    next
      case False
      then show ?thesis
        using junk by auto
    qed
    then show ?thesis
      using len that by (simp add: take_Suc_conv_app_nth)
  qed
  have torn: "fs_entries (file_open dec (take n (fs_file s))) = take k ?m"
    unfolding m(3) k(2)
    by (subst file_open_frames [OF _ om_wf_take [OF m(1)] _ stop])
      (use m(2) codec in \<open>auto simp: codec_ok_def dest: in_set_takeD\<close>)
  have "file_open dec (fs_file s) = \<lparr>fs_entries = ?m, fs_file = fs_file s, fs_index_end_pos = fs_index_end_pos s,
     fs_last_index = (case om_back ?m of None \<Rightarrow> 0 | Some k \<Rightarrow> k)\<rparr>"
    using file_open_frames [OF codec m(1,2), of "[]"] m by simp
  then show ?thesis
    using k(1) len last torn by auto
qed

theorem file_store_recovery_witness:
  "fs_entries (file_open ex_dec (fs_file ex_store)) = fs_entries ex_store
   \<and> fs_index_end_pos (file_open ex_dec (fs_file ex_store)) = fs_index_end_pos ex_store
   \<and> (\<exists>k \<le> length (fs_entries ex_store). fs_entries (file_open ex_dec (take 20 (fs_file ex_store))) = take k (fs_entries ex_store)
        \<and> length (frames ex_enc (take k (fs_entries ex_store))) \<le> 20
        \<and> (k < length (fs_entries ex_store) \<longrightarrow> 20 < length (frames ex_enc (take (Suc k) (fs_entries ex_store)))))"
proof (rule file_store_recovery [OF _ ex_store_inv])
  show "codec_ok ex_enc ex_dec (fs_entries ex_store)"
    by (simp add: codec_ok_def ex_store_entries ex_entries_def ex_enc_def ex_dec_def)
  show "20 \<le> length (fs_file ex_store)"
    using ex_store_inv by (simp add: file_inv_def ex_store_entries ex_entries_def frame_def ex_enc_def)
qed

text \<open>C19: a reset fences out a flush in flight.  When the log is reset between the physical
  flush of a round and its fence check, the round's result is discarded: the durable index stays
  zero and every caller of the round gets an error.\<close>

theorem reset_fences_inflight_flush:
  assumes "io_task s = FsFlushed g m rs r" and "fc_generation (rl_fsync (io_log s)) = g"
    and "s' = fsync_publish (fsync_fence (s\<lparr>io_log := fst (reset (io_log s) io)\<rparr>))"
  shows "durable_index (io_log s') = 0 \<and> io_task s' = FsIdle
       \<and> (\<forall>c \<in> set rs. (c, Inl (Fatal ''stale fsync generation, superseded by reset'')) \<in> set (rl_replies (io_log s')))"
  using assms
  by (auto simp: fsync_fence_def fsync_publish_def reset_def reset_internal_def Let_def send_command_def
      fence_reset_def send_replies_def durable_index_def)

theorem reset_fences_inflight_flush_witness:
  "let s = (io_init ex_log ex_store)\<lparr>io_task := FsFlushed 0 3 [7] (Inr ())\<rparr>;
       s' = fsync_publish (fsync_fence (s\<lparr>io_log := fst (reset (io_log s) (Inr ()))\<rparr>))
   in durable_index (io_log s') = 0 \<and> io_task s' = FsIdle
      \<and> (\<forall>c \<in> set [7]. (c, Inl (Fatal ''stale fsync generation, superseded by reset'')) \<in> set (rl_replies (io_log s')))"
  unfolding Let_def
  by (rule reset_fences_inflight_flush [OF _ _ refl]) (simp_all add: io_init_def ex_log_fields fc_new_def)

section \<open>Where durability is lost\<close>

text \<open>A run of the follower: a conflicting request cuts the log from three entries to two, the IO
  thread carries out the replacement, one more entry arrives, and the IO thread wakes up.\<close>

definition cut_run1 :: "file_store io_state" where
  "cut_run1 = (let s = io_init ex_log ex_store in
     s\<lparr>io_log := fst (filter_out_conflicts_and_append (io_log s) 1 1 [mk_entry 2 2 Noop] (Inr ()))\<rparr>)"

definition cut_run2 :: "file_store io_state" where
  "cut_run2 = (case on_command (file_log_store ex_enc) cut_run1 of Inr (s, _) \<Rightarrow> s | Inl _ \<Rightarrow> cut_run1)"

definition cut_run3 :: "file_store io_state" where
  "cut_run3 = cut_run2\<lparr>io_log := fst (filter_out_conflicts_and_append (io_log cut_run2) 2 2
                                     [mk_entry 3 2 (Command ''c'')] (Inr ()))\<rparr>"

definition cut_run4 :: "file_store io_state" where
  "cut_run4 = (case on_notified (file_log_store ex_enc) cut_run3 of Inr (s, _) \<Rightarrow> s | Inl _ \<Rightarrow> cut_run3)"

lemmas run_simps = filter_out_conflicts_and_append_def last_entry_id_def entry_term_def ts_get_def Let_def
  overlap_safe_def entry_def om_get_def remove_range_def remove_range_locked_def om_del_range_def om_front_def om_back_def
  first_with_term_def last_with_term_def insert_to_memory_def om_put_def update_term_index_def ts_on_append_one_def
  max_entry_index_def send_command_def append_entries_def u64_max_def MAX_TERM_SEGMENTS_def last_lid_def entry_lid_def

lemma cut_run1_fields:
  "rl_entries (io_log cut_run1) = [(1, mk_entry 1 1 Noop), (2, mk_entry 2 2 Noop)]"
  "rl_durable (io_log cut_run1) = 3" "rl_max (io_log cut_run1) = 2" "rl_min (io_log cut_run1) = 1"
  "rl_commands (io_log cut_run1) = [ReplaceRange 2 [mk_entry 2 2 Noop] (rl_next_chan ex_log)]"
  "rl_poisoned (io_log cut_run1) = False" "io_store cut_run1 = ex_store" "io_pending_max cut_run1 = 0"
  "rl_segments (io_log cut_run1) = \<lparr>ts_last_term = 2, ts_last_term_start = 2, ts_seg_count = 1,
     ts_seg_starts = (\<lambda>_. 0)(0 := 1), ts_seg_terms = (\<lambda>_. 0)(0 := 1)\<rparr>"
  by (simp_all add: cut_run1_def io_init_def run_simps ex_log_fields ex_log_entries ex_entries_def)

lemma cut_run2_eq:
  "\<exists>st. cut_run2 = cut_run1\<lparr>io_store := st, io_pending_max := 2,
       io_log := send_replies ((io_log cut_run1)\<lparr>rl_commands := []\<rparr>) [rl_next_chan ex_log] (Inr ())\<rparr>
     \<and> on_command (file_log_store ex_enc) cut_run1 = Inr (cut_run2, False)
     \<and> fs_entries st = [(1, mk_entry 1 1 Noop), (2, mk_entry 2 2 Noop)]"
proof -
  obtain st where st: "ls_replace_range (file_log_store ex_enc) 2 [mk_entry 2 2 Noop] ex_store = (st, Inr ())"
    "fs_entries st = filter (\<lambda>b. fst b < 2) (fs_entries ex_store) @ tag [mk_entry 2 2 Noop]"
    using fls.replace [OF ex_store_inv, of "[mk_entry 2 2 Noop]" 2] by auto
  then show ?thesis
    by (intro exI [of _ st])
      (simp add: cut_run2_def on_command_def handle_non_write_cmd_def cut_run1_fields Let_def
        ex_store_entries ex_entries_def)
qed

lemma cut_run3_fields:
  "rl_entries (io_log cut_run3) = [(1, mk_entry 1 1 Noop), (2, mk_entry 2 2 Noop), (3, mk_entry 3 2 (Command ''c''))]"
  "rl_durable (io_log cut_run3) = 3" "rl_max (io_log cut_run3) = 3"
  "rl_commands (io_log cut_run3) = []" "rl_poisoned (io_log cut_run3) = False"
  "fs_entries (io_store cut_run3) = [(1, mk_entry 1 1 Noop), (2, mk_entry 2 2 Noop)]"
proof -
  obtain st where r: "cut_run2 = cut_run1\<lparr>io_store := st, io_pending_max := 2,
       io_log := send_replies ((io_log cut_run1)\<lparr>rl_commands := []\<rparr>) [rl_next_chan ex_log] (Inr ())\<rparr>"
    and st: "fs_entries st = [(1, mk_entry 1 1 Noop), (2, mk_entry 2 2 Noop)]"
    using cut_run2_eq by blast
  show "rl_entries (io_log cut_run3) = [(1, mk_entry 1 1 Noop), (2, mk_entry 2 2 Noop), (3, mk_entry 3 2 (Command ''c''))]"
    "rl_durable (io_log cut_run3) = 3" "rl_max (io_log cut_run3) = 3"
    "rl_commands (io_log cut_run3) = []" "rl_poisoned (io_log cut_run3) = False"
    "fs_entries (io_store cut_run3) = [(1, mk_entry 1 1 Noop), (2, mk_entry 2 2 Noop)]"
    by (simp_all add: cut_run3_def r st send_replies_def run_simps cut_run1_fields)
qed

lemma cut_run4_fields:
  "on_notified (file_log_store ex_enc) cut_run3 = Inr (cut_run4, False)"
  "rl_entries (io_log cut_run4) = rl_entries (io_log cut_run3)" "rl_durable (io_log cut_run4) = 3"
  "rl_max (io_log cut_run4) = 3" "rl_commands (io_log cut_run4) = []" "rl_notified (io_log cut_run4) = False"
  "io_store cut_run4 = io_store cut_run3"
  by (simp_all add: cut_run4_def on_notified_def run_batch_turn_def persist_pending_range_def Let_def
      cut_run3_fields submit_def)

text \<open>C22: a truncation loses durability.  \<^verbatim>\<open>remove_range\<close> leaves the durable index above the end
  of the shortened log, so entries appended afterwards at the old indexes are already counted as
  durable: in the run above, reachable by the steps of the system, the third entry is in the log,
  the durable index is three, no work is queued or signalled, \<^verbatim>\<open>flush\<close> reports success at once,
  and yet the file does not hold the entry.\<close>

theorem truncation_loses_durability:
  "\<exists>s. (io_step (file_log_store ex_enc))\<^sup>*\<^sup>* (io_init ex_log ex_store) s
     \<and> entry (io_log s) 3 = Some (mk_entry 3 2 (Command ''c'')) \<and> durable_index (io_log s) = 3
     \<and> rl_commands (io_log s) = [] \<and> \<not> rl_notified (io_log s)
     \<and> flush (io_log s) io = (io_log s, Inr ())
     \<and> om_get (fs_entries (io_store s)) 3 = None"
proof -
  let ?ls = "file_log_store ex_enc"
  have "io_step ?ls (io_init ex_log ex_store) cut_run1"
    unfolding cut_run1_def Let_def by (rule step_replace)
  moreover have "io_step ?ls cut_run1 cut_run2"
    using cut_run2_eq step_command by blast
  moreover have "io_step ?ls cut_run2 cut_run3"
    unfolding cut_run3_def by (rule step_replace)
  moreover have "io_step ?ls cut_run3 cut_run4"
    using cut_run4_fields(1) by (rule step_notified)
  ultimately have "(io_step ?ls)\<^sup>*\<^sup>* (io_init ex_log ex_store) cut_run4"
    by (meson r_into_rtranclp rtranclp_trans)
  then show ?thesis
    using cut_run3_fields cut_run4_fields
    by (intro exI [of _ cut_run4]) (simp add: entry_def om_get_def durable_index_def flush_def)
qed

text \<open>the fence check and the publication of a flush are not one step.  When the log is reset
  after a round passed its fence check, the round still publishes its old index: the log is empty
  and reports entries up to \<open>m\<close> as durable, so none of the next \<open>m\<close> entries will be persisted.\<close>

theorem reset_after_fence_revives_durable_index:
  assumes "io_task s = FsPassed m rs (Inr ())"
  shows "\<exists>s1. io_step ls s s1 \<and> io_step ls s1 (fsync_publish s1)
       \<and> is_empty (io_log (fsync_publish s1)) \<and> last_entry_id (io_log (fsync_publish s1)) = 0
       \<and> durable_index (io_log (fsync_publish s1)) = m"
proof -
  let ?s1 = "s\<lparr>io_log := fst (reset (io_log s) (Inr ()))\<rparr>"
  have "io_step ls s ?s1" and "io_step ls ?s1 (fsync_publish ?s1)"
    by (rule step_reset, rule step_publish)
  moreover have "is_empty (io_log (fsync_publish ?s1))" "last_entry_id (io_log (fsync_publish ?s1)) = 0"
    "durable_index (io_log (fsync_publish ?s1)) = m"
    using assms
    by (simp_all add: fsync_publish_def reset_def reset_internal_def Let_def send_command_def fence_reset_def
        send_replies_def advance_durable_and_notify_def is_empty_def last_entry_id_def durable_index_def)
  ultimately show ?thesis
    by blast
qed

theorem reset_after_fence_revives_durable_index_witness:
  "\<exists>s1. io_step (file_log_store ex_enc) ((io_init ex_log ex_store)\<lparr>io_task := FsPassed 3 [] (Inr ())\<rparr>) s1
     \<and> io_step (file_log_store ex_enc) s1 (fsync_publish s1)
     \<and> is_empty (io_log (fsync_publish s1)) \<and> last_entry_id (io_log (fsync_publish s1)) = 0
     \<and> durable_index (io_log (fsync_publish s1)) = 3"
  by (rule reset_after_fence_revives_durable_index) simp

text \<open>after a conflict shortened the log, the next allocation leaves a gap: in the run above
  the log ends at index two, and the range allocated for the next entry starts at four, because
  the next free index is never lowered.\<close>

theorem truncation_leaves_allocation_gap:
  "\<exists>l lid. filter_out_conflicts_and_append ex_log 1 1 [mk_entry 2 2 Noop] (Inr ()) = (l, Inr lid)
     \<and> last_entry_id l = 2 \<and> (\<exists>l'. pre_allocate_id_range l 1 = Inr (l', 4, 4))"
  by (simp add: run_simps ex_log_fields ex_log_entries ex_entries_def pre_allocate_id_range_def)

text \<open>C26: the term segments fail when more than 1024 are archived.  Every further change of term
  still counts a segment, and then any lookup below the current segment panics on an array index
  instead of falling back to the entries.\<close>

theorem term_segments_overflow_panics:
  assumes "rl_max l \<noteq> 0" and "0 < rl_min l" and "rl_min l \<le> i" and "i \<le> rl_max l"
    and "MAX_TERM_SEGMENTS \<le> ts_seg_count (rl_segments l)" and "ts_last_term (rl_segments l) \<noteq> 0"
    and "0 < e_term e" and "e_term e \<noteq> ts_last_term (rl_segments l)" and "i < e_index e"
    and "e_index e = Suc (rl_max l)"
  shows "entry_term (insert_to_memory l [e]) i = Inl (Panic ''index out of bounds'')"
proof -
  let ?ts = "ts_on_append_one e (rl_segments l)"
  have "ts_get ?ts i = Inl (Panic ''index out of bounds'')"
    using assms by (intro ts_get_overflow) (auto simp: ts_on_append_one_def Let_def)
  then show ?thesis
    using assms by (auto simp: entry_term_def Let_def)
qed

theorem term_segments_overflow_panics_witness:
  "let l = ex_log\<lparr>rl_segments := (rl_segments ex_log)\<lparr>ts_seg_count := 1024\<rparr>\<rparr>
   in entry_term (insert_to_memory l [mk_entry 4 9 Noop]) 2 = Inl (Panic ''index out of bounds'')"
  unfolding Let_def
  by (rule term_segments_overflow_panics) (simp_all add: ex_log_fields MAX_TERM_SEGMENTS_def)

end
