(* ===== verification/Replication.thy ===== *)
theory Replication
  imports Log_Interface
begin

text \<open>
  The replication handler (\<^verbatim>\<open>d-engine-core/src/replication/replication_handler.rs\<close>): the
  leader's preparation of the requests of a round, its reading of a peer's answer, and the
  follower's treatment of a request.  A \<^verbatim>\<open>HashMap\<close> that is iterated is an association list
  in its iteration order.  The buffered log's \<^verbatim>\<open>get_entries_range\<close> always returns \<^verbatim>\<open>Ok\<close>,
  so the fallback for its failure has no counterpart.
\<close>

record state_snapshot =
  sn_role :: node_role
  sn_current_term :: u64
  sn_voted_for :: "voted_for option"
  sn_commit_index :: u64

record leader_state_snapshot =
  ls_next_index :: "(node_id \<times> u64) list"
  ls_match_index :: "(node_id \<times> u64) list"
  ls_noop_log_id :: "u64 option"

record replication_data =
  rd_leader_last_index_before :: u64
  rd_current_term :: u64
  rd_commit_index :: u64
  rd_peer_next_indices :: "(node_id \<times> u64) list"

datatype peer_entries_result =
    Ready "entry list"
  | PeerNeedSnapshot
  | CorruptGap u64 u64 "u64 option" "u64 option" nat

datatype build_append_outcome =
    Append append_request u64
  | BuildNeedSnapshot

record prepare_result =
  pr_append_requests :: "(node_id \<times> append_request \<times> u64) list"
  pr_snapshot_targets :: "node_id list"

record peer_update =
  pu_match_index :: "u64 option"
  pu_next_index :: u64
  pu_success :: bool

record append_response_with_updates =
  au_response :: append_response
  au_commit_index_update :: "u64 option"

section \<open>New entries\<close>

fun number_entries :: "u64 \<Rightarrow> u64 \<Rightarrow> u64 \<Rightarrow> payload list \<Rightarrow> entry list result" where
  "number_entries trm next_index stop [] = Inr []"
| "number_entries trm next_index stop (p # ps) =
     (if next_index > stop then Inl (IdAllocationOverflow next_index stop)
      else bind_result (number_entries trm (next_index + 1) stop ps)
             (\<lambda>es. Inr (mk_entry next_index trm p # es)))"

definition generate_new_entries ::
    "payload list \<Rightarrow> u64 \<Rightarrow> raft_log \<Rightarrow> raft_log \<times> entry list result" where
  "generate_new_entries entry_payloads current_term l =
     (if entry_payloads = [] then (l, Inr [])
      else (case pre_allocate_id_range l (length entry_payloads) of
              Inl e \<Rightarrow> (l, Inl e)
            | Inr (l1, (start, stop)) \<Rightarrow>
                if stop < start then (l1, Inl (Panic ''assertion failed: id_range is not empty''))
                else (case number_entries current_term start stop entry_payloads of
                        Inl e \<Rightarrow> (l1, Inl e)
                      | Inr es \<Rightarrow> (case insert_batch l1 es of
                                     (l2, Inl e) \<Rightarrow> (l2, Inl e)
                                   | (l2, Inr _) \<Rightarrow> (l2, Inr es)))))"

section \<open>The entries each peer misses\<close>

definition entries_are_contiguous_in_range :: "entry list \<Rightarrow> u64 \<Rightarrow> u64 \<Rightarrow> bool" where
  "entries_are_contiguous_in_range es expected_start expected_end =
     (if expected_end < expected_start then False
      else if expected_end - expected_start + 1 > u64_max then False
      else length es = expected_end - expected_start + 1
           \<and> (\<forall>i < length es. e_index (es ! i) = expected_start + i))"

definition peer_entries ::
    "entry list \<Rightarrow> u64 \<Rightarrow> u64 \<Rightarrow> raft_log \<Rightarrow> u64 \<Rightarrow> u64 \<Rightarrow> peer_entries_result option" where
  "peer_entries new_entries leader_last max_legacy l first_index peer_next_id =
     (let finish = (\<lambda>es. let all = es @ new_entries in if all = [] then None else Some (Ready all)) in
      if leader_last \<ge> peer_next_id then
        if peer_next_id < first_index then Some PeerNeedSnapshot
        else if max_legacy > 0 then
          (let until_index = (if leader_last - peer_next_id \<ge> max_legacy
                              then peer_next_id + max_legacy - 1 else leader_last);
               legacy = get_entries_range l peer_next_id until_index
           in if \<not> entries_are_contiguous_in_range legacy peer_next_id until_index
              then Some (CorruptGap peer_next_id until_index
                     (if legacy = [] then None else Some (e_index (hd legacy)))
                     (if legacy = [] then None else Some (e_index (last legacy)))
                     (length legacy))
              else finish legacy)
        else finish []
      else finish [])"

fun retrieve_to_be_synced_logs_for_peers ::
    "node_id \<Rightarrow> entry list \<Rightarrow> u64 \<Rightarrow> u64 \<Rightarrow> (node_id \<times> u64) list \<Rightarrow> raft_log \<Rightarrow> u64
     \<Rightarrow> (node_id \<times> peer_entries_result) list" where
  "retrieve_to_be_synced_logs_for_peers my_id new_entries leader_last max_legacy [] l first_index = []"
| "retrieve_to_be_synced_logs_for_peers my_id new_entries leader_last max_legacy
       ((pid, peer_next_id) # rest) l first_index =
     (let others = retrieve_to_be_synced_logs_for_peers my_id new_entries leader_last max_legacy
                     rest l first_index in
      if pid = my_id then others
      else (case peer_entries new_entries leader_last max_legacy l first_index peer_next_id of
              None \<Rightarrow> others
            | Some r \<Rightarrow> (pid, r) # others))"

section \<open>The request to one peer\<close>

definition build_append_request ::
    "node_id \<Rightarrow> raft_log \<Rightarrow> node_id \<Rightarrow> (node_id \<Rightarrow> entry list option) \<Rightarrow> replication_data
     \<Rightarrow> (build_append_outcome \<times> (node_id \<Rightarrow> entry list option)) result" where
  "build_append_request my_id l peer_id entries_per_peer data =
     (let recorded_next_index =
            (case map_of (rd_peer_next_indices data) peer_id of Some n \<Rightarrow> n | None \<Rightarrow> 1);
          first_index = first_entry_id l;
          last_index = last_entry_id l;
          next_index = min recorded_next_index (last_index + 1);
          prev_index = next_index - 1
      in bind_result (entry_term l prev_index) (\<lambda>t.
           let send = (\<lambda>prev_log_term.
                 Inr (Append
                   \<lparr>ae_term = rd_current_term data, ae_leader_id = my_id,
                    ae_prev_log_index = prev_index, ae_prev_log_term = prev_log_term,
                    ae_entries = (case entries_per_peer peer_id of Some es \<Rightarrow> es | None \<Rightarrow> []),
                    ae_leader_commit = rd_commit_index data\<rparr> next_index,
                   entries_per_peer(peer_id := None)))
           in case t of
                Some trm \<Rightarrow> send trm
              | None \<Rightarrow>
                  if prev_index = 0 \<and> first_index \<le> 1 then send 0
                  else if prev_index < first_index then Inr (BuildNeedSnapshot, entries_per_peer)
                  else Inl (InconsistentPrevLogTerm peer_id prev_index first_index last_index)))"

text \<open>The loop over the replication targets; a panic of the term lookup ends the call, any
  other error skips the peer.\<close>

fun build_requests ::
    "node_id \<Rightarrow> raft_log \<Rightarrow> node_id set \<Rightarrow> replication_data \<Rightarrow> node_id list
     \<Rightarrow> (node_id \<Rightarrow> entry list option) \<Rightarrow> prepare_result \<Rightarrow> prepare_result result" where
  "build_requests my_id l skip_peers data [] entries_per_peer r = Inr r"
| "build_requests my_id l skip_peers data (peer # targets) entries_per_peer r =
     (if peer \<in> skip_peers then build_requests my_id l skip_peers data targets entries_per_peer r
      else (case build_append_request my_id l peer entries_per_peer data of
              Inr (Append request next_index, epp) \<Rightarrow>
                build_requests my_id l skip_peers data targets epp
                  (r\<lparr>pr_append_requests := pr_append_requests r @ [(peer, request, next_index)]\<rparr>)
            | Inr (BuildNeedSnapshot, epp) \<Rightarrow>
                build_requests my_id l skip_peers data targets epp
                  (r\<lparr>pr_snapshot_targets := pr_snapshot_targets r @ [peer]\<rparr>)
            | Inl (Panic s) \<Rightarrow> Inl (Panic s)
            | Inl e \<Rightarrow> build_requests my_id l skip_peers data targets entries_per_peer r))"

definition ready_entries :: "(node_id \<times> peer_entries_result) list \<Rightarrow> node_id \<Rightarrow> entry list option" where
  "ready_entries rs pid = (case map_of rs pid of Some (Ready es) \<Rightarrow> Some es | _ \<Rightarrow> None)"

definition prepare_batch_requests ::
    "node_id \<Rightarrow> payload list \<Rightarrow> state_snapshot \<Rightarrow> leader_state_snapshot \<Rightarrow> node_meta list
     \<Rightarrow> u64 \<Rightarrow> raft_log \<Rightarrow> raft_log \<times> prepare_result result" where
  "prepare_batch_requests my_id entry_payloads st leader_st replication_targets
       append_entries_max l =
     (let leader_last_index_before = last_entry_id l in
      case generate_new_entries entry_payloads (sn_current_term st) l of
        (l1, Inl e) \<Rightarrow> (l1, Inl e)
      | (l1, Inr new_entries) \<Rightarrow>
          if replication_targets = []
          then (l1, Inr \<lparr>pr_append_requests = [], pr_snapshot_targets = []\<rparr>)
          else
            (let min_log_index = first_entry_id l1;
                 data = \<lparr>rd_leader_last_index_before = leader_last_index_before,
                         rd_current_term = sn_current_term st,
                         rd_commit_index = sn_commit_index st,
                         rd_peer_next_indices = ls_next_index leader_st\<rparr>;
                 results = retrieve_to_be_synced_logs_for_peers my_id new_entries
                             leader_last_index_before append_entries_max
                             (ls_next_index leader_st) l1 min_log_index;
                 snaps = map fst (filter (\<lambda>(_, r). r = PeerNeedSnapshot) results);
                 skip_peers = set (map fst (filter (\<lambda>(_, r). case r of Ready _ \<Rightarrow> False | _ \<Rightarrow> True)
                                              results))
             in (l1, build_requests my_id l1 skip_peers data (map nm_id replication_targets)
                       (ready_entries results)
                       \<lparr>pr_append_requests = [], pr_snapshot_targets = snaps\<rparr>)))"

section \<open>Reading a peer's answer\<close>

definition handle_success_response ::
    "u64 \<Rightarrow> log_id option \<Rightarrow> u64 \<Rightarrow> peer_update result" where
  "handle_success_response peer_term last_match leader_term =
     (let match_log = (case last_match of Some m \<Rightarrow> m | None \<Rightarrow> mk_lid 0 0) in
      if peer_term > leader_term then Inl (HigherTerm peer_term)
      else Inr \<lparr>pu_match_index = Some (lid_index match_log),
                pu_next_index = lid_index match_log + 1, pu_success = True\<rparr>)"

definition handle_conflict_response ::
    "u64 option \<Rightarrow> u64 option \<Rightarrow> raft_log \<Rightarrow> u64 \<Rightarrow> peer_update" where
  "handle_conflict_response conflict_term conflict_index l current_next_index =
     (let next_index =
            (case (conflict_term, conflict_index) of
               (Some trm, Some index) \<Rightarrow>
                 (case last_index_for_term l trm of Some i \<Rightarrow> i + 1 | None \<Rightarrow> index)
             | (None, Some index) \<Rightarrow> index
             | _ \<Rightarrow> current_next_index - 1)
      in \<lparr>pu_match_index = None, pu_next_index = max next_index 1, pu_success = False\<rparr>)"

section \<open>The follower's treatment of a request\<close>

definition if_update_commit_index_as_follower :: "u64 \<Rightarrow> u64 \<Rightarrow> u64 \<Rightarrow> u64 option" where
  "if_update_commit_index_as_follower my_commit_index last_raft_log_id leader_commit_index =
     (if leader_commit_index > my_commit_index
      then Some (min leader_commit_index last_raft_log_id) else None)"

definition check_append_entries_request_is_legal ::
    "node_id \<Rightarrow> u64 \<Rightarrow> append_request \<Rightarrow> raft_log \<Rightarrow> append_response result" where
  "check_append_entries_request_is_legal my_id my_term request l =
     (if my_term > ae_term request then Inr (ar_higher_term my_id my_term)
      else
        (let last_log_id_option = last_log_id l;
             last_id = (case last_log_id_option of Some i \<Rightarrow> lid_index i | None \<Rightarrow> 0)
         in if ae_prev_log_index request = 0 \<and> ae_prev_log_term request = 0
            then Inr (ar_success my_id my_term last_log_id_option)
            else bind_result (entry_term l (ae_prev_log_index request)) (\<lambda>t. Inr (
                   case t of
                     Some trm \<Rightarrow>
                       if trm = ae_prev_log_term request
                       then ar_success my_id my_term
                              (Some (mk_lid (ae_prev_log_term request) (ae_prev_log_index request)))
                       else ar_conflict my_id my_term (Some trm)
                              (Some (case first_index_for_term l trm of Some i \<Rightarrow> i
                                     | None \<Rightarrow> ae_prev_log_index request - 1))
                   | None \<Rightarrow> ar_conflict my_id my_term None (Some (last_id + 1))))))"

definition handle_append_entries ::
    "node_id \<Rightarrow> append_request \<Rightarrow> state_snapshot \<Rightarrow> raft_log \<Rightarrow> unit result
     \<Rightarrow> raft_log \<times> append_response_with_updates result" where
  "handle_append_entries my_id request st l io =
     (let current_term = sn_current_term st;
          last_log_id_option = last_log_id l
      in case check_append_entries_request_is_legal my_id current_term request l of
           Inl e \<Rightarrow> (l, Inl e)
         | Inr response \<Rightarrow>
             if ar_is_conflict response \<or> ar_is_higher_term response
             then (l, Inr \<lparr>au_response = response, au_commit_index_update = None\<rparr>)
             else
               (case (if ae_entries request \<noteq> []
                      then filter_out_conflicts_and_append l (ae_prev_log_index request)
                             (ae_prev_log_term request) (ae_entries request) io
                      else (l, Inr last_log_id_option)) of
                  (l1, Inl e) \<Rightarrow> (l1, Inl e)
                | (l1, Inr matched) \<Rightarrow>
                    (l1, Inr \<lparr>au_response = ar_success my_id current_term matched,
                              au_commit_index_update =
                                if_update_commit_index_as_follower (sn_commit_index st)
                                  (last_entry_id l1) (ae_leader_commit request)\<rparr>)))"

text \<open>The wire encoding of a command (\<^verbatim>\<open>prost\<close>) is a parameter.\<close>

definition client_command_to_entry_payloads :: "('c \<Rightarrow> string) \<Rightarrow> 'c list \<Rightarrow> payload list" where
  "client_command_to_entry_payloads encode commands = map (\<lambda>cmd. Command (encode cmd)) commands"

end
