(* ===== verification/Repl_Rounds.thy ===== *)
theory Repl_Rounds
  imports Replication
begin

text \<open>
  Rounds of replication: what the leader writes to its own log, which entries it selects for
  a peer and what the requests it builds say about its log.  The facts about the log are
  those of the interfaces \<^verbatim>\<open>raft_log_reads\<close> and \<^verbatim>\<open>raft_log_writes\<close>.
\<close>

section \<open>New entries\<close>

lemma number_entries_ok:
  "start + length ps \<le> Suc stop \<Longrightarrow>
   \<exists>es. number_entries t start stop ps = Inr es \<and> contig_from start es \<and> length es = length ps
        \<and> (\<forall>e \<in> set es. e_term e = t) \<and> map e_payload es = map Some ps"
proof (induction ps arbitrary: start)
  case (Cons p ps)
  then have "Suc start + length ps \<le> Suc stop"
    by simp
  from Cons.IH [OF this] obtain es where "number_entries t (Suc start) stop ps = Inr es"
    and "contig_from (Suc start) es" "length es = length ps" "\<forall>e \<in> set es. e_term e = t"
    "map e_payload es = map Some ps"
    by blast
  then show ?case
    using Cons.prems by (auto simp: contig_from_Cons)
qed simp

lemma contig_from_less: "contig_from n es \<Longrightarrow> e \<in> set es \<Longrightarrow> e_index e < n + length es"
  by (induction es arbitrary: n) (force simp: contig_from_Cons)+

lemma ts_count_same_term:
  "\<forall>e \<in> set es. e_term e = t \<Longrightarrow> ts_seg_count (ts_on_append es ts) \<le>
     (if ts_last_term ts = t then ts_seg_count ts else Suc (ts_seg_count ts))"
proof (induction es arbitrary: ts)
  case (Cons e es)
  have "ts_last_term (ts_on_append_one e ts) = t"
    and "ts_seg_count (ts_on_append_one e ts)
           \<le> (if ts_last_term ts = t then ts_seg_count ts else Suc (ts_seg_count ts))"
    using Cons.prems by (auto simp: ts_on_append_one_def Let_def)
  then show ?case
    using Cons.IH [of "ts_on_append_one e ts"] Cons.prems by (auto split: if_splits)
qed simp

text \<open>A leader's log: well formed, accepting writes, with the next index right after the
  last entry and room for one more term segment and for the indexes of the batch.\<close>

definition leader_log :: "raft_log \<Rightarrow> nat \<Rightarrow> bool" where
  "leader_log l k = (log_inv l \<and> \<not> rl_poisoned l \<and> rl_next_id l = Suc (rl_max l)
     \<and> (rl_purged_index l = 0 \<or> rl_entries l \<noteq> [])
     \<and> ts_seg_count (rl_segments l) < MAX_TERM_SEGMENTS \<and> rl_max l + k + 1 < u64_max)"

lemma log_inv_next_id:
  "log_inv l \<Longrightarrow> rl_max l < n \<Longrightarrow> log_inv (l\<lparr>rl_next_id := n\<rparr>)"
  by (simp add: log_inv_def bounds_ok_def terms_ok_def)

lemma generate_new_entries_ok:
  assumes ll: "leader_log l (length ps)" and t: "0 < t"
  shows "\<exists>l' es. generate_new_entries ps t l = (l', Inr es) \<and> log_inv l'
      \<and> rl_entries l' = rl_entries l @ tag es \<and> contig_from (Suc (rl_max l)) es
      \<and> map e_payload es = map Some ps \<and> (\<forall>e \<in> set es. e_term e = t)
      \<and> rl_max l' = rl_max l + length ps \<and> rl_next_id l' = Suc (rl_max l')
      \<and> rl_min l' = (if rl_min l = 0 \<and> ps \<noteq> [] then Suc (rl_max l) else rl_min l)
      \<and> rl_purged_index l' = rl_purged_index l \<and> rl_purged_term l' = rl_purged_term l"
proof (cases "ps = []")
  case True
  then show ?thesis
    using ll by (auto simp: generate_new_entries_def leader_log_def)
next
  case False
  let ?n = "Suc (rl_max l)"
  let ?l1 = "l\<lparr>rl_next_id := ?n + length ps\<rparr>"
  have inv: "log_inv l" and nxt: "rl_next_id l = ?n" and ok: "\<not> rl_poisoned l"
    and room: "rl_max l + length ps + 1 < u64_max" "ts_seg_count (rl_segments l) < MAX_TERM_SEGMENTS"
    using ll by (simp_all add: leader_log_def)
  obtain es where es: "number_entries t ?n (?n + length ps - 1) ps = Inr es" "contig_from ?n es"
    "length es = length ps" "\<forall>e \<in> set es. e_term e = t" "map e_payload es = map Some ps"
    using number_entries_ok [of ?n ps "?n + length ps - 1" t] by auto
  have ne: "es \<noteq> []"
    using es(3) False by auto
  have hd: "e_index (hd es) = ?n" and lst: "e_index (last es) = rl_max l + length ps"
    using contig_from_nth [OF es(2), of 0] contig_from_last [OF es(2) ne] ne es(3) False
    by (simp_all add: hd_conv_nth)
  have "e_index e \<le> rl_max l + length ps" if "e \<in> set es" for e
    using contig_from_less [OF es(2) that] es(3) by simp
  then have oks: "\<forall>e \<in> set es. entry_ok e"
    using contig_from_ge [OF es(2)] es(4) t room by (force simp: entry_ok_def)
  have app: "appendable ?l1 es"
    using ne oks es(2) hd ts_count_same_term [OF es(4), of "rl_segments l"] room(2)
    by (auto simp: appendable_def split: if_splits)
  have inv1: "log_inv ?l1"
    using inv by (rule log_inv_next_id) simp
  have gen: "generate_new_entries ps t l = ((insert_to_memory ?l1 es)\<lparr>rl_notified := True\<rparr>, Inr es)"
    using False es(1) ne ok nxt room
    by (simp add: generate_new_entries_def pre_allocate_id_range_def insert_batch_def append_entries_ok
        Let_def)
  have min0: "rl_min l = 0 \<longleftrightarrow> rl_entries l = []"
    using inv log_inv_min_le(1) [OF inv]
    by (cases "rl_entries l = []") (auto simp: log_inv_def bounds_ok_def)
  show ?thesis
    using gen insert_to_memory_inv [OF inv1 app] es insert_to_memory_max [OF inv1 app]
      insert_to_memory_min [OF inv1 app] hd lst False min0 max_entry_index_contig [OF es(2) ne]
    by auto
qed

section \<open>The entries selected for a peer\<close>

lemma contiguous_iff:
  "entries_are_contiguous_in_range es a b
     \<longleftrightarrow> a \<le> b \<and> b - a + 1 \<le> u64_max \<and> map e_index es = [a ..< Suc b]"
proof -
  have "(length es = b - a + 1 \<and> (\<forall>i < length es. e_index (es ! i) = a + i)) \<longleftrightarrow> map e_index es = [a ..< Suc b]"
    if "a \<le> b"
    using that by (auto simp: list_eq_iff_nth_eq simp del: upt_Suc)
  then show ?thesis
    by (auto simp: entries_are_contiguous_in_range_def)
qed

text \<open>A well-formed log has no corrupt gap: the range a peer misses is read completely.\<close>

lemma legacy_contiguous:
  assumes inv: "log_inv l" and "first_entry_id l \<le> a" and "0 < a" and "a \<le> b" and "b \<le> last_entry_id l"
  shows "entries_are_contiguous_in_range (get_entries_range l a b) a b"
proof -
  have "\<exists>e. entry l b = Some e"
    using brl.entry_dom [OF inv, of b] assms by auto
  then have "b < u64_max"
    using entry_fields(1,2) [OF inv] by (auto simp: entry_ok_def)
  then show ?thesis
    using brl.range_full [OF inv _ assms(2,4,5)] assms by (simp add: contiguous_iff del: upt_Suc)
qed

lemma peer_entries_ok:
  assumes inv: "log_inv l" and nx: "0 < nx" and le: "lst \<le> last_entry_id l" and mx: "0 < mx"
    and hi: "nx \<le> Suc lst" and new: "contig_from (Suc lst) new"
    and lag: "new = [] \<or> lst - nx < mx"
    and first: "nx \<le> lst \<Longrightarrow> first_entry_id l \<le> nx"
  defines "r \<equiv> peer_entries new lst mx l (first_entry_id l) nx"
  shows "r = None \<and> nx = Suc lst \<and> new = []
     \<or> (\<exists>es. r = Some (Ready es) \<and> es \<noteq> [] \<and> contig_from nx es
          \<and> (lst - nx < mx \<longrightarrow> nx + length es = Suc lst + length new)
          \<and> (\<forall>e \<in> set es. e \<in> set new \<or> entry l (e_index e) = Some e))"
proof (cases "nx \<le> lst")
  case False
  moreover from this have "nx = Suc lst"
    using hi by simp
  ultimately show ?thesis
    using new by (auto simp: r_def peer_entries_def Let_def)
next
  case True
  define b where "b = (if lst - nx \<ge> mx then nx + mx - 1 else lst)"
  have b: "nx \<le> b" "b \<le> lst" and cap: "new \<noteq> [] \<Longrightarrow> b = lst"
    using True mx lag by (auto simp: b_def)
  let ?es = "get_entries_range l nx b"
  have con: "entries_are_contiguous_in_range ?es nx b"
    using legacy_contiguous [OF inv first [OF True] nx b(1)] b(2) le by simp
  then have cf: "contig_from nx ?es" and len: "length ?es = Suc b - nx"
    by (auto simp: contiguous_iff contig_from_def simp del: upt_Suc dest: arg_cong [of _ _ length])
  have ne: "?es \<noteq> []"
    using len b(1) by auto
  have "r = Some (Ready (?es @ new))"
    using True first [OF True] mx con ne by (simp add: r_def peer_entries_def Let_def b_def [symmetric])
  moreover have "contig_from nx (?es @ new)"
    using cf len cap new b by (cases "new = []") (auto simp: contig_append_iff)
  moreover have "nx + length (?es @ new) = Suc lst + length new" if "lst - nx < mx"
    using that len b by (simp add: b_def)
  ultimately show ?thesis
    using ne brl.range_mem [OF inv] by auto
qed

lemma retrieve_map_of:
  "distinct (map fst nexts) \<Longrightarrow> p \<noteq> me \<Longrightarrow>
   map_of (retrieve_to_be_synced_logs_for_peers me new lst mx nexts l fi) p =
     (case map_of nexts p of None \<Rightarrow> None | Some nx \<Rightarrow> peer_entries new lst mx l fi nx)"
proof (induction me new lst mx nexts l fi rule: retrieve_to_be_synced_logs_for_peers.induct)
  case (2 me new lst mx q nx rest l fi)
  then have "p = q \<Longrightarrow> map_of rest p = None"
    by (auto simp: map_of_eq_None_iff)
  then show ?case
    using 2 by (auto simp: Let_def split: option.splits)
qed simp

lemma retrieve_distinct:
  "distinct (map fst nexts) \<Longrightarrow>
   distinct (map fst (retrieve_to_be_synced_logs_for_peers me new lst mx nexts l fi))
   \<and> fst ` set (retrieve_to_be_synced_logs_for_peers me new lst mx nexts l fi) \<subseteq> fst ` set nexts"
  by (induction me new lst mx nexts l fi rule: retrieve_to_be_synced_logs_for_peers.induct)
    (auto simp: Let_def split: option.splits)

section \<open>The requests of a round\<close>

definition built_requests ::
    "node_id \<Rightarrow> raft_log \<Rightarrow> (node_id \<Rightarrow> entry list option) \<Rightarrow> replication_data \<Rightarrow> node_id
     \<Rightarrow> (node_id \<times> append_request \<times> u64) list" where
  "built_requests me l epp data p = (case build_append_request me l p epp data of
     Inr (Append q n, _) \<Rightarrow> [(p, q, n)] | _ \<Rightarrow> [])"

definition built_snapshots ::
    "node_id \<Rightarrow> raft_log \<Rightarrow> (node_id \<Rightarrow> entry list option) \<Rightarrow> replication_data \<Rightarrow> node_id
     \<Rightarrow> node_id list" where
  "built_snapshots me l epp data p = (case build_append_request me l p epp data of
     Inr (BuildNeedSnapshot, _) \<Rightarrow> [p] | _ \<Rightarrow> [])"

definition eff_next :: "raft_log \<Rightarrow> replication_data \<Rightarrow> node_id \<Rightarrow> u64" where
  "eff_next l data p = min (case map_of (rd_peer_next_indices data) p of Some n \<Rightarrow> n | None \<Rightarrow> 1)
                           (last_entry_id l + 1)"

definition request_to ::
    "node_id \<Rightarrow> replication_data \<Rightarrow> u64 \<Rightarrow> u64 \<Rightarrow> entry list option \<Rightarrow> append_request" where
  "request_to me data prev t es =
     \<lparr>ae_term = rd_current_term data, ae_leader_id = me, ae_prev_log_index = prev,
      ae_prev_log_term = t, ae_entries = (case es of Some xs \<Rightarrow> xs | None \<Rightarrow> []),
      ae_leader_commit = rd_commit_index data\<rparr>"

lemma build_exact:
  fixes l data p
  assumes "log_inv l"
  defines "n \<equiv> eff_next l data p"
  shows "build_append_request me l p epp data =
     (case term_at l (n - 1) of
        Some t \<Rightarrow> Inr (Append (request_to me data (n - 1) t (epp p)) n, epp(p := None))
      | None \<Rightarrow>
          if n - 1 = 0 \<and> first_entry_id l \<le> 1
          then Inr (Append (request_to me data (n - 1) 0 (epp p)) n, epp(p := None))
          else if n - 1 < first_entry_id l then Inr (BuildNeedSnapshot, epp)
          else Inl (InconsistentPrevLogTerm p (n - 1) (first_entry_id l) (last_entry_id l)))"
  unfolding build_append_request_def Let_def entry_term_exact [OF assms(1)] request_to_def n_def eff_next_def
  by (simp only: bind_result_simps)

lemma build_cases:
  assumes "log_inv l"
  obtains (sent) q n where "build_append_request me l p epp data = Inr (Append q n, epp(p := None))"
    | (snap) "build_append_request me l p epp data = Inr (BuildNeedSnapshot, epp)"
    | (bad) a b c where "build_append_request me l p epp data = Inl (InconsistentPrevLogTerm p a b c)"
proof -
  have "(\<exists>q n. build_append_request me l p epp data = Inr (Append q n, epp(p := None)))
      \<or> build_append_request me l p epp data = Inr (BuildNeedSnapshot, epp)
      \<or> (\<exists>a b c. build_append_request me l p epp data = Inl (InconsistentPrevLogTerm p a b c))"
    unfolding build_exact [OF assms] by (simp split: option.split)
  then show thesis
    using sent snap bad by blast
qed

lemma built_cong:
  assumes "log_inv l" and "epp p = epp' p"
  shows "built_requests me l epp data p = built_requests me l epp' data p"
    and "built_snapshots me l epp data p = built_snapshots me l epp' data p"
  by (simp_all add: built_requests_def built_snapshots_def build_exact [OF assms(1)] assms(2)
      split: option.split)

lemma build_requests_exact:
  assumes inv: "log_inv l"
  shows "distinct ts \<Longrightarrow> build_requests me l skip data ts epp r =
     Inr (r\<lparr>pr_append_requests := pr_append_requests r
               @ concat (map (built_requests me l epp data) (filter (\<lambda>p. p \<notin> skip) ts)),
            pr_snapshot_targets := pr_snapshot_targets r
               @ concat (map (built_snapshots me l epp data) (filter (\<lambda>p. p \<notin> skip) ts))\<rparr>)"
proof (induction ts arbitrary: epp r)
  case (Cons p ts)
  have same: "concat (map (built_requests me l (epp(p := None)) data) (filter (\<lambda>p. p \<notin> skip) ts))
      = concat (map (built_requests me l epp data) (filter (\<lambda>p. p \<notin> skip) ts))"
    "concat (map (built_snapshots me l (epp(p := None)) data) (filter (\<lambda>p. p \<notin> skip) ts))
      = concat (map (built_snapshots me l epp data) (filter (\<lambda>p. p \<notin> skip) ts))"
    using Cons.prems by (auto intro!: arg_cong [of _ _ concat] map_cong built_cong [OF inv])
  show ?case
  proof (cases "p \<in> skip")
    case False
    show ?thesis
      using Cons same False
      by (cases rule: build_cases [OF inv, of me p epp data])
        (simp_all add: built_requests_def [of _ _ _ _ p] built_snapshots_def [of _ _ _ _ p])
  qed (use Cons in simp)
qed simp

text \<open>What a request says about the leader's log \<^verbatim>\<open>l\<close>: it starts at \<^verbatim>\<open>nx\<close>, carries
  consecutive entries of the log, and names the entry before them.\<close>

definition request_matches :: "raft_log \<Rightarrow> u64 \<Rightarrow> append_request \<Rightarrow> bool" where
  "request_matches l nx q =
     (Suc (ae_prev_log_index q) = nx \<and> contig_from nx (ae_entries q)
      \<and> (\<forall>e \<in> set (ae_entries q). entry l (e_index e) = Some e)
      \<and> (term_at l (nx - 1) = Some (ae_prev_log_term q) \<or> nx = 1 \<and> ae_prev_log_term q = 0))"

text \<open>A peer the leader can serve from its log with one request that leaves nothing out.\<close>

definition servable :: "raft_log \<Rightarrow> u64 \<Rightarrow> payload list \<Rightarrow> u64 \<Rightarrow> bool" where
  "servable l mx ps nx =
     (0 < nx \<and> nx \<le> Suc (last_entry_id l) \<and> first_entry_id l \<le> nx
      \<and> (nx = 1 \<or> term_at l (nx - 1) \<noteq> None)
      \<and> (ps = [] \<or> last_entry_id l - nx < mx))"

lemma term_at_append:
  assumes "log_inv l" and "rl_entries l' = rl_entries l @ tag es" and "contig_from (Suc (rl_max l)) es"
    and "rl_purged_index l' = rl_purged_index l" and "rl_purged_term l' = rl_purged_term l" and "i \<le> rl_max l"
  shows "term_at l' i = term_at l i" and "entry l' i = entry l i"
proof -
  have "map_of (tag es) i = None"
    using assms(3,6) contig_from_ge [OF assms(3)] by (force simp: map_of_eq_None_iff set_tag)
  then show "entry l' i = entry l i"
    using assms(2) by (auto simp: entry_def om_get_def map_add_def split: option.splits)
  then show "term_at l' i = term_at l i"
    by (simp add: term_at_def assms split: option.split)
qed

lemma filter_concat_key:
  assumes "distinct ts" and "p \<in> set ts" and "\<And>q x. x \<in> set (f q) \<Longrightarrow> fst x = q"
  shows "filter (\<lambda>x. fst x = p) (concat (map f ts)) = f p"
  using assms(1,2)
proof (induction ts)
  case (Cons q ts)
  have hit: "filter (\<lambda>x. fst x = p) (f p) = f p"
    using assms(3) by (simp add: filter_id_conv)
  have "filter (\<lambda>x. fst x = p) (f q) = []" if "q \<noteq> p"
    using assms(3) that by (auto simp: filter_empty_conv)
  moreover have "filter (\<lambda>x. fst x = p) (concat (map f ts)) = []" if "p \<notin> set ts"
    using assms(3) that by (force simp: filter_empty_conv)
  ultimately show ?case
    using Cons hit by (cases "q = p") auto
qed simp

lemma built_requests_fst: "x \<in> set (built_requests me l epp data q) \<Longrightarrow> fst x = q"
  by (auto simp: built_requests_def split: sum.splits build_append_outcome.splits)

lemma servable_request:
  assumes inv: "log_inv l" and inv': "log_inv l'"
    and ents: "rl_entries l' = rl_entries l @ tag es" and con: "contig_from (Suc (rl_max l)) es"
    and mx': "rl_max l' = rl_max l + length es"
    and mn': "rl_min l' = (if rl_min l = 0 \<and> es \<noteq> [] then Suc (rl_max l) else rl_min l)"
    and pg: "rl_purged_index l' = rl_purged_index l" "rl_purged_term l' = rl_purged_term l"
    and sv: "servable l mx ps nx" and ps: "ps = [] \<longleftrightarrow> es = []" and mx: "0 < mx"
    and data: "map_of (rd_peer_next_indices data) p = Some nx"
    and epp: "epp p = (case peer_entries es (last_entry_id l) mx l' (first_entry_id l') nx of
                         Some (Ready xs) \<Rightarrow> Some xs | _ \<Rightarrow> None)"
  shows "\<exists>q. built_requests me l' epp data p = [(p, q, nx)] \<and> request_matches l' nx q
     \<and> (last_entry_id l - nx < mx \<longrightarrow> nx + length (ae_entries q) = Suc (last_entry_id l'))"
    and "peer_entries es (last_entry_id l) mx l' (first_entry_id l') nx = None
     \<or> (\<exists>xs. peer_entries es (last_entry_id l) mx l' (first_entry_id l') nx = Some (Ready xs))"
proof -
  have nx: "0 < nx" "nx \<le> Suc (rl_max l)" "rl_min l \<le> nx" "nx = 1 \<or> term_at l (nx - 1) \<noteq> None"
    "es = [] \<or> rl_max l - nx < mx"
    using sv ps by (auto simp: servable_def last_entry_id_def first_entry_id_def)
  have min0: "rl_max l = 0" if "rl_min l = 0"
    using inv log_inv_min_le(1) [OF inv] that by (cases "rl_entries l = []") (auto simp: log_inv_def bounds_ok_def)
  have mem: "entry l' (e_index e) = Some e" if "e \<in> set es" for e
    using that om_get_Some_iff [OF log_inv_wf [OF inv']] by (auto simp: entry_def ents set_tag)
  have first': "first_entry_id l' \<le> nx"
    using nx mn' min0 by (auto simp: first_entry_id_def split: if_splits)
  have sel: "peer_entries es (last_entry_id l) mx l' (first_entry_id l') nx = None
        \<and> nx = Suc (last_entry_id l) \<and> es = []
     \<or> (\<exists>xs. peer_entries es (last_entry_id l) mx l' (first_entry_id l') nx = Some (Ready xs)
          \<and> xs \<noteq> [] \<and> contig_from nx xs
          \<and> (last_entry_id l - nx < mx \<longrightarrow> nx + length xs = Suc (last_entry_id l) + length es)
          \<and> (\<forall>e \<in> set xs. e \<in> set es \<or> entry l' (e_index e) = Some e))"
    using nx con mx' first' mx by (intro peer_entries_ok [OF inv']) (auto simp: last_entry_id_def)
  define xs where "xs = (case epp p of Some ys \<Rightarrow> ys | None \<Rightarrow> [])"
  have xs: "contig_from nx xs" "\<forall>e \<in> set xs. entry l' (e_index e) = Some e"
    "last_entry_id l - nx < mx \<longrightarrow> nx + length xs = Suc (last_entry_id l')"
    using sel mem mx' epp by (elim disjE exE conjE; auto simp: xs_def last_entry_id_def)+
  show "peer_entries es (last_entry_id l) mx l' (first_entry_id l') nx = None
     \<or> (\<exists>xs. peer_entries es (last_entry_id l) mx l' (first_entry_id l') nx = Some (Ready xs))"
    using sel by blast
  have eff: "eff_next l' data p = nx"
    using nx mx' by (simp add: eff_next_def data last_entry_id_def)
  have trm: "term_at l' (nx - 1) = term_at l (nx - 1)"
    using term_at_append [OF inv ents con pg] nx by simp
  define t where "t = (case term_at l (nx - 1) of Some t \<Rightarrow> t | None \<Rightarrow> 0)"
  have "build_append_request me l' p epp data
        = Inr (Append (request_to me data (nx - 1) t (epp p)) nx, epp(p := None))"
    using nx first' trm unfolding build_exact [OF inv'] eff t_def by (auto split: option.split)
  then have "built_requests me l' epp data p = [(p, request_to me data (nx - 1) t (epp p), nx)]"
    by (simp add: built_requests_def)
  moreover have "request_matches l' nx (request_to me data (nx - 1) t (epp p))"
    using nx xs trm by (auto simp: request_matches_def request_to_def t_def xs_def [symmetric]
        split: option.splits)
  ultimately show "\<exists>q. built_requests me l' epp data p = [(p, q, nx)] \<and> request_matches l' nx q
     \<and> (last_entry_id l - nx < mx \<longrightarrow> nx + length (ae_entries q) = Suc (last_entry_id l'))"
    using xs(3) by (auto simp: request_to_def xs_def [symmetric])
qed

lemma prepare_served:
  assumes ll: "leader_log l (length ps)" and t: "0 < sn_current_term st" and mx: "0 < mx"
    and dn: "distinct (map fst (ls_next_index ls))" and dt: "distinct (map nm_id targets)"
  shows "\<exists>l' r es. prepare_batch_requests me ps st ls targets mx l = (l', Inr r) \<and> log_inv l'
     \<and> rl_entries l' = rl_entries l @ tag es \<and> map e_payload es = map Some ps
     \<and> (\<forall>e \<in> set es. e_term e = sn_current_term st)
     \<and> (\<forall>p nx. p \<in> nm_id ` set targets \<and> p \<noteq> me \<and> map_of (ls_next_index ls) p = Some nx
          \<and> servable l mx ps nx \<longrightarrow>
          (\<exists>q. filter (\<lambda>x. fst x = p) (pr_append_requests r) = [(p, q, nx)] \<and> request_matches l' nx q
             \<and> (last_entry_id l - nx < mx \<longrightarrow> nx + length (ae_entries q) = Suc (last_entry_id l'))))"
proof (cases "targets = []")
  case True
  then show ?thesis
    using generate_new_entries_ok [OF ll t] by (auto simp: prepare_batch_requests_def Let_def)
next
  case False
  obtain l' es where gen: "generate_new_entries ps (sn_current_term st) l = (l', Inr es)" and inv': "log_inv l'"
    and ents: "rl_entries l' = rl_entries l @ tag es" and con: "contig_from (Suc (rl_max l)) es"
    and pay: "map e_payload es = map Some ps" and trm: "\<forall>e \<in> set es. e_term e = sn_current_term st"
    and mx': "rl_max l' = rl_max l + length ps"
    and mn': "rl_min l' = (if rl_min l = 0 \<and> ps \<noteq> [] then Suc (rl_max l) else rl_min l)"
    and pg: "rl_purged_index l' = rl_purged_index l" "rl_purged_term l' = rl_purged_term l"
    using generate_new_entries_ok [OF ll t] by blast
  have len: "length es = length ps" "ps = [] \<longleftrightarrow> es = []"
    using arg_cong [OF pay, of length] by auto
  have inv: "log_inv l"
    using ll by (simp add: leader_log_def)
  define data where "data = \<lparr>rd_leader_last_index_before = last_entry_id l,
      rd_current_term = sn_current_term st, rd_commit_index = sn_commit_index st,
      rd_peer_next_indices = ls_next_index ls\<rparr>"
  define res where "res = retrieve_to_be_synced_logs_for_peers me es (last_entry_id l) mx
      (ls_next_index ls) l' (first_entry_id l')"
  define skip where "skip = set (map fst (filter (\<lambda>(_, r). case r of Ready _ \<Rightarrow> False | _ \<Rightarrow> True) res))"
  define r where "r = \<lparr>pr_append_requests
         = concat (map (built_requests me l' (ready_entries res) data) (filter (\<lambda>p. p \<notin> skip) (map nm_id targets))),
      pr_snapshot_targets = map fst (filter (\<lambda>(_, r). r = PeerNeedSnapshot) res)
         @ concat (map (built_snapshots me l' (ready_entries res) data) (filter (\<lambda>p. p \<notin> skip) (map nm_id targets)))\<rparr>"
  have prep: "prepare_batch_requests me ps st ls targets mx l = (l', Inr r)"
    unfolding prepare_batch_requests_def Let_def gen prod.case sum.case
      data_def [symmetric] res_def [symmetric] skip_def [symmetric] build_requests_exact [OF inv' dt]
    using False by (simp add: r_def)
  have dres: "distinct (map fst res)"
    unfolding res_def using retrieve_distinct [OF dn] by blast
  have serve: "\<exists>q. filter (\<lambda>x. fst x = p) (pr_append_requests r) = [(p, q, nx)] \<and> request_matches l' nx q
       \<and> (last_entry_id l - nx < mx \<longrightarrow> nx + length (ae_entries q) = Suc (last_entry_id l'))"
    if p: "p \<in> nm_id ` set targets" "p \<noteq> me" "map_of (ls_next_index ls) p = Some nx" "servable l mx ps nx" for p nx
  proof -
    have rp: "map_of res p = peer_entries es (last_entry_id l) mx l' (first_entry_id l') nx"
      unfolding res_def retrieve_map_of [OF dn p(2)] p(3) by simp
    have epp: "ready_entries res p = (case peer_entries es (last_entry_id l) mx l' (first_entry_id l') nx of
                 Some (Ready xs) \<Rightarrow> Some xs | _ \<Rightarrow> None)"
      by (simp add: ready_entries_def rp)
    have m: "rl_max l' = rl_max l + length es" "rl_min l' = (if rl_min l = 0 \<and> es \<noteq> [] then Suc (rl_max l) else rl_min l)"
      "map_of (rd_peer_next_indices data) p = Some nx"
      using mx' mn' len p(3) by (simp_all add: data_def)
    note req = servable_request [OF inv inv' ents con m(1,2) pg p(4) len(2) mx m(3),
        where epp = "ready_entries res", OF epp]
    have "p \<notin> skip"
      using req(2) map_of_is_SomeI [OF dres] rp
      by (fastforce simp: skip_def split: peer_entries_result.splits)
    then have "filter (\<lambda>x. fst x = p) (pr_append_requests r) = built_requests me l' (ready_entries res) data p"
      unfolding r_def using p(1) dt by (simp add: filter_concat_key built_requests_fst)
    then show ?thesis
      using req(1) by simp
  qed
  show ?thesis
    using prep inv' ents pay trm serve by blast
qed

end
