(* ===== verification/Repl_Follower.thy ===== *)
theory Repl_Follower
  imports Repl_Rounds Log_Properties
begin

text \<open>
  The other half of a round: a follower that accepts a request ends with the leader's entries,
  and a follower that refuses it sends the leader back to an earlier position.
\<close>

lemma map_of_tag: "distinct (map e_index es) \<Longrightarrow> e \<in> set es \<Longrightarrow> map_of (tag es) (e_index e) = Some e"
  by (simp add: map_of_eq_Some_iff set_tag)

lemma raft_append_below:
  "\<forall>e \<in> set es. i < e_index e \<Longrightarrow> om_get (raft_append m es) i = om_get m i"
proof (induction es)
  case (Cons e es)
  have "map_of (tag (e # es)) i = None"
    using Cons.prems by (auto simp: map_of_eq_None_iff set_tag)
  then show ?case
    using Cons map_of_filter_fst [of "\<lambda>k. k < e_index e" m i]
    by (auto simp: om_get_def map_add_def split: option.splits)
qed simp

text \<open>An accepted batch is in the log, provided entries of equal index and term are equal.\<close>

lemma raft_append_holds:
  assumes "sorted_wrt (<) (map e_index es)"
    and "\<forall>e \<in> set es. \<forall>e'. om_get m (e_index e) = Some e' \<and> e_term e' = e_term e \<longrightarrow> e' = e"
    and "e \<in> set es"
    and "\<forall>e \<in> set es. om_get m (e_index e) = None \<longrightarrow> (\<forall>b \<in> set m. fst b < e_index e)"
  shows "om_get (raft_append m es) (e_index e) = Some e"
  using assms
proof (induction es)
  case (Cons a es)
  have dist: "distinct (map e_index (a # es))"
    using Cons.prems(1) strict_sorted_iff by blast
  have tl: "om_get (raft_append m es) (e_index a) = om_get m (e_index a)"
    using Cons.prems(1) by (intro raft_append_below) auto
  have hit: "map_of (tag (a # es)) (e_index e) = Some e"
    using map_of_tag [OF dist Cons.prems(3)] by simp
  have miss: "map_of (filter (\<lambda>b. fst b < e_index a) m) (e_index e) = None"
    using Cons.prems map_of_filter_fst [of "\<lambda>k. k < e_index a" m "e_index e"] by auto
  show ?case
  proof (cases "om_get m (e_index a)")
    case None
    then have "map_of m (e_index e) = None"
      using Cons.prems by (force simp: map_of_eq_None_iff)
    then show ?thesis
      using None hit by (simp add: om_get_def map_add_def)
  next
    case (Some a')
    show ?thesis
    proof (cases "e_term a' = e_term a")
      case True
      then have "a' = a"
        using Cons.prems(2) Some by simp
      have "om_get (raft_append m es) (e_index e) = Some e"
      proof (cases "e = a")
        case True
        then show ?thesis
          using tl Some \<open>a' = a\<close> by simp
      next
        case False
        then show ?thesis
          using Cons.prems by (intro Cons.IH) simp_all
      qed
      then show ?thesis
        using True Some by simp
    next
      case False
      then show ?thesis
        using Some hit miss by (simp add: om_get_def map_add_def)
    qed
  qed
qed simp

section \<open>Accepting a request\<close>

text \<open>A follower's log that can take the request: well formed, accepting writes, with room
  in the term segments.\<close>

definition follower_log :: "raft_log \<Rightarrow> nat \<Rightarrow> bool" where
  "follower_log f k = (log_inv f \<and> boundary_ok f \<and> \<not> rl_poisoned f
     \<and> ts_seg_count (rl_segments f) + k \<le> MAX_TERM_SEGMENTS)"

text \<open>Log matching between two logs, as the Raft paper states it: entries of equal index and
  term are equal, and so are all entries below them that both logs still hold.  For the search
  it is enough that a term that occurs at \<^verbatim>\<open>i\<close> in the one log and above \<^verbatim>\<open>i\<close> in the other also
  occurs at \<^verbatim>\<open>i\<close> there, unless that position is purged.\<close>

definition logs_match :: "raft_log \<Rightarrow> raft_log \<Rightarrow> bool" where
  "logs_match f l = (\<forall>k a b. entry f k = Some a \<and> entry l k = Some b \<and> e_term a = e_term b
     \<longrightarrow> (\<forall>i \<le> k. entry f i \<noteq> None \<and> entry l i \<noteq> None \<longrightarrow> entry f i = entry l i))"

definition log_matching :: "raft_log \<Rightarrow> raft_log \<Rightarrow> bool" where
  "log_matching f l = (\<forall>t i j. term_at f i = Some t \<and> term_at l j = Some t \<and> i < j
                         \<longrightarrow> term_at l i = None \<or> term_at l i = Some t)"

lemma check_accepts:
  assumes inv: "log_inv f" and trm: "t \<le> ae_term q"
    and prev: "term_at f (ae_prev_log_index q) = Some (ae_prev_log_term q)
       \<or> ae_prev_log_index q = 0 \<and> ae_prev_log_term q = 0"
  shows "\<exists>m. check_append_entries_request_is_legal me t q f = Inr (ar_success me t m)"
  using assms by (auto simp: check_append_entries_request_is_legal_def entry_term_exact Let_def)

lemma ar_success_tests [simp]:
  "\<not> ar_is_conflict (ar_success n t m)" "\<not> ar_is_higher_term (ar_success n t m)"
  "ar_is_success (ar_success n t m)"
  by (simp_all add: ar_is_conflict_def ar_is_higher_term_def ar_is_success_def ar_success_def)

lemma follower_append:
  assumes fl: "follower_log f (length es)" and ne: "es \<noteq> []"
    and con: "contig_from (Suc prev) es" and ok: "\<forall>e \<in> set es. entry_ok e" and srt: "sorted (map e_term es)"
    and prev: "term_at f prev = Some t \<and> 0 < t \<or> prev = 0 \<and> t = 0"
    and same: "\<forall>e \<in> set es. \<forall>e'. entry f (e_index e) = Some e' \<and> e_term e' = e_term e \<longrightarrow> e' = e"
  shows "\<exists>f'. filter_out_conflicts_and_append f prev t es (Inr ()) = (f', Inr (last_lid es))
     \<and> log_inv f' \<and> (\<forall>e \<in> set es. entry f' (e_index e) = Some e)
     \<and> (\<forall>i. 0 < i \<and> i \<le> prev \<longrightarrow> entry f' i = entry f i)"
proof (cases "prev = 0 \<and> t = 0")
  case True
  have "good_request f 0 es"
    using con ok srt fl True by (simp add: good_request_def follower_log_def)
  then obtain f' where "filter_out_conflicts_and_append f 0 0 es (Inr ()) = (f', Inr (last_lid es))"
    and "rl_entries f' = tag es" and "log_inv f'"
    using first_request_replaces [of f es] fl by (auto simp: follower_log_def)
  moreover have "map_of (tag es) (e_index e) = Some e" if "e \<in> set es" for e
    using map_of_tag [OF _ that] contig_from_sorted [OF con] by (simp add: strict_sorted_iff)
  ultimately show ?thesis
    using True by (auto simp: entry_def om_get_def)
next
  case False
  have inv: "log_inv f" and bnd: "boundary_ok f"
    using fl by (simp_all add: follower_log_def)
  have good: "good_request f prev es"
    using con ok srt fl by (simp add: good_request_def follower_log_def)
  have tp: "term_at f prev = Some t"
    using prev False by auto
  have below: "\<forall>b \<in> set (rl_entries f). fst b < e_index e"
    if "e \<in> set es" and "om_get (rl_entries f) (e_index e) = None" for e
  proof (cases "rl_entries f = []")
    case ne': False
    have "\<not> (rl_min f \<le> e_index e \<and> e_index e \<le> rl_max f)"
      using that(2) entry_in_range [OF inv, of "e_index e"] log_inv_min_le [OF inv ne'] by (auto simp: entry_def)
    then have "rl_max f < e_index e"
      using prev_position [OF inv bnd tp ne'] contig_from_ge [OF con that(1)] by auto
    then show ?thesis
      using log_inv_key_range(2) [OF inv] by fastforce
  qed simp
  obtain f' where "filter_out_conflicts_and_append f prev t es (Inr ()) = (f', Inr (last_lid es))"
    and ents: "rl_entries f' = raft_append (rl_entries f) es" and "log_inv f'"
    using filter_out_refines [OF inv bnd _ False tp good] fl by (auto simp: follower_log_def)
  moreover have "om_get (raft_append (rl_entries f) es) (e_index e) = Some e" if "e \<in> set es" for e
    using same below by (intro raft_append_holds [OF contig_from_sorted [OF con] _ that]) (auto simp: entry_def)
  moreover have "om_get (raft_append (rl_entries f) es) i = om_get (rl_entries f) i" if "i \<le> prev" for i
    using that contig_from_ge [OF con] by (intro raft_append_below) fastforce
  ultimately show ?thesis
    by (auto simp: entry_def)
qed

text \<open>Two logs with matching terms at a position agree at every position up to it that both
  still hold: below a purge boundary there is nothing to compare.\<close>

lemma agree_below:
  assumes "log_inv f" and "log_inv l" and "boundary_ok f" and "boundary_ok l" and "logs_match f l"
    and "term_at f k = Some t" and "term_at l k = Some t" and "i \<le> k"
    and "entry f i \<noteq> None" and "entry l i \<noteq> None"
  shows "entry f i = entry l i"
proof (cases "entry f k = None \<or> entry l k = None")
  case True
  then obtain x where x: "x = f \<or> x = l" "entry x k = None" "term_at x k = Some t" "entry x i \<noteq> None"
    "log_inv x" "boundary_ok x"
    using assms by blast
  then have k: "0 < rl_purged_index x" "k = rl_purged_index x"
    by (auto simp: term_at_def split: option.splits if_splits)
  have ne: "rl_entries x \<noteq> []" and ge: "rl_min x \<le> i"
    using x(4) entry_in_range [OF x(5), of i] by (auto simp: entry_def om_get_def)
  have "fst (hd (rl_entries x)) = Suc k" and "fst (hd (rl_entries x)) = rl_min x"
    using x(6) k ne log_inv_keys [OF x(5) ne] hd_map [OF ne, of fst] log_inv_min_le [OF x(5) ne]
    by (auto simp: boundary_ok_def upt_conv_Cons simp del: upt_Suc)
  then show ?thesis
    using ge assms(8) by simp
next
  case False
  then obtain a b where "entry f k = Some a" "entry l k = Some b" "e_term a = e_term b"
    using assms(6,7) by (auto simp: term_at_def)
  then show ?thesis
    using assms(5,8-10) unfolding logs_match_def by blast
qed

section \<open>Searching for the last matching entry\<close>

text \<open>One exchange of the search: the leader builds a request for its current next index, the
  follower checks it, and the leader reads the answer.  An accepted request ends the search at
  the next index it was built for.\<close>

datatype probe_outcome = Retry u64 | Matched u64 | NeedsSnapshot | Refused

definition probe_data :: "u64 \<Rightarrow> node_id \<Rightarrow> u64 \<Rightarrow> raft_log \<Rightarrow> replication_data" where
  "probe_data t p nx l = \<lparr>rd_leader_last_index_before = last_entry_id l, rd_current_term = t,
     rd_commit_index = 0, rd_peer_next_indices = [(p, nx)]\<rparr>"

definition probe_round ::
    "node_id \<Rightarrow> node_id \<Rightarrow> u64 \<Rightarrow> u64 \<Rightarrow> raft_log \<Rightarrow> raft_log \<Rightarrow> u64 \<Rightarrow> probe_outcome" where
  "probe_round me p t ft l f nx =
     (case build_append_request me l p (\<lambda>_. None) (probe_data t p nx l) of
        Inl _ \<Rightarrow> Refused
      | Inr (BuildNeedSnapshot, _) \<Rightarrow> NeedsSnapshot
      | Inr (Append q n, _) \<Rightarrow>
          (case check_append_entries_request_is_legal p ft q f of
             Inl _ \<Rightarrow> Refused
           | Inr r \<Rightarrow>
               (case ar_result r of
                  Some (AEConflict ct ci) \<Rightarrow> Retry (pu_next_index (handle_conflict_response ct ci l n))
                | Some (AESuccess _) \<Rightarrow> Matched n
                | _ \<Rightarrow> Refused)))"

fun probe_rounds ::
    "nat \<Rightarrow> node_id \<Rightarrow> node_id \<Rightarrow> u64 \<Rightarrow> u64 \<Rightarrow> raft_log \<Rightarrow> raft_log \<Rightarrow> u64 \<Rightarrow> probe_outcome" where
  "probe_rounds 0 me p t ft l f nx = Retry nx"
| "probe_rounds (Suc k) me p t ft l f nx =
     (case probe_round me p t ft l f nx of Retry n \<Rightarrow> probe_rounds k me p t ft l f n | r \<Rightarrow> r)"

lemma no_inconsistent_prev:
  assumes inv: "log_inv l"
  shows "is_ok (build_append_request me l p epp data)"
proof -
  let ?n = "eff_next l data p"
  have "term_at l (?n - 1) \<noteq> None \<or> ?n - 1 < first_entry_id l \<or> ?n - 1 = 0 \<and> first_entry_id l \<le> 1"
  proof (cases "last_entry_id l = 0")
    case True
    then have "rl_entries l = []"
      using log_inv_min_le [OF inv] by (auto simp: last_entry_id_def)
    then show ?thesis
      using True inv by (simp add: eff_next_def first_entry_id_def log_inv_def bounds_ok_def)
  next
    case False
    then show ?thesis
      using brl.entry_dom [OF inv, of "?n - 1"] by (fastforce simp: eff_next_def term_at_def)
  qed
  then show ?thesis
    unfolding build_exact [OF inv] by (auto split: option.split)
qed

lemma conflict_goes_back:
  assumes inv: "log_inv l" "log_inv f" and lm: "log_matching f l"
    and unpurged: "rl_purged_index f = 0" "rl_entries f = [] \<or> rl_min f = 1"
    and prev: "0 < prev" "term_at l prev = Some t"
    and chk: "check_append_entries_request_is_legal p ft q f = Inr r" "ar_result r = Some (AEConflict ct ci)"
    and q: "ae_prev_log_index q = prev" "ae_prev_log_term q = t"
  shows "pu_next_index (handle_conflict_response ct ci l nx) \<le> prev"
proof (cases "term_at f prev")
  case None
  have "last_log_id f = map_option entry_lid (last_entry f)"
    using unpurged(1) by (simp add: last_log_id_def last_entry_def Let_def)
  moreover have "rl_max f < prev"
    using None prev(1) unpurged entry_in_range [OF inv(2), of prev] inv(2)
    by (auto simp: term_at_def log_inv_def bounds_ok_def split: option.splits)
  ultimately have "(case last_log_id f of Some i \<Rightarrow> lid_index i | None \<Rightarrow> 0) < prev"
    using prev(1) entry_fields(1) [OF inv(2)]
    by (auto simp: last_entry_def last_entry_id_def entry_lid_def Let_def split: option.splits if_splits)
  then show ?thesis
    using chk q None prev by (auto simp: check_append_entries_request_is_legal_def entry_term_exact [OF inv(2)] Let_def
        ar_conflict_def ar_higher_term_def handle_conflict_response_def split: if_splits)
next
  case (Some c)
  have c: "c \<noteq> t" "ct = Some c" "ci = Some (case first_index_for_term f c of Some i \<Rightarrow> i | None \<Rightarrow> prev - 1)"
    using chk q Some prev by (auto simp: check_append_entries_request_is_legal_def entry_term_exact [OF inv(2)] Let_def
        ar_conflict_def ar_higher_term_def ar_success_def split: if_splits)
  obtain e where e: "entry f prev = Some e" "e_term e = c"
    using Some unpurged(1) by (auto simp: term_at_def split: option.splits)
  have mem: "(prev, e) \<in> set (rl_entries f)"
    using entry_fields(3) [OF inv(2) e(1)] .
  obtain i where i: "first_with_term c (rl_entries f) = Some i"
    using mem e(2) first_with_term_None_iff [of c "rl_entries f"] by fastforce
  then have "i \<le> prev"
    using mem e(2) iffD1 [OF first_with_term_Some_iff [OF log_inv_wf [OF inv(2)]] i] by fastforce
  with i have "\<exists>i. first_index_for_term f c = Some i \<and> i \<le> prev"
    using inv(2) by (simp add: first_index_for_term_def log_inv_def terms_ok_def)
  moreover have "k < prev" if "last_index_for_term l c = Some k" for k
  proof -
    have "last_with_term c (rl_entries l) = Some k"
      using that inv(1) by (simp add: last_index_for_term_def log_inv_def terms_ok_def)
    then obtain e' where "(k, e') \<in> set (rl_entries l)" "e_term e' = c"
      using last_with_term_Some_iff [OF log_inv_wf [OF inv(1)]] by blast
    then have "entry l k = Some e'" and "e_term e' = c"
      using om_get_Some_iff [OF log_inv_wf [OF inv(1)]] by (simp_all add: entry_def)
    then have "term_at l k = Some c"
      by (simp add: term_at_def)
    then have "\<not> prev < k"
      using lm Some prev(2) c(1) unfolding log_matching_def by fastforce
    moreover have "k \<noteq> prev"
      using \<open>term_at l k = Some c\<close> prev(2) c(1) by auto
    ultimately show ?thesis
      by simp
  qed
  ultimately show ?thesis
    using c prev(1) by (auto simp: handle_conflict_response_def split: option.splits)
qed

lemma term_at_pos: "log_inv l \<Longrightarrow> term_at l i = Some t \<Longrightarrow> 0 < i"
  using entry_fields(1,2) [of l i] by (auto simp: term_at_def entry_ok_def split: option.splits if_splits)

text \<open>A snapshot is called for only by a leader that has purged the beginning of its log.\<close>

lemma probe_snapshot_purged:
  "log_inv l \<Longrightarrow> 0 < nx \<Longrightarrow> probe_round me p t ft l f nx = NeedsSnapshot
   \<Longrightarrow> \<exists>n. 0 < n \<and> n \<le> nx \<and> term_at l (n - 1) = None \<and> n \<le> first_entry_id l \<and> 1 < first_entry_id l"
  unfolding probe_round_def build_exact
  by (intro exI [of _ "eff_next l (probe_data t p nx l) p"])
    (auto simp: eff_next_def probe_data_def split: option.splits if_splits sum.splits ae_result.splits)

text \<open>An accepted request names an entry the follower has, or the beginning of the log.\<close>

lemma probe_matched_at:
  assumes "log_inv l" and "log_inv f" and "0 < nx" and "probe_round me p t ft l f nx = Matched n"
  shows "0 < n \<and> n \<le> nx \<and> (n = 1 \<or> term_at l (n - 1) \<noteq> None \<and> term_at f (n - 1) = term_at l (n - 1))"
  using assms unfolding probe_round_def build_exact [OF assms(1)]
  by (auto simp: eff_next_def probe_data_def request_to_def check_append_entries_request_is_legal_def
      entry_term_exact [OF assms(2)] Let_def ar_conflict_def ar_higher_term_def ar_success_def
      split: option.splits if_splits sum.splits ae_result.splits)

lemma probe_progress:
  assumes inv: "log_inv l" "log_inv f" and lm: "log_matching f l"
    and unpurged: "rl_purged_index f = 0" "rl_entries f = [] \<or> rl_min f = 1"
    and trm: "ft \<le> t" and nx: "0 < nx"
  shows "(\<exists>n. probe_round me p t ft l f nx = Retry n \<and> 0 < n \<and> n < nx)
     \<or> (\<exists>n. probe_round me p t ft l f nx = Matched n) \<or> probe_round me p t ft l f nx = NeedsSnapshot"
proof -
  let ?b = "build_append_request me l p (\<lambda>_. None) (probe_data t p nx l)"
  consider (sent) q n where "?b = Inr (Append q n, (\<lambda>_. None)(p := None))"
    | (snap) "?b = Inr (BuildNeedSnapshot, \<lambda>_. None)"
    | (bad) a b c where "?b = Inl (InconsistentPrevLogTerm p a b c)"
    by (rule build_cases [OF inv(1)])
  then show ?thesis
  proof cases
    case snap
    then show ?thesis
      by (simp add: probe_round_def)
  next
    case (bad a b c)
    then show ?thesis
      using no_inconsistent_prev [OF inv(1), of me p "\<lambda>_. None" "probe_data t p nx l"] by simp
  next
    case (sent q n)
    have n: "n = eff_next l (probe_data t p nx l) p" and q: "ae_term q = t" "ae_prev_log_index q = n - 1"
      and qt: "term_at l (n - 1) = Some (ae_prev_log_term q) \<or> n - 1 = 0 \<and> ae_prev_log_term q = 0"
      using sent unfolding build_exact [OF inv(1)]
      by (auto simp: request_to_def probe_data_def split: option.splits if_splits)
    have le: "n \<le> nx" "0 < n"
      using n nx by (auto simp: eff_next_def probe_data_def)
    have chk: "\<exists>r. check_append_entries_request_is_legal p ft q f = Inr r
        \<and> ((\<exists>m. ar_result r = Some (AESuccess m)) \<or> (\<exists>ct ci. ar_result r = Some (AEConflict ct ci)))"
      using q(1) trm by (auto simp: check_append_entries_request_is_legal_def entry_term_exact [OF inv(2)] Let_def
          ar_success_def ar_conflict_def split: option.split)
    then obtain r where r: "check_append_entries_request_is_legal p ft q f = Inr r"
      and cases: "(\<exists>m. ar_result r = Some (AESuccess m)) \<or> (\<exists>ct ci. ar_result r = Some (AEConflict ct ci))"
      by blast
    from cases show ?thesis
    proof (elim disjE exE)
      fix ct ci
      assume conf: "ar_result r = Some (AEConflict ct ci)"
      have "\<not> (n - 1 = 0 \<and> ae_prev_log_term q = 0)"
        using r conf q by (auto simp: check_append_entries_request_is_legal_def Let_def ar_success_def
            ar_higher_term_def split: if_splits)
      then have at: "term_at l (n - 1) = Some (ae_prev_log_term q)"
        using qt by blast
      from term_at_pos [OF inv(1) at] at have "pu_next_index (handle_conflict_response ct ci l n) \<le> n - 1"
        by (rule conflict_goes_back [OF inv lm unpurged _ _ r conf q(2) refl])
      moreover have "0 < pu_next_index (handle_conflict_response ct ci l n)"
        by (simp add: handle_conflict_response_def Let_def)
      ultimately show ?thesis
        using sent r conf le by (simp add: probe_round_def)
    qed (use sent r in \<open>simp add: probe_round_def\<close>)
  qed
qed

definition search_done :: "raft_log \<Rightarrow> raft_log \<Rightarrow> u64 \<Rightarrow> probe_outcome \<Rightarrow> bool" where
  "search_done l f nx r =
     (case r of
        Matched n \<Rightarrow> 0 < n \<and> n \<le> nx
          \<and> (n = 1 \<or> term_at l (n - 1) \<noteq> None \<and> term_at f (n - 1) = term_at l (n - 1))
      | NeedsSnapshot \<Rightarrow> \<exists>n. 0 < n \<and> n \<le> nx \<and> term_at l (n - 1) = None \<and> n \<le> first_entry_id l
          \<and> 1 < first_entry_id l
      | _ \<Rightarrow> False)"

lemma search_done_mono: "search_done l f n r \<Longrightarrow> n \<le> nx \<Longrightarrow> search_done l f nx r"
  by (auto simp: search_done_def split: probe_outcome.splits)

lemma probe_rounds_end:
  assumes "log_inv l" "log_inv f" and "log_matching f l"
    and "rl_purged_index f = 0" "rl_entries f = [] \<or> rl_min f = 1" and "ft \<le> t"
  shows "0 < nx \<Longrightarrow> nx \<le> k \<Longrightarrow> search_done l f nx (probe_rounds k me p t ft l f nx)"
proof (induction k arbitrary: nx)
  case (Suc k)
  consider (retry) n where "probe_round me p t ft l f nx = Retry n" "0 < n" "n < nx"
    | (fin) n where "probe_round me p t ft l f nx = Matched n" | (snap) "probe_round me p t ft l f nx = NeedsSnapshot"
    using probe_progress [OF assms Suc.prems(1), of me p] by blast
  then show ?case
  proof cases
    case (retry n)
    then have "search_done l f n (probe_rounds k me p t ft l f n)"
      using Suc.IH [of n] Suc.prems by simp
    then show ?thesis
      using retry search_done_mono [of l f n _ nx] by simp
  next
    case (fin n)
    then show ?thesis
      using probe_matched_at [OF assms(1,2) Suc.prems(1) fin] by (simp add: search_done_def)
  next
    case snap
    then show ?thesis
      using probe_snapshot_purged [OF assms(1) Suc.prems(1)] by (simp add: search_done_def)
  qed
qed simp

end
