(* ===== verification/Repl_Properties.thy ===== *)
theory Repl_Properties
  imports Repl_Follower
begin





lemma ex_log_terms: "term_at ex_log (Suc 0) = Some 1" "term_at ex_log 2 = Some 1" "term_at ex_log 3 = Some 1"
  by (simp_all add: term_at_def entry_def ex_log_entries ex_entries_def om_get_def)

section \<open>The leader's side\<close>



text \<open>a peer that lags by at least the configured maximum while new entries arrive is sent
  entries with a hole: the first \<^verbatim>\<open>mx\<close> entries it misses, directly followed by the new
  entries, without the entries \<^verbatim>\<open>nx + mx\<close> to \<^verbatim>\<open>lst\<close> in between.\<close>

theorem capped_batch_has_hole:
  assumes "log_inv l" and "0 < nx" and "first_entry_id l \<le> nx" and "0 < mx" and "nx + mx \<le> lst"
    and "lst \<le> last_entry_id l" and "new \<noteq> []" and "contig_from (Suc lst) new" and "p \<noteq> me"
  shows "\<exists>es. retrieve_to_be_synced_logs_for_peers me new lst mx [(p, nx)] l (first_entry_id l) = [(p, Ready es)]
     \<and> map e_index es = [nx ..< nx + mx] @ [Suc lst ..< Suc lst + length new]
     \<and> \<not> contig_from nx es"
proof -
  let ?es = "get_entries_range l nx (nx + mx - 1)"
  have con: "entries_are_contiguous_in_range ?es nx (nx + mx - 1)"
    using legacy_contiguous [OF assms(1,3,2), of "nx + mx - 1"] assms by simp
  then have idx: "map e_index ?es = [nx ..< nx + mx]"
    using assms by (auto simp: contiguous_iff simp del: upt_Suc)
  have len: "length ?es = mx"
    using arg_cong [OF idx, of length] by simp
  have "mx \<le> lst - nx" and "nx \<le> lst"
    using assms by simp_all
  then have "peer_entries new lst mx l (first_entry_id l) nx = Some (Ready (?es @ new))"
    using con assms by (simp add: peer_entries_def Let_def)
  moreover have "\<not> contig_from nx (?es @ new)"
  proof
    assume "contig_from nx (?es @ new)"
    then have "contig_from (nx + mx) new"
      using len by (simp add: contig_append_iff)
    then show False
      using assms contig_from_nth [of "nx + mx" new 0] contig_from_nth [of "Suc lst" new 0] by simp
  qed
  ultimately show ?thesis
    using assms idx by (simp add: contig_from_def)
qed

definition hole_request :: append_request where
  "hole_request = \<lparr>ae_term = 2, ae_leader_id = 1, ae_prev_log_index = 0, ae_prev_log_term = 0,
     ae_entries = [mk_entry 1 1 Noop, mk_entry 4 2 Noop], ae_leader_commit = 0\<rparr>"

definition hole_log :: raft_log where
  "hole_log = fst (append_entries ex_log [mk_entry 4 2 Noop])"

lemma hole_log_entries: "rl_entries hole_log = tag (ex_entries @ [mk_entry 4 2 Noop])"
  and hole_log_inv: "log_inv hole_log" and hole_log_min: "rl_min hole_log = 1" and hole_log_max: "rl_max hole_log = 4"
  and hole_log_purged: "rl_purged_index hole_log = 0"
proof -
  let ?e = "mk_entry 4 2 Noop"
  have app: "appendable ex_log [?e]"
    by (simp add: appendable_def entry_ok_def u64_max_def contig_from_Cons ex_log_fields ts_on_append_one_def
        MAX_TERM_SEGMENTS_def Let_def)
  have h: "hole_log = (insert_to_memory ex_log [?e])\<lparr>rl_notified := True\<rparr>"
    by (simp add: hole_log_def append_entries_ok ex_log_fields)
  show "rl_entries hole_log = tag (ex_entries @ [?e])" and "log_inv hole_log"
    using insert_to_memory_inv [OF ex_log_inv app] by (simp_all add: h ex_log_entries tag_def)
  show "rl_min hole_log = 1" and "rl_max hole_log = 4" and "rl_purged_index hole_log = 0"
    by (simp_all add: h ex_log_fields max_entry_index_def)
qed

theorem capped_batch_has_hole_witness:
  "\<exists>es. retrieve_to_be_synced_logs_for_peers 1 [mk_entry 4 2 Noop] 3 1 [(2, 1)] hole_log (first_entry_id hole_log)
         = [(2, Ready es)]
     \<and> map e_index es = [1, 4] \<and> \<not> contig_from 1 es"
  using capped_batch_has_hole [of hole_log 1 1 3 "[mk_entry 4 2 Noop]" 2 1] hole_log_inv
  by (simp add: first_entry_id_def last_entry_id_def hole_log_min hole_log_max contig_from_Cons upt_rec)

section \<open>The follower's side\<close>

text \<open>C27: an accepted request replicates the leader's log.  Assume log matching between the
  follower's log and the leader's log \<^verbatim>\<open>l\<close>, both with the purge boundary right below their
  entries, and a request that matches \<^verbatim>\<open>l\<close>, is not of an older term and meets a follower that
  has the entry before it.  Then \<^verbatim>\<open>handle_append_entries\<close> succeeds, the follower's log stays
  well formed, equals the leader's at every index of the request and at every index below it
  that both logs still hold, and the acknowledged index is the last of the request.\<close>

theorem accepted_request_replicates:
  assumes "log_inv l" and "request_matches l nx q" and "ae_entries q \<noteq> []" and "sorted (map e_term (ae_entries q))"
    and "follower_log f (length (ae_entries q))" and "sn_current_term st \<le> ae_term q"
    and "term_at f (nx - 1) = Some (ae_prev_log_term q) \<and> 0 < ae_prev_log_term q \<or> nx = 1 \<and> ae_prev_log_term q = 0"
    and "logs_match f l" and "boundary_ok l"
  shows "\<exists>f' c m. handle_append_entries me q st f (Inr ())
        = (f', Inr \<lparr>au_response = ar_success me (sn_current_term st) (Some m), au_commit_index_update = c\<rparr>)
     \<and> lid_index m = ae_prev_log_index q + length (ae_entries q) \<and> log_inv f'
     \<and> (\<forall>i \<le> lid_index m. nx \<le> i \<or> entry f' i \<noteq> None \<and> entry l i \<noteq> None \<longrightarrow> entry f' i = entry l i)"
proof -
  let ?es = "ae_entries q"
  have nx: "nx = Suc (ae_prev_log_index q)" and con: "contig_from nx ?es"
    and mem: "\<forall>e \<in> set ?es. entry l (e_index e) = Some e"
    using assms(2) by (auto simp: request_matches_def)
  have ok: "\<forall>e \<in> set ?es. entry_ok e"
    using mem entry_fields(2) [OF assms(1)] by blast
  have prev: "term_at f (ae_prev_log_index q) = Some (ae_prev_log_term q) \<and> 0 < ae_prev_log_term q
      \<or> ae_prev_log_index q = 0 \<and> ae_prev_log_term q = 0"
    using assms(7) nx by auto
  have same: "\<forall>e \<in> set ?es. \<forall>e'. entry f (e_index e) = Some e' \<and> e_term e' = e_term e \<longrightarrow> e' = e"
    using mem assms(8) unfolding logs_match_def by (metis option.distinct(1) option.inject order_refl)
  obtain m0 where chk: "check_append_entries_request_is_legal me (sn_current_term st) q f
      = Inr (ar_success me (sn_current_term st) m0)"
    using check_accepts [of f "sn_current_term st" q me] assms(5,6) prev by (auto simp: follower_log_def)
  obtain f' where app: "filter_out_conflicts_and_append f (ae_prev_log_index q) (ae_prev_log_term q) ?es (Inr ())
      = (f', Inr (last_lid ?es))" and inv: "log_inv f'" and got: "\<forall>e \<in> set ?es. entry f' (e_index e) = Some e"
      and keep: "\<forall>i. 0 < i \<and> i \<le> ae_prev_log_index q \<longrightarrow> entry f' i = entry f i"
    using follower_append [OF assms(5,3) _ ok assms(4) prev same] con nx by auto
  have lst: "e_index (last ?es) = ae_prev_log_index q + length ?es"
    using contig_from_last [OF con assms(3)] nx by simp
  have "entry f' i = entry l i" if "nx \<le> i" "i \<le> ae_prev_log_index q + length ?es" for i
  proof -
    have "i - nx < length ?es" "i = nx + (i - nx)"
      using that nx by auto
    then have "e_index (?es ! (i - nx)) = i" "?es ! (i - nx) \<in> set ?es"
      using contig_from_nth [OF con, of "i - nx"] by auto
    then show ?thesis
      using got mem by metis
  qed
  moreover have "entry f' i = entry l i" if "i < nx" "entry f' i \<noteq> None" "entry l i \<noteq> None" for i
  proof -
    have "0 < i"
      using that(3) entry_fields(1,2) [OF assms(1), of i] by (auto simp: entry_ok_def)
    then have "term_at f (nx - 1) = Some (ae_prev_log_term q)" and "term_at l (nx - 1) = Some (ae_prev_log_term q)"
      and "entry f' i = entry f i"
      using that(1) assms(2,7) keep nx by (auto simp: request_matches_def)
    then show ?thesis
      using agree_below [OF _ assms(1) _ assms(9,8), of "nx - 1" _ i] that assms(5) by (auto simp: follower_log_def)
  qed
  ultimately have all: "\<forall>i \<le> ae_prev_log_index q + length ?es.
      nx \<le> i \<or> entry f' i \<noteq> None \<and> entry l i \<noteq> None \<longrightarrow> entry f' i = entry l i"
    by (meson not_le)
  obtain c where "handle_append_entries me q st f (Inr ())
      = (f', Inr \<lparr>au_response = ar_success me (sn_current_term st) (Some (entry_lid (last ?es))), au_commit_index_update = c\<rparr>)"
    using chk app assms(3) by (auto simp: handle_append_entries_def Let_def last_lid_def)
  moreover have "lid_index (entry_lid (last ?es)) = ae_prev_log_index q + length ?es"
    using lst by (simp add: entry_lid_def)
  ultimately show ?thesis
    using all inv by (intro exI [of _ f'] exI [of _ c] exI [of _ "entry_lid (last ?es)"]) simp
qed

definition ex_request :: append_request where
  "ex_request = \<lparr>ae_term = 2, ae_leader_id = 1, ae_prev_log_index = 3, ae_prev_log_term = 1,
     ae_entries = [mk_entry 4 2 Noop], ae_leader_commit = 2\<rparr>"

definition ex_follower_state :: state_snapshot where
  "ex_follower_state = \<lparr>sn_role = NR_Follower, sn_current_term = 2, sn_voted_for = None, sn_commit_index = 0\<rparr>"

lemma ex_request_facts:
  "request_matches hole_log 4 ex_request" "logs_match ex_log hole_log" "follower_log ex_log 1" "boundary_ok hole_log"
proof -
  have "entry hole_log 4 = Some (mk_entry 4 2 Noop)" "term_at hole_log 3 = Some 1"
    by (simp_all add: term_at_def entry_def hole_log_entries ex_entries_def om_get_def)
  then show "request_matches hole_log 4 ex_request"
    by (simp add: request_matches_def ex_request_def contig_from_Cons)
  show "logs_match ex_log hole_log"
    by (auto simp: logs_match_def entry_def om_get_def ex_log_entries hole_log_entries ex_entries_def)
  show "follower_log ex_log 1"
    using ex_log_inv by (simp add: follower_log_def boundary_ok_def ex_log_fields MAX_TERM_SEGMENTS_def)
  show "boundary_ok hole_log"
    by (simp add: boundary_ok_def hole_log_purged)
qed

theorem accepted_request_replicates_witness:
  "\<exists>f' c m. handle_append_entries 2 ex_request ex_follower_state ex_log (Inr ())
        = (f', Inr \<lparr>au_response = ar_success 2 2 (Some m), au_commit_index_update = c\<rparr>)
     \<and> lid_index m = 4 \<and> log_inv f'
     \<and> (\<forall>i \<le> lid_index m. 4 \<le> i \<or> entry f' i \<noteq> None \<and> entry hole_log i \<noteq> None \<longrightarrow> entry f' i = entry hole_log i)"
  using accepted_request_replicates [OF hole_log_inv ex_request_facts(1) _ _ _ _ _ ex_request_facts(2,4),
      of ex_follower_state 2] ex_request_facts(3)
  by (simp add: ex_log_terms ex_request_def ex_follower_state_def)

text \<open>C40: the follower's commit index may pass the last new entry.  When the entries of a
  request are already in the follower's log and the leader's commit index lies between the
  last of them and the end of that log, the follower commits up to the leader's commit index,
  over entries the request does not vouch for.\<close>

theorem commit_index_past_last_new_entry:
  assumes "follower_log f (length (ae_entries q))" and "ae_entries q \<noteq> []"
    and "sn_current_term st \<le> ae_term q" and "0 < ae_prev_log_index q"
    and "term_at f (ae_prev_log_index q) = Some (ae_prev_log_term q)"
    and "good_request f (ae_prev_log_index q) (ae_entries q)"
    and "\<forall>e \<in> set (ae_entries q). agrees f e"
    and "e_index (last (ae_entries q)) < ae_leader_commit q"
    and "ae_leader_commit q \<le> last_entry_id f" and "sn_commit_index st < ae_leader_commit q"
  shows "\<exists>f' m. handle_append_entries me q st f (Inr ())
        = (f', Inr \<lparr>au_response = ar_success me (sn_current_term st) m,
                    au_commit_index_update = Some (ae_leader_commit q)\<rparr>)
     \<and> rl_entries f' = rl_entries f"
proof -
  let ?es = "ae_entries q"
  have inv: "log_inv f" and bnd: "boundary_ok f" and np: "\<not> rl_poisoned f"
    using assms(1) by (simp_all add: follower_log_def)
  have "\<exists>e'. om_get (rl_entries f) (e_index e) = Some e' \<and> e_term e' = e_term e" if "e \<in> set ?es" for e
    using agrees_entry [OF inv bnd assms(5)] assms(6,7) that contig_from_ge [of _ ?es]
    by (fastforce simp: good_request_def)
  then have "raft_append (rl_entries f) ?es = rl_entries f"
    using raft_append_skip [of ?es "rl_entries f" "[]"] by simp
  then obtain f' where app: "filter_out_conflicts_and_append f (ae_prev_log_index q) (ae_prev_log_term q) ?es (Inr ())
      = (f', Inr (last_lid ?es))" and ents: "rl_entries f' = rl_entries f" and inv': "log_inv f'"
    using filter_out_refines [OF inv bnd np _ assms(5,6)] assms(4) by auto
  have "rl_max f' = rl_max f"
    using inv inv' ents assms(8,9) log_inv_keys [OF inv] log_inv_keys [OF inv']
      om_ends_upt(2) [OF log_inv_keys [OF inv]] om_ends_upt(2) [OF log_inv_keys [OF inv']]
    by (cases "rl_entries f = []") (auto simp: log_inv_def bounds_ok_def)
  moreover obtain m0 where "check_append_entries_request_is_legal me (sn_current_term st) q f
      = Inr (ar_success me (sn_current_term st) m0)"
    using check_accepts [OF inv assms(3)] assms(5) by blast
  ultimately show ?thesis
    using app ents assms
    by (auto simp: handle_append_entries_def Let_def if_update_commit_index_as_follower_def last_entry_id_def)
qed

theorem commit_index_past_last_new_entry_witness:
  "\<exists>f' m. handle_append_entries 2
       \<lparr>ae_term = 2, ae_leader_id = 1, ae_prev_log_index = 1, ae_prev_log_term = 1,
        ae_entries = [mk_entry 2 1 (Command ''a'')], ae_leader_commit = 3\<rparr> ex_follower_state ex_log (Inr ())
     = (f', Inr \<lparr>au_response = ar_success 2 2 m, au_commit_index_update = Some 3\<rparr>)
     \<and> rl_entries f' = rl_entries ex_log"
proof -
  let ?q = "\<lparr>ae_term = 2, ae_leader_id = 1, ae_prev_log_index = 1, ae_prev_log_term = 1,
        ae_entries = [mk_entry 2 1 (Command ''a'')], ae_leader_commit = 3\<rparr>"
  have "follower_log ex_log 1"
    using ex_log_inv by (simp add: follower_log_def boundary_ok_def ex_log_fields MAX_TERM_SEGMENTS_def)
  then show ?thesis
    using commit_index_past_last_new_entry [of ex_log ?q ex_follower_state 2]
    by (simp add: ex_log_terms ex_log_fields ex_follower_state_def good_request_def contig_from_Cons entry_ok_def
        u64_max_def MAX_TERM_SEGMENTS_def agrees_def last_entry_id_def)
qed

section \<open>The search for the last matching entry\<close>



end
