(* ===== verification/Membership.thy ===== *)
theory Membership
  imports Quorum
begin

text \<open>
  The cluster membership (\<^verbatim>\<open>d-engine-server/src/membership/raft_membership.rs\<close> with
  \<^verbatim>\<open>membership_guard.rs\<close>): the node table, its configuration version, the queries of the
  Raft loop and the changes that configuration entries make.  The hash map of nodes is an
  association list ordered by node id, one of the orders its iteration can have, and the
  statements about it are made on the map from ids to nodes; roles and statuses are the enumerations, so a conversion from their
  wire integers does not fail.  \<^verbatim>\<open>blocking_write\<close> stores the modified copy whether the
  closure succeeds or not, so an operation that fails returns the state it had reached.
  Connections and health checks belong to the network layer and are left out.
\<close>

record membership_snapshot =
  ms_members :: "node_id set"
  ms_learners :: "node_id set"
  ms_committed_index :: u64

record membership =
  mb_node_id :: node_id
  mb_nodes :: "node_meta omap"
  mb_version :: u64
  mb_initial_cluster_size :: nat
  mb_notified :: membership_snapshot

record cluster_membership =
  cm_version :: u64
  cm_nodes :: "node_meta list"
  cm_current_leader_id :: "node_id option"

datatype conf_error_code = CE_Unspecified | CE_NotLeader | CE_VersionConflict | CE_InvalidChange
  | CE_TermOutdated | CE_InternalError

record conf_update_response =
  cu_id :: node_id
  cu_term :: u64
  cu_version :: u64
  cu_success :: bool
  cu_error_code :: conf_error_code

section \<open>Answers to configuration updates\<close>

definition cu_succeeded :: "node_id \<Rightarrow> u64 \<Rightarrow> u64 \<Rightarrow> conf_update_response" where
  "cu_succeeded n t v = \<lparr>cu_id = n, cu_term = t, cu_version = v, cu_success = True, cu_error_code = CE_Unspecified\<rparr>"

definition cu_higher_term :: "node_id \<Rightarrow> u64 \<Rightarrow> u64 \<Rightarrow> conf_update_response" where
  "cu_higher_term n t v = \<lparr>cu_id = n, cu_term = t, cu_version = v, cu_success = False, cu_error_code = CE_TermOutdated\<rparr>"

definition cu_not_leader :: "node_id \<Rightarrow> u64 \<Rightarrow> u64 \<Rightarrow> conf_update_response" where
  "cu_not_leader n t v = \<lparr>cu_id = n, cu_term = t, cu_version = v, cu_success = False, cu_error_code = CE_NotLeader\<rparr>"

definition cu_version_conflict :: "node_id \<Rightarrow> u64 \<Rightarrow> u64 \<Rightarrow> conf_update_response" where
  "cu_version_conflict n t v = \<lparr>cu_id = n, cu_term = t, cu_version = v, cu_success = False, cu_error_code = CE_VersionConflict\<rparr>"

definition cu_internal_error :: "node_id \<Rightarrow> u64 \<Rightarrow> u64 \<Rightarrow> conf_update_response" where
  "cu_internal_error n t v = \<lparr>cu_id = n, cu_term = t, cu_version = v, cu_success = False, cu_error_code = CE_InternalError\<rparr>"

definition is_promotable :: "node_status \<Rightarrow> bool" where
  "is_promotable s = (s = NS_Promotable)"

section \<open>Queries\<close>

definition members :: "membership \<Rightarrow> node_meta list" where
  "members m = map snd (mb_nodes m)"

definition replication_peers :: "membership \<Rightarrow> node_meta list" where
  "replication_peers m = filter (\<lambda>n. nm_id n \<noteq> mb_node_id m
     \<and> (nm_status n = NS_Active \<or> nm_status n = NS_Promotable \<or> nm_status n = NS_ReadOnly)) (members m)"

definition voters :: "membership \<Rightarrow> node_meta list" where
  "voters m = filter (\<lambda>n. nm_id n \<noteq> mb_node_id m \<and> nm_status n = NS_Active) (members m)"

definition is_single_node_cluster :: "membership \<Rightarrow> bool" where
  "is_single_node_cluster m = (mb_initial_cluster_size m = 1)"

definition nodes_with_status :: "membership \<Rightarrow> node_status \<Rightarrow> node_meta list" where
  "nodes_with_status m status = filter (\<lambda>n. nm_id n \<noteq> mb_node_id m \<and> nm_status n = status) (members m)"

definition get_node_status :: "membership \<Rightarrow> node_id \<Rightarrow> node_status option" where
  "get_node_status m node_id = map_option nm_status (om_get (mb_nodes m) node_id)"

definition get_peers_id_with_condition :: "membership \<Rightarrow> (node_role \<Rightarrow> bool) \<Rightarrow> node_id list" where
  "get_peers_id_with_condition m condition = map nm_id (filter (\<lambda>n. condition (nm_role n)) (members m))"

definition retrieve_cluster_membership_config :: "membership \<Rightarrow> node_id option \<Rightarrow> cluster_membership" where
  "retrieve_cluster_membership_config m current_leader_id =
     \<lparr>cm_version = mb_version m, cm_nodes = members m, cm_current_leader_id = current_leader_id\<rparr>"

definition get_cluster_conf_version :: "membership \<Rightarrow> u64" where
  "get_cluster_conf_version m = mb_version m"

definition contains_node :: "membership \<Rightarrow> node_id \<Rightarrow> bool" where
  "contains_node m node_id = (om_get (mb_nodes m) node_id \<noteq> None)"

definition retrieve_node_meta :: "membership \<Rightarrow> node_id \<Rightarrow> node_meta option" where
  "retrieve_node_meta m node_id = om_get (mb_nodes m) node_id"

definition get_all_nodes :: "membership \<Rightarrow> node_meta list" where
  "get_all_nodes m = members m"

text \<open>\<^verbatim>\<open>trim_start_matches\<close> removes a prefix as often as it occurs.\<close>

function trim_start_matches :: "string \<Rightarrow> string \<Rightarrow> string" where
  "trim_start_matches p s =
     (if p \<noteq> [] \<and> take (length p) s = p then trim_start_matches p (drop (length p) s) else s)"
  by auto
termination
  by (relation "measure (length \<circ> snd)") (auto, metis diff_less length_greater_0_conv take_Nil)

definition address_str :: "string \<Rightarrow> string" where
  "address_str addr =
     ''http://'' @ trim_start_matches ''https://'' (trim_start_matches ''http://'' addr)"

definition get_address :: "membership \<Rightarrow> node_id \<Rightarrow> string option" where
  "get_address m node_id = map_option (\<lambda>n. address_str (nm_address n)) (om_get (mb_nodes m) node_id)"

definition can_rejoin :: "membership \<Rightarrow> node_id \<Rightarrow> node_role \<Rightarrow> unit result" where
  "can_rejoin m node_id role =
     (if role \<noteq> NR_Learner then Inl (MembershipError ''NotLearner'')
      else if \<not> contains_node m node_id then Inr ()
      else Inl (MembershipError ''NodeAlreadyExists''))"

section \<open>Changes\<close>

definition ensure_safe_join :: "nat \<Rightarrow> unit result" where
  "ensure_safe_join current_voters =
     (let total_voters = current_voters + 1 in
      if 2 dvd (total_voters + 1) then Inr ()
      else Inl (MembershipError ''Cluster must maintain odd number of voters''))"

definition put_node :: "node_id \<Rightarrow> node_meta \<Rightarrow> membership \<Rightarrow> membership" where
  "put_node k n m = m\<lparr>mb_nodes := om_put k n (mb_nodes m)\<rparr>"

definition delete_node :: "node_id \<Rightarrow> membership \<Rightarrow> membership" where
  "delete_node k m = m\<lparr>mb_nodes := om_del_range k k (mb_nodes m)\<rparr>"

definition activate_node :: "membership \<Rightarrow> node_id \<Rightarrow> membership \<times> unit result" where
  "activate_node m new_node_id =
     (let current_voters = length (filter (\<lambda>n. nm_status n = NS_Active) (members m)) in
      case ensure_safe_join current_voters of
        Inl e \<Rightarrow> (m, Inl e)
      | Inr _ \<Rightarrow>
          (case om_get (mb_nodes m) new_node_id of
             Some n \<Rightarrow> (put_node new_node_id (n\<lparr>nm_status := NS_Active\<rparr>) m, Inr ())
           | None \<Rightarrow> (m, Inr ())))"

definition update_conf_version :: "membership \<Rightarrow> u64 \<Rightarrow> membership" where
  "update_conf_version m version = m\<lparr>mb_version := version\<rparr>"

text \<open>Incrementing the 64-bit version panics on overflow, in the release build too; the copy that
  was being modified is then not stored.\<close>

definition store_next_version :: "membership \<Rightarrow> membership \<Rightarrow> membership \<times> unit result" where
  "store_next_version m new_state =
     (if mb_version m + 1 > u64_max then (m, Inl (Panic ''attempt to add with overflow''))
      else (new_state\<lparr>mb_version := mb_version m + 1\<rparr>, Inr ()))"

definition incr_conf_version :: "membership \<Rightarrow> membership \<times> unit result" where
  "incr_conf_version m = store_next_version m m"

definition add_learner :: "membership \<Rightarrow> node_id \<Rightarrow> string \<Rightarrow> node_status \<Rightarrow> membership \<times> unit result" where
  "add_learner m node_id address status =
     (case om_get (mb_nodes m) node_id of
        Some existing \<Rightarrow>
          if nm_role existing = NR_Learner then (m, Inr ())
          else (m, Inl (MembershipError ''NodeAlreadyExists''))
      | None \<Rightarrow>
          (put_node node_id \<lparr>nm_id = node_id, nm_address = address, nm_role = NR_Learner,
                             nm_status = status\<rparr> m, Inr ()))"

definition update_single_node ::
    "membership \<Rightarrow> node_id \<Rightarrow> (node_meta \<Rightarrow> node_meta \<times> unit result) \<Rightarrow> membership \<times> unit result" where
  "update_single_node m node_id f =
     (case om_get (mb_nodes m) node_id of
        Some n \<Rightarrow> (case f n of (n', r) \<Rightarrow> (put_node node_id n' m, r))
      | None \<Rightarrow> (m, Inl (MembershipError ''NoMetadataFoundForNode'')))"

fun update_multiple_nodes ::
    "membership \<Rightarrow> node_id list \<Rightarrow> (node_meta \<Rightarrow> node_meta \<times> unit result) \<Rightarrow> membership \<times> unit result" where
  "update_multiple_nodes m [] f = (m, Inr ())"
| "update_multiple_nodes m (k # ks) f =
     (case om_get (mb_nodes m) k of
        Some n \<Rightarrow> (case f n of
                     (n', Inr _) \<Rightarrow> update_multiple_nodes (put_node k n' m) ks f
                   | (n', Inl e) \<Rightarrow> (put_node k n' m, Inl e))
      | None \<Rightarrow> update_multiple_nodes m ks f)"

definition update_node_status :: "membership \<Rightarrow> node_id \<Rightarrow> node_status \<Rightarrow> membership \<times> unit result" where
  "update_node_status m node_id status =
     update_single_node m node_id (\<lambda>n. (n\<lparr>nm_status := status\<rparr>, Inr ()))"

definition remove_node :: "membership \<Rightarrow> node_id \<Rightarrow> membership \<times> unit result" where
  "remove_node m node_id = store_next_version m (delete_node node_id m)"

definition force_remove_node :: "membership \<Rightarrow> node_id \<Rightarrow> membership \<times> unit result" where
  "force_remove_node m node_id = store_next_version m (delete_node node_id m)"

fun delete_nodes :: "node_id list \<Rightarrow> membership \<Rightarrow> membership" where
  "delete_nodes [] m = m"
| "delete_nodes (k # ks) m = delete_nodes ks (delete_node k m)"

text \<open>The loop of \<^verbatim>\<open>BatchPromote\<close>: the first unknown node ends it with an error.\<close>

fun promote_nodes :: "node_status \<Rightarrow> node_id list \<Rightarrow> membership \<Rightarrow> membership \<times> unit result" where
  "promote_nodes new_status [] m = (m, Inr ())"
| "promote_nodes new_status (k # ks) m =
     (case om_get (mb_nodes m) k of
        None \<Rightarrow> (m, Inl (MembershipError ''NoMetadataFoundForNode''))
      | Some n \<Rightarrow> promote_nodes new_status ks
                   (put_node k (n\<lparr>nm_role := NR_Follower, nm_status := new_status\<rparr>) m))"

definition apply_config_change :: "membership \<Rightarrow> change option \<Rightarrow> membership \<times> unit result" where
  "apply_config_change m membership_change =
     (case membership_change of
        Some (AddNode n address status) \<Rightarrow> add_learner m n address status
      | Some (RemoveNode n) \<Rightarrow> remove_node m n
      | Some (PromoteLearner n _) \<Rightarrow>
          (case om_get (mb_nodes m) n of
             Some meta \<Rightarrow> (put_node n (meta\<lparr>nm_role := NR_Follower, nm_status := NS_Active\<rparr>) m, Inr ())
           | None \<Rightarrow> (m, Inl (MembershipError ''NoMetadataFoundForNode'')))
      | Some (BatchPromote ns new_status) \<Rightarrow> promote_nodes new_status ns m
      | Some (BatchRemove ns) \<Rightarrow> store_next_version m (delete_nodes ns m)
      | None \<Rightarrow> (m, Inr ()))"

text \<open>The end of a successful update: the version of the request is adopted.\<close>

definition conf_updated ::
    "node_id \<Rightarrow> u64 \<Rightarrow> u64 \<Rightarrow> membership \<times> unit result \<Rightarrow> membership \<times> conf_update_response result" where
  "conf_updated my_id my_current_term version r =
     (case r of
        (m1, Inl e) \<Rightarrow> (m1, Inl e)
      | (m1, Inr _) \<Rightarrow>
          (let m2 = update_conf_version m1 version
           in (m2, Inr (cu_succeeded my_id my_current_term (get_cluster_conf_version m2)))))"

definition update_cluster_conf_from_leader ::
    "membership \<Rightarrow> node_id \<Rightarrow> u64 \<Rightarrow> u64 \<Rightarrow> node_id option \<Rightarrow> conf_change_request
     \<Rightarrow> membership \<times> conf_update_response result" where
  "update_cluster_conf_from_leader m my_id my_current_term current_conf_version current_leader_id req =
     (case current_leader_id of
        None \<Rightarrow> (m, Inl (MembershipError ''NoLeaderFound''))
      | Some leader_id \<Rightarrow>
          if leader_id \<noteq> cc_id req
          then (m, Inr (cu_not_leader my_id my_current_term current_conf_version))
          else if my_current_term > cc_term req
          then (m, Inr (cu_higher_term my_id my_current_term current_conf_version))
          else if get_cluster_conf_version m > cc_version req
          then (m, Inr (cu_version_conflict my_id my_current_term current_conf_version))
          else
            (case cc_change req of
               Some (AddNode n address status) \<Rightarrow>
                 conf_updated my_id my_current_term (cc_version req) (add_learner m n address status)
             | Some (RemoveNode n) \<Rightarrow>
                 conf_updated my_id my_current_term (cc_version req) (remove_node m n)
             | Some (PromoteLearner n _) \<Rightarrow>
                 conf_updated my_id my_current_term (cc_version req)
                   (update_single_node m n (\<lambda>node.
                      if nm_role node = NR_Learner then (node\<lparr>nm_role := NR_Follower\<rparr>, Inr ())
                      else (node, Inl (MembershipError ''InvalidPromotion''))))
             | Some (BatchPromote ns new_status) \<Rightarrow>
                 conf_updated my_id my_current_term (cc_version req)
                   (update_multiple_nodes m ns (\<lambda>node.
                      if is_promotable (nm_status node)
                      then (node\<lparr>nm_status := new_status, nm_role := NR_Follower\<rparr>, Inr ())
                      else (node, Inr ())))
             | Some (BatchRemove ns) \<Rightarrow>
                 if leader_id \<in> set ns then (m, Inl (MembershipError ''RemoveNodeIsLeader''))
                 else conf_updated my_id my_current_term (cc_version req) (delete_nodes ns m, Inr ())
             | None \<Rightarrow> (m, Inl (MembershipError ''InvalidChangeRequest''))))"

section \<open>Notification and construction\<close>

definition snapshot_of :: "node_meta list \<Rightarrow> u64 \<Rightarrow> membership_snapshot" where
  "snapshot_of ns index =
     \<lparr>ms_members = nm_id ` set (filter (\<lambda>n. nm_role n \<noteq> NR_Learner) ns),
      ms_learners = nm_id ` set (filter (\<lambda>n. nm_role n = NR_Learner) ns),
      ms_committed_index = index\<rparr>"

definition notify_config_applied :: "membership \<Rightarrow> u64 \<Rightarrow> membership" where
  "notify_config_applied m index = m\<lparr>mb_notified := snapshot_of (members m) index\<rparr>"

fun put_nodes :: "node_meta list \<Rightarrow> node_meta omap \<Rightarrow> node_meta omap" where
  "put_nodes [] t = t"
| "put_nodes (n # ns) t = put_nodes ns (om_put (nm_id n) n t)"

definition membership_new :: "node_id \<Rightarrow> node_meta list \<Rightarrow> membership" where
  "membership_new node_id initial_nodes =
     \<lparr>mb_node_id = node_id, mb_nodes = put_nodes initial_nodes [], mb_version = 0,
      mb_initial_cluster_size = length initial_nodes, mb_notified = snapshot_of initial_nodes 0\<rparr>"

section \<open>The invariant\<close>

text \<open>The table is a map from each node's id to its metadata.\<close>

definition membership_inv :: "membership \<Rightarrow> bool" where
  "membership_inv m = (om_wf (mb_nodes m) \<and> (\<forall>b \<in> set (mb_nodes m). nm_id (snd b) = fst b))"

lemma put_node_inv: "membership_inv m \<Longrightarrow> nm_id n = k \<Longrightarrow> membership_inv (put_node k n m)"
  by (auto simp: membership_inv_def put_node_def om_wf_put) (auto simp: om_put_def)

lemma delete_node_inv: "membership_inv m \<Longrightarrow> membership_inv (delete_node k m)"
  by (auto simp: membership_inv_def delete_node_def om_wf_del_range) (auto simp: om_del_range_def)

lemma version_inv [simp]:
  "membership_inv (update_conf_version m v) = membership_inv m"
  "membership_inv m \<Longrightarrow> membership_inv m' \<Longrightarrow> membership_inv (fst (store_next_version m m'))"
  by (simp_all add: membership_inv_def update_conf_version_def store_next_version_def)

lemma get_node_id: "membership_inv m \<Longrightarrow> om_get (mb_nodes m) k = Some n \<Longrightarrow> nm_id n = k"
  using om_get_Some_iff by (fastforce simp: membership_inv_def)

lemma delete_nodes_inv: "membership_inv m \<Longrightarrow> membership_inv (delete_nodes ks m)"
  by (induction ks arbitrary: m) (simp_all add: delete_node_inv)

lemma promote_nodes_inv: "membership_inv m \<Longrightarrow> membership_inv (fst (promote_nodes s ks m))"
  by (induction s ks m rule: promote_nodes.induct)
    (auto simp: put_node_inv get_node_id split: option.splits)

lemma update_multiple_inv:
  "membership_inv m \<Longrightarrow> (\<And>n. nm_id (fst (f n)) = nm_id n) \<Longrightarrow> membership_inv (fst (update_multiple_nodes m ks f))"
proof (induction m ks f rule: update_multiple_nodes.induct)
  case (2 m k ks f)
  show ?case
  proof (cases "om_get (mb_nodes m) k")
    case (Some n)
    obtain n' r where f: "f n = (n', r)"
      by (cases "f n")
    then have "membership_inv (put_node k n' m)"
      using 2 Some get_node_id [OF 2(3) Some] by (metis fst_conv put_node_inv)
    then show ?thesis
      using 2 Some f by (cases r) auto
  qed (use 2 in auto)
qed simp

lemma add_learner_inv: "membership_inv m \<Longrightarrow> membership_inv (fst (add_learner m n a s))"
  by (auto simp: add_learner_def split: option.splits intro!: put_node_inv)

lemma update_single_inv:
  "membership_inv m \<Longrightarrow> (\<And>n. nm_id (fst (f n)) = nm_id n) \<Longrightarrow> membership_inv (fst (update_single_node m k f))"
  by (auto simp: update_single_node_def split: option.splits prod.splits intro!: put_node_inv dest: get_node_id)
    (metis fst_conv get_node_id)

section \<open>The set of voters\<close>

definition voter_ids :: "membership \<Rightarrow> node_id set" where
  "voter_ids m = {k. \<exists>n. om_get (mb_nodes m) k = Some n \<and> nm_status n = NS_Active}"

lemma voter_ids_finite: "finite (voter_ids m)"
proof (rule finite_subset)
  show "voter_ids m \<subseteq> fst ` set (mb_nodes m)"
    by (auto simp: voter_ids_def) (metis om_get_None_iff option.distinct(1))
qed simp

lemma voter_ids_put:
  "voter_ids (put_node k n m) = (if nm_status n = NS_Active then insert k (voter_ids m) else voter_ids m - {k})"
  by (auto simp: voter_ids_def put_node_def om_get_put)

lemma voter_ids_delete: "voter_ids (delete_node k m) = voter_ids m - {k}"
  by (auto simp: voter_ids_def delete_node_def om_get_del_range)

lemma voter_ids_version [simp]:
  "voter_ids (update_conf_version m v) = voter_ids m"
  "voter_ids (fst (store_next_version m m')) = (if mb_version m + 1 > u64_max then voter_ids m else voter_ids m')"
  by (simp_all add: voter_ids_def update_conf_version_def store_next_version_def)

text \<open>The voters the election asks, with the node itself, are these.\<close>

lemma voters_are_voter_ids:
  assumes "membership_inv m"
  shows "nm_id ` set (voters m) = voter_ids m - {mb_node_id m}"
proof -
  have "k \<in> nm_id ` set (voters m) \<longleftrightarrow> k \<in> voter_ids m - {mb_node_id m}" for k
  proof -
    have "(\<exists>n. (k, n) \<in> set (mb_nodes m) \<and> nm_status n = NS_Active) \<longleftrightarrow> k \<in> voter_ids m"
      using om_get_Some_iff assms by (fastforce simp: voter_ids_def membership_inv_def)
    moreover have "k \<in> nm_id ` set (voters m)
        \<longleftrightarrow> k \<noteq> mb_node_id m \<and> (\<exists>n. (k, n) \<in> set (mb_nodes m) \<and> nm_status n = NS_Active)"
      using assms by (force simp: voters_def members_def membership_inv_def image_iff)
    ultimately show ?thesis
      by blast
  qed
  then show ?thesis
    by blast
qed

text \<open>One node more or less keeps majorities of the old and of the new voters overlapping.\<close>

lemma majorities_overlap_insert:
  assumes "majority_of v a" and "majority_of (insert x v) b"
  shows "a \<inter> b \<noteq> {}"
proof
  assume dis: "a \<inter> b = {}"
  have fin: "finite v" "a \<subseteq> v" "b \<subseteq> insert x v"
    using assms by (auto simp: majority_of_def)
  then have "finite a" "finite b" "a \<union> b \<subseteq> insert x v"
    by (auto intro: finite_subset)
  then have "card a + card b \<le> card (insert x v)"
    using dis fin(1) by (metis card_Un_disjoint card_mono finite_insert)
  moreover have "card v < 2 * card a" "card (insert x v) < 2 * card b" "card (insert x v) \<le> Suc (card v)"
    using assms fin(1) by (simp_all add: majority_of_def is_majority_double card_insert_if)
  ultimately show False
    by simp
qed

lemma majorities_overlap_one:
  assumes "v' = v \<or> v' = insert x v \<or> v' = v - {x}" and "majority_of v a" and "majority_of v' b"
  shows "a \<inter> b \<noteq> {}"
proof -
  consider "v' = v" | "v' = insert x v" | "x \<in> v" "v = insert x v'"
    using assms(1) by blast
  then show ?thesis
  proof cases
    case 3
    then have "b \<inter> a \<noteq> {}"
      using majorities_overlap_insert [of v' b x a] assms by simp
    then show ?thesis
      by blast
  qed (use assms majorities_overlap_insert maj.quorum_inter in auto)
qed

definition single_change :: "change option \<Rightarrow> bool" where
  "single_change c = (case c of Some (BatchPromote _ _) \<Rightarrow> False | Some (BatchRemove _) \<Rightarrow> False | _ \<Rightarrow> True)"

lemma single_change_voters:
  assumes "single_change c"
  shows "\<exists>x. voter_ids (fst (apply_config_change m c)) = voter_ids m
     \<or> voter_ids (fst (apply_config_change m c)) = insert x (voter_ids m)
     \<or> voter_ids (fst (apply_config_change m c)) = voter_ids m - {x}"
  using assms
  by (auto simp: single_change_def apply_config_change_def add_learner_def remove_node_def voter_ids_put
      voter_ids_delete split: option.splits change.splits)

section \<open>Properties\<close>

text \<open>The node table as a map, and what a committed change means for it: a learner is added only
  under a new id, a batch is promoted up to its first unknown node, removals take out exactly
  the nodes named.\<close>

definition node_table :: "membership \<Rightarrow> (node_id \<rightharpoonup> node_meta)" where
  "node_table m = om_get (mb_nodes m)"







lemma node_table_version [simp]:
  "node_table (update_conf_version m v) = node_table m"
  by (simp add: node_table_def update_conf_version_def)





lemma versions_kept [simp]:
  "mb_version (fst (add_learner m n a s)) = mb_version m" "mb_version (put_node k x m) = mb_version m"
  "mb_version (delete_node k m) = mb_version m" "mb_version (delete_nodes ks m) = mb_version m"
  "mb_version (fst (promote_nodes s ks m)) = mb_version m"
proof -
  show v: "mb_version (put_node k x m) = mb_version m" "mb_version (delete_node k m) = mb_version m" for k x m
    by (simp_all add: put_node_def delete_node_def)
  show "mb_version (fst (add_learner m n a s)) = mb_version m"
    by (simp add: add_learner_def v split: option.splits)
  show "mb_version (delete_nodes ks m) = mb_version m"
    by (induction ks arbitrary: m) (simp_all add: v)
  show "mb_version (fst (promote_nodes s ks m)) = mb_version m"
    by (induction s ks m rule: promote_nodes.induct) (auto simp: v split: option.splits)
qed


definition ex_member :: "node_id \<Rightarrow> node_role \<Rightarrow> node_status \<Rightarrow> node_meta" where
  "ex_member k r s = \<lparr>nm_id = k, nm_address = ''a'', nm_role = r, nm_status = s\<rparr>"

definition ex_cluster :: membership where
  "ex_cluster = membership_new 1 [ex_member 1 NR_Leader NS_Active, ex_member 2 NR_Follower NS_Active,
     ex_member 3 NR_Follower NS_Active, ex_member 4 NR_Learner NS_Promotable, ex_member 5 NR_Learner NS_Promotable]"

lemma ex_cluster_inv: "membership_inv ex_cluster"
  and ex_cluster_voters: "voter_ids ex_cluster = {1, 2, 3}"
proof -
  have nodes: "mb_nodes ex_cluster = [(1, ex_member 1 NR_Leader NS_Active), (2, ex_member 2 NR_Follower NS_Active),
     (3, ex_member 3 NR_Follower NS_Active), (4, ex_member 4 NR_Learner NS_Promotable),
     (5, ex_member 5 NR_Learner NS_Promotable)]"
    by (simp add: ex_cluster_def membership_new_def ex_member_def om_put_def)
  show "membership_inv ex_cluster"
    by (simp add: membership_inv_def nodes ex_member_def)
  show "voter_ids ex_cluster = {1, 2, 3}"
    by (auto simp: voter_ids_def nodes om_get_def ex_member_def split: if_splits)
qed


text \<open>C9: an update of the membership sent by a leader is applied only under its guards.  If the
  receiver knows another leader or none, has a newer term or a newer configuration, or is
  asked to remove that leader in a batch, its membership stays as it was and the update is not
  answered as a success.  A success has passed the guards and leaves the version of the
  request, which is not below the old one.\<close>

theorem leader_update_guarded:
  assumes "update_cluster_conf_from_leader m me t v ld req = (m', r)"
  shows "(ld \<noteq> Some (cc_id req) \<or> cc_term req < t \<or> cc_version req < mb_version m
            \<or> (\<exists>ns. cc_change req = Some (BatchRemove ns) \<and> cc_id req \<in> set ns)
          \<longrightarrow> m' = m \<and> (\<forall>a. r = Inr a \<longrightarrow> \<not> cu_success a))
       \<and> (\<forall>a. r = Inr a \<and> cu_success a \<longrightarrow>
            ld = Some (cc_id req) \<and> t \<le> cc_term req \<and> mb_version m \<le> cc_version req
            \<and> mb_version m' = cc_version req \<and> cc_change req \<noteq> None)"
proof (cases "ld = Some (cc_id req) \<and> t \<le> cc_term req \<and> mb_version m \<le> cc_version req")
  case True
  have upd: "conf_updated me t w x = (m', Inr a) \<Longrightarrow> mb_version m' = w" for w x a
    by (auto simp: conf_updated_def update_conf_version_def Let_def split: prod.splits sum.splits)
  from True assms show ?thesis
    by (auto simp: update_cluster_conf_from_leader_def get_cluster_conf_version_def
        split: option.splits change.splits if_splits dest: upd)
next
  case False
  then show ?thesis
    using assms by (auto simp: update_cluster_conf_from_leader_def get_cluster_conf_version_def cu_not_leader_def
        cu_higher_term_def cu_version_conflict_def split: option.splits if_splits)
qed

theorem leader_update_guarded_witness:
  "fst (update_cluster_conf_from_leader ex_cluster 2 1 0 (Some 1)
     \<lparr>cc_id = 1, cc_term = 1, cc_version = 7, cc_change = Some (BatchRemove [1, 3])\<rparr>) = ex_cluster
   \<and> mb_version (fst (update_cluster_conf_from_leader ex_cluster 2 1 0 (Some 1)
       \<lparr>cc_id = 1, cc_term = 1, cc_version = 7, cc_change = Some (BatchRemove [3])\<rparr>)) = 7"
proof -
  let ?req = "\<lambda>ns. \<lparr>cc_id = 1, cc_term = 1, cc_version = 7, cc_change = Some (BatchRemove ns)\<rparr>"
  let ?upd = "\<lambda>ns. update_cluster_conf_from_leader ex_cluster 2 1 0 (Some 1) (?req ns)"
  have "\<exists>a. snd (?upd [3]) = Inr a \<and> cu_success a"
    by (simp add: update_cluster_conf_from_leader_def get_cluster_conf_version_def ex_cluster_def
        membership_new_def conf_updated_def Let_def cu_succeeded_def)
  then show ?thesis
    using leader_update_guarded [of ex_cluster 2 1 0 "Some 1" "?req [1, 3]", OF surjective_pairing]
      leader_update_guarded [of ex_cluster 2 1 0 "Some 1" "?req [3]", OF surjective_pairing]
    by auto
qed

text \<open>C31: a configuration entry that names one node keeps quorums overlapping: any majority of
  the voters before it and any majority of the voters after it share a node.\<close>

theorem single_change_majorities_overlap:
  assumes "single_change c" and "majority_of (voter_ids m) a"
    and "majority_of (voter_ids (fst (apply_config_change m c))) b"
  shows "a \<inter> b \<noteq> {}"
  using single_change_voters [OF assms(1), of m] majorities_overlap_one assms(2,3) by blast

theorem single_change_majorities_overlap_witness:
  "{1, 2} \<inter> {2, 3, 4 :: node_id} \<noteq> {}
   \<and> voter_ids (fst (apply_config_change ex_cluster (Some (PromoteLearner 4 NS_Active)))) = {1, 2, 3, 4}"
proof
  have v: "voter_ids (fst (apply_config_change ex_cluster (Some (PromoteLearner 4 NS_Active)))) = {1, 2, 3, 4}"
    by (auto simp: apply_config_change_def ex_cluster_def membership_new_def ex_member_def om_put_def om_get_def
        voter_ids_def put_node_def split: if_splits)
  then show "voter_ids (fst (apply_config_change ex_cluster (Some (PromoteLearner 4 NS_Active)))) = {1, 2, 3, 4}" .
  show "{1, 2} \<inter> {2, 3, 4 :: node_id} \<noteq> {}"
    by (rule single_change_majorities_overlap [of "Some (PromoteLearner 4 NS_Active)" ex_cluster])
      (simp_all add: single_change_def majority_of_def is_majority_def v ex_cluster_voters)
qed

text \<open>the two ways a promotion reaches a node disagree.  A committed promotion makes the
  learner a voter; the same promotion received as an update from the leader succeeds but
  leaves the set of voters as it was.\<close>

theorem promotion_paths_disagree:
  assumes "om_get (mb_nodes m) n = Some meta" and "nm_role meta = NR_Learner" and "nm_status meta = NS_Promotable"
    and "t \<le> cc_term req" and "mb_version m \<le> cc_version req" and "cc_change req = Some (PromoteLearner n s)"
  shows "n \<in> voter_ids (fst (apply_config_change m (cc_change req)))
     \<and> n \<notin> voter_ids (fst (update_cluster_conf_from_leader m me t v (Some (cc_id req)) req))
     \<and> is_ok (snd (update_cluster_conf_from_leader m me t v (Some (cc_id req)) req))"
  using assms
  by (simp add: apply_config_change_def update_cluster_conf_from_leader_def get_cluster_conf_version_def
      update_single_node_def conf_updated_def Let_def voter_ids_put)

theorem promotion_paths_disagree_witness:
  "4 \<in> voter_ids (fst (apply_config_change ex_cluster (Some (PromoteLearner 4 NS_Active))))
   \<and> 4 \<notin> voter_ids (fst (update_cluster_conf_from_leader ex_cluster 2 1 0 (Some 1)
       \<lparr>cc_id = 1, cc_term = 1, cc_version = 1, cc_change = Some (PromoteLearner 4 NS_Active)\<rparr>))"
  using promotion_paths_disagree [of ex_cluster 4 "ex_member 4 NR_Learner NS_Promotable" 1
      "\<lparr>cc_id = 1, cc_term = 1, cc_version = 1, cc_change = Some (PromoteLearner 4 NS_Active)\<rparr>" NS_Active 2 0]
  by (simp add: ex_cluster_def membership_new_def ex_member_def om_put_def om_get_def)

end
