(* ===== verification/Election.thy ===== *)
theory Election
  imports Quorum Buffered_Log
begin

text \<open>
  The election handler (\<^verbatim>\<open>d-engine-core/src/election/election_handler.rs\<close>): the candidate's
  broadcast of vote requests with the tally of the answers, the voter's decision, and the
  legality test a candidate or a leader applies to a rival's request.  The membership's
  answers (\<^verbatim>\<open>is_single_node_cluster\<close>, \<^verbatim>\<open>voters\<close>) and the transport are parameters:
  \<^verbatim>\<open>send\<close> is what \<^verbatim>\<open>send_vote_request\<close> returns for a peer, and \<^verbatim>\<open>arrive\<close> is the
  order in which the tasks of \<^verbatim>\<open>FuturesUnordered\<close> complete.
\<close>

record state_update =
  su_new_voted_for :: "voted_for option"
  su_term_update :: "u64 option"

definition lid_or_zero :: "log_id option \<Rightarrow> log_id" where
  "lid_or_zero x = (case x of Some i \<Rightarrow> i | None \<Rightarrow> mk_lid 0 0)"

section \<open>The candidate's broadcast\<close>

text \<open>The peers a task is spawned for, in the order of the membership: the node itself and
  the duplicates are skipped.\<close>

fun vote_peers :: "node_id \<Rightarrow> node_id list \<Rightarrow> node_id list \<Rightarrow> node_id list" where
  "vote_peers my_id [] peer_ids = peer_ids"
| "vote_peers my_id (p # ms) peer_ids =
     (if p = my_id \<or> p \<in> set peer_ids then vote_peers my_id ms peer_ids
      else vote_peers my_id ms (peer_ids @ [p]))"

text \<open>The loop over the responses.\<close>

fun tally_votes :: "u64 \<Rightarrow> log_id \<Rightarrow> nat \<Rightarrow> vote_response result list \<Rightarrow> nat result" where
  "tally_votes trm lst succeed [] = Inr succeed"
| "tally_votes trm lst succeed (Inl e # rs) = tally_votes trm lst succeed rs"
| "tally_votes trm lst succeed (Inr r # rs) =
     (if vr_granted r then tally_votes trm lst (succeed + 1) rs
      else if if_higher_term_found trm (vr_term r) False then Inl (HigherTerm (vr_term r))
      else if is_target_log_more_recent (lid_index lst) (lid_term lst)
                (vr_last_log_index r) (vr_last_log_term r)
      then Inl (LogConflict (lid_index lst) (lid_term lst) (vr_last_log_term r))
      else tally_votes trm lst succeed rs)"

definition vote_request_of :: "node_id \<Rightarrow> u64 \<Rightarrow> log_id \<Rightarrow> vote_request" where
  "vote_request_of my_id trm lst =
     \<lparr>vq_term = trm, vq_candidate_id = my_id,
      vq_last_log_index = lid_index lst, vq_last_log_term = lid_term lst\<rparr>"

definition broadcast_vote_requests ::
    "node_id \<Rightarrow> u64 \<Rightarrow> bool \<Rightarrow> node_id list \<Rightarrow> raft_log
     \<Rightarrow> (node_id \<Rightarrow> vote_request \<Rightarrow> vote_response result)
     \<Rightarrow> (node_id list \<Rightarrow> node_id list) \<Rightarrow> unit result" where
  "broadcast_vote_requests my_id trm single_node voters l send arrive =
     (if single_node then Inr ()
      else if voters = [] then Inl (NoVotingMemberFound my_id)
      else
        (let lst = lid_or_zero (last_log_id l);
             request = vote_request_of my_id trm lst;
             peer_ids = vote_peers my_id voters [];
             responses = map (\<lambda>p. send p request) (arrive peer_ids)
         in bind_result (tally_votes trm lst 1 responses)
              (\<lambda>succeed.
                 let required = length peer_ids + 1 in
                 if peer_ids \<noteq> [] \<and> is_majority succeed required then Inr ()
                 else Inl (QuorumFailure required succeed))))"

section \<open>The voter's decision\<close>

definition handle_vote_request ::
    "vote_request \<Rightarrow> u64 \<Rightarrow> voted_for option \<Rightarrow> raft_log \<Rightarrow> state_update" where
  "handle_vote_request request current_term voted_for_option l =
     (let last_logid = lid_or_zero (last_log_id l);
          term_update = (if vq_term request > current_term then Some (vq_term request) else None);
          new_voted_for_option =
            (if vq_term request > current_term then None else voted_for_option);
          grant_vote =
            (if vq_term request < current_term then False
             else if \<not> is_target_log_more_recent (lid_index last_logid) (lid_term last_logid)
                         (vq_last_log_index request) (vq_last_log_term request) then False
             else (case new_voted_for_option of
                     Some v \<Rightarrow> vf_term v = vq_term request \<and> vf_id v = vq_candidate_id request
                   | None \<Rightarrow> True))
      in \<lparr>su_new_voted_for =
            (if grant_vote
             then Some \<lparr>vf_id = vq_candidate_id request, vf_term = vq_term request,
                        vf_committed = False\<rparr>
             else None),
          su_term_update = term_update\<rparr>)"

definition if_node_could_grant_the_vote_request ::
    "vote_request \<Rightarrow> voted_for option \<Rightarrow> bool" where
  "if_node_could_grant_the_vote_request request voted_for_option =
     (case voted_for_option of
        Some vf \<Rightarrow> if vf_id vf = 0 then True
                    else if vf_term vf < vq_term request then True else False
      | None \<Rightarrow> True)"

definition check_vote_request_is_legal ::
    "vote_request \<Rightarrow> u64 \<Rightarrow> u64 \<Rightarrow> u64 \<Rightarrow> voted_for option \<Rightarrow> bool" where
  "check_vote_request_is_legal request current_term last_log_index last_log_term voted_for_option =
     (if current_term > vq_term request then False
      else if \<not> is_target_log_more_recent last_log_index last_log_term
                  (vq_last_log_index request) (vq_last_log_term request) then False
      else if voted_for_option \<noteq> None
              \<and> \<not> if_node_could_grant_the_vote_request request voted_for_option then False
      else True)"

section \<open>Facts about the broadcast\<close>

lemma vote_peers_facts:
  "distinct acc \<Longrightarrow> distinct (vote_peers me ms acc)
   \<and> set (vote_peers me ms acc) = set acc \<union> (set ms - {me})"
  by (induction me ms acc rule: vote_peers.induct) auto

lemma vote_peers_distinct: "distinct (vote_peers me ms [])"
  using vote_peers_facts [of "[]"] by simp

lemma vote_peers_set: "set (vote_peers me ms []) = set ms - {me}"
  using vote_peers_facts [of "[]"] by simp

text \<open>An answer that ends the tally: a denial from a higher term, or from a node whose log
  is at least as recent.\<close>

definition refuses :: "u64 \<Rightarrow> log_id \<Rightarrow> vote_response result \<Rightarrow> bool" where
  "refuses trm lst a =
     (case a of Inl _ \<Rightarrow> False
      | Inr r \<Rightarrow> \<not> vr_granted r
                 \<and> (trm < vr_term r
                    \<or> is_target_log_more_recent (lid_index lst) (lid_term lst)
                         (vr_last_log_index r) (vr_last_log_term r)))"

definition grants :: "vote_response result \<Rightarrow> bool" where
  "grants a = (case a of Inl _ \<Rightarrow> False | Inr r \<Rightarrow> vr_granted r)"

lemma tally_votes_Inr_iff:
  "tally_votes trm lst n rs = Inr m
   \<longleftrightarrow> (\<forall>a \<in> set rs. \<not> refuses trm lst a) \<and> m = n + length (filter grants rs)"
  by (induction trm lst n rs rule: tally_votes.induct)
    (auto simp: refuses_def grants_def if_higher_term_found_def)

lemma tally_votes_Inl_refuses:
  "tally_votes trm lst n rs = Inl e \<Longrightarrow> \<exists>a \<in> set rs. refuses trm lst a"
  by (metis tally_votes_Inr_iff sum.exhaust Inr_not_Inl)

lemma grants_count:
  assumes "distinct ps"
  shows "length (filter grants (map f ps)) = card {p \<in> set ps. grants (f p)}"
proof -
  have "length (filter grants (map f ps)) = length (filter (\<lambda>p. grants (f p)) ps)"
    by (simp add: filter_map comp_def)
  also have "\<dots> = card (set (filter (\<lambda>p. grants (f p)) ps))"
    using assms by (simp only: distinct_card [OF distinct_filter])
  finally show ?thesis
    by simp
qed

text \<open>The broadcast wins exactly when no answer ends the tally and the granting nodes,
  the candidate included, are a majority of the voters, of which one is another node.\<close>

lemma broadcast_ok_iff:
  fixes voters my_id trm l send
  defines "lst \<equiv> lid_or_zero (last_log_id l)"
  defines "ans \<equiv> \<lambda>p. send p (vote_request_of my_id trm lst)"
  assumes d: "distinct (arrive (vote_peers my_id voters []))"
    and s: "set (arrive (vote_peers my_id voters [])) = set voters - {my_id}"
  shows "broadcast_vote_requests my_id trm False voters l send arrive = Inr ()
     \<longleftrightarrow> set voters - {my_id} \<noteq> {}
        \<and> (\<forall>p \<in> set voters - {my_id}. \<not> refuses trm lst (ans p))
        \<and> majority_of (insert my_id (set voters))
             (insert my_id {p \<in> set voters - {my_id}. grants (ans p)})"
proof -
  let ?ps = "vote_peers my_id voters []"
  let ?V = "set voters - {my_id}"
  have len: "length ?ps = card ?V"
    using distinct_card [OF vote_peers_distinct, of my_id voters] by (simp add: vote_peers_set)
  have ne: "?ps \<noteq> [] \<longleftrightarrow> ?V \<noteq> {}"
    by (metis set_empty vote_peers_set)
  have g: "length (filter grants (map ans (arrive ?ps))) = card {p \<in> ?V. grants (ans p)}"
    using grants_count [OF d, of ans] s by simp
  have c1: "card (insert my_id (set voters)) = card ?V + 1"
    by (metis Suc_eq_plus1 card.insert_remove List.finite_set)
  have c2: "card (insert my_id {p \<in> ?V. grants (ans p)}) = card {p \<in> ?V. grants (ans p)} + 1"
    by simp
  have mj: "majority_of (insert my_id (set voters)) (insert my_id {p \<in> ?V. grants (ans p)})
     \<longleftrightarrow> is_majority (1 + card {p \<in> ?V. grants (ans p)}) (card ?V + 1)"
    unfolding majority_of_def c1 c2 by auto
  have t: "tally_votes trm lst 1 (map ans (arrive ?ps)) = Inr m
     \<longleftrightarrow> (\<forall>p \<in> ?V. \<not> refuses trm lst (ans p)) \<and> m = 1 + card {p \<in> ?V. grants (ans p)}" for m
    unfolding tally_votes_Inr_iff g using s by auto
  have "broadcast_vote_requests my_id trm False voters l send arrive = Inr ()
     \<longleftrightarrow> voters \<noteq> [] \<and> (\<exists>m. tally_votes trm lst 1 (map ans (arrive ?ps)) = Inr m
             \<and> ?ps \<noteq> [] \<and> is_majority m (length ?ps + 1))"
    unfolding broadcast_vote_requests_def Let_def lst_def [symmetric] ans_def [symmetric]
    by (auto simp: bind_result_Inr_iff split: if_splits)
  also have "\<dots> \<longleftrightarrow> ?V \<noteq> {} \<and> (\<forall>p \<in> ?V. \<not> refuses trm lst (ans p))
        \<and> is_majority (1 + card {p \<in> ?V. grants (ans p)}) (card ?V + 1)"
    unfolding t len ne by auto
  finally show ?thesis
    unfolding mj .
qed

end
