(* ===== verification/Role_State.thy ===== *)
theory Role_State
  imports Replication Election Membership Read_Lease
begin

text \<open>
  What all roles share: the shared state with the hard state
  (\<^verbatim>\<open>d-engine-core/src/raft_role/mod.rs\<close>) and the default methods of the \<^verbatim>\<open>RaftRoleState\<close>
  trait (\<^verbatim>\<open>raft_role/role_state.rs\<close>): persisting term and vote, advancing the commit index,
  the AppendEntries and InstallSnapshot workflows, snapshot creation and log purging.

  A handler acts on the role's state and on the context.  The context holds the log, the hard
  state on disk, the membership, the events put on \<^verbatim>\<open>internal_event_tx\<close>, the answers sent on
  the reply channels and the guard of the snapshot capture.  The environment holds what the
  handler is given: the answers of the metadata store and of the IO thread, the clock, which
  receivers still listen, and the configuration.  The answers of the state machine and of its
  worker are arguments.
\<close>

record hard_state_change =
  hc_changed :: bool
  hc_is_new_leader_commitment :: bool

record shared_state =
  ss_node_id :: node_id
  ss_hard_state :: hard_state
  ss_commit_index :: u64
  ss_current_leader_id :: node_id
  ss_lease :: read_lease

datatype status =
    PermissionDenied string
  | NotFound string
  | Unavailable string
  | DeadlineExceeded string
  | ResourceExhausted string
  | InvalidArgument string
  | FailedPrecondition string
  | Internal string

datatype client_error_code = ProposeFailed | TermOutdated

datatype reply =
    VoteReply vote_response
  | AppendReply append_response
  | SnapshotReply u64 bool u64
  | ConfReply cluster_membership
  | ConfUpdateReply conf_update_response
  | LeaderReply node_id string u64
  | StatusReply status
  | NotLeaderReply "(node_id \<times> string) option"
  | ReadReply "string list"
  | ScanReply string
  | WriteReply bool
  | ClientErrorReply client_error_code
  | JoinReply cluster_membership u64 "snapshot_metadata option" node_id

record raft_context =
  cx_log :: raft_log
  cx_disk :: "hard_state option"
  cx_membership :: membership
  cx_events :: "internal_event list"
  cx_sent :: "(chan \<times> reply) list"
  cx_capture :: bool
  cx_capture_tasks :: nat

datatype read_policy = LeaseRead | LinearizableRead | EventualConsistency

record role_env =
  en_save :: "hard_state \<Rightarrow> unit result"
  en_io :: "unit result"
  en_events_open :: bool
  en_listening :: "chan \<Rightarrow> bool"
  en_now :: u64
  en_random :: u64
  en_retained_log_entries :: u64
  en_snapshot_enable :: bool
  en_should_snapshot :: "new_commit_data \<Rightarrow> bool"
  en_allow_client_override :: bool
  en_default_policy :: read_policy

section \<open>The shared state\<close>

definition shared_new :: "node_id \<Rightarrow> hard_state option \<Rightarrow> u64 option \<Rightarrow> shared_state" where
  "shared_new node_id hard_state_from_db last_applied_index_option =
     \<lparr>ss_node_id = node_id,
      ss_hard_state = (case hard_state_from_db of Some s \<Rightarrow> s
                       | None \<Rightarrow> \<lparr>hs_current_term = 1, hs_voted_for = None\<rparr>),
      ss_commit_index = (case last_applied_index_option of Some i \<Rightarrow> i | None \<Rightarrow> 0),
      ss_current_leader_id = 0, ss_lease = lease_new\<rparr>"

definition current_leader :: "shared_state \<Rightarrow> node_id option" where
  "current_leader s = (if ss_current_leader_id s = 0 then None else Some (ss_current_leader_id s))"

definition set_current_leader :: "node_id \<Rightarrow> shared_state \<Rightarrow> shared_state" where
  "set_current_leader leader_id s = s\<lparr>ss_current_leader_id := leader_id\<rparr>"

definition clear_current_leader :: "shared_state \<Rightarrow> shared_state" where
  "clear_current_leader s = s\<lparr>ss_current_leader_id := 0\<rparr>"

definition ss_term :: "shared_state \<Rightarrow> u64" where
  "ss_term s = hs_current_term (ss_hard_state s)"

definition ss_voted_for :: "shared_state \<Rightarrow> voted_for option" where
  "ss_voted_for s = hs_voted_for (ss_hard_state s)"

definition set_hard_state ::
    "u64 option \<Rightarrow> voted_for option \<Rightarrow> shared_state \<Rightarrow> shared_state \<times> hard_state_change" where
  "set_hard_state trm vote s =
     (let h = ss_hard_state s;
          term_changes = (case trm of Some t \<Rightarrow> t \<noteq> hs_current_term h | None \<Rightarrow> False);
          h1 = (case trm of Some t \<Rightarrow> h\<lparr>hs_current_term := t\<rparr> | None \<Rightarrow> h)
      in case vote of
           None \<Rightarrow> (s\<lparr>ss_hard_state := h1\<rparr>,
                    \<lparr>hc_changed = term_changes, hc_is_new_leader_commitment = False\<rparr>)
         | Some new_vote \<Rightarrow>
             (s\<lparr>ss_hard_state := h1\<lparr>hs_voted_for := Some new_vote\<rparr>\<rparr>,
              \<lparr>hc_changed = (term_changes \<or> hs_voted_for h \<noteq> Some new_vote),
               hc_is_new_leader_commitment =
                 (case hs_voted_for h of
                    Some old \<Rightarrow> vf_committed new_vote
                      \<and> (vf_id old \<noteq> vf_id new_vote \<or> vf_term old \<noteq> vf_term new_vote
                         \<or> \<not> vf_committed old \<or> current_leader s = None)
                  | None \<Rightarrow> vf_committed new_vote)\<rparr>))"

definition clear_voted_for :: "shared_state \<Rightarrow> shared_state" where
  "clear_voted_for s = s\<lparr>ss_hard_state := (ss_hard_state s)\<lparr>hs_voted_for := None\<rparr>\<rparr>"

section \<open>Effects\<close>

definition send_event :: "role_env \<Rightarrow> internal_event \<Rightarrow> raft_context \<Rightarrow> raft_context \<times> unit result" where
  "send_event env ev c =
     (if en_events_open env then (c\<lparr>cx_events := cx_events c @ [ev]\<rparr>, Inr ())
      else (c, Inl (SignalSendFailed ''internal_event_tx'')))"

text \<open>Sending on a one-shot channel fails when its receiver is gone; callers that log the
  failure and go on use \<^verbatim>\<open>send_reply_quiet\<close>.\<close>

definition send_reply :: "role_env \<Rightarrow> chan \<Rightarrow> reply \<Rightarrow> raft_context \<Rightarrow> raft_context \<times> unit result" where
  "send_reply env ch r c =
     (if en_listening env ch then (c\<lparr>cx_sent := cx_sent c @ [(ch, r)]\<rparr>, Inr ())
      else (c, Inl (SignalSendFailed ''receiver dropped'')))"

definition send_reply_quiet :: "role_env \<Rightarrow> reply \<Rightarrow> chan \<Rightarrow> raft_context \<Rightarrow> raft_context" where
  "send_reply_quiet env r ch c = fst (send_reply env ch r c)"

fun send_all :: "role_env \<Rightarrow> reply \<Rightarrow> chan list \<Rightarrow> raft_context \<Rightarrow> raft_context" where
  "send_all env r [] c = c"
| "send_all env r (ch # chs) c = send_all env r chs (send_reply_quiet env r ch c)"

definition persist_hard_state ::
    "role_env \<Rightarrow> hard_state \<Rightarrow> raft_context \<Rightarrow> raft_context \<times> unit result" where
  "persist_hard_state env h c =
     (case save_hard_state (cx_log c) (en_save env) h of
        (l, Inr _) \<Rightarrow> (c\<lparr>cx_log := l, cx_disk := Some h\<rparr>, Inr ())
      | (l, Inl e) \<Rightarrow> (c\<lparr>cx_log := l\<rparr>, Inl e))"

section \<open>Term, vote and commit index\<close>

definition commit_hard_state ::
    "role_env \<Rightarrow> u64 option \<Rightarrow> voted_for option \<Rightarrow> shared_state \<Rightarrow> raft_context
     \<Rightarrow> (shared_state \<times> raft_context) \<times> bool result" where
  "commit_hard_state env trm vote s c =
     (if trm = None \<and> vote = None then ((s, c), Inr False)
      else (case set_hard_state trm vote s of (s1, ch) \<Rightarrow>
              if hc_changed ch then
                (case persist_hard_state env (ss_hard_state s1) c of
                   (c1, Inl e) \<Rightarrow> ((s1, c1), Inl e)
                 | (c1, Inr _) \<Rightarrow> ((s1, c1), Inr (hc_is_new_leader_commitment ch)))
              else ((s1, c), Inr (hc_is_new_leader_commitment ch))))"

definition commit_vote_reset ::
    "role_env \<Rightarrow> shared_state \<Rightarrow> raft_context \<Rightarrow> (shared_state \<times> raft_context) \<times> unit result" where
  "commit_vote_reset env s c =
     (let s1 = clear_voted_for s in
      case persist_hard_state env (ss_hard_state s1) c of (c1, r) \<Rightarrow> ((s1, c1), r))"

definition update_commit_index :: "u64 \<Rightarrow> shared_state \<Rightarrow> shared_state" where
  "update_commit_index new_commit_index s =
     (if ss_commit_index s \<noteq> new_commit_index then s\<lparr>ss_commit_index := new_commit_index\<rparr> else s)"

definition update_commit_index_with_signal ::
    "role_env \<Rightarrow> node_role \<Rightarrow> u64 \<Rightarrow> u64 \<Rightarrow> shared_state \<Rightarrow> raft_context
     \<Rightarrow> (shared_state \<times> raft_context) \<times> unit result" where
  "update_commit_index_with_signal env role current_term new_commit_index s c =
     (case send_event env (NotifyNewCommitIndex
             \<lparr>nc_index = new_commit_index, nc_role = role, nc_term = current_term\<rparr>) c of
        (c1, r) \<Rightarrow> ((update_commit_index new_commit_index s, c1), r))"

datatype term_decision = RejectStale | Accept | AcceptAndUpdateTerm u64

definition check_incoming_term :: "u64 \<Rightarrow> u64 \<Rightarrow> term_decision" where
  "check_incoming_term my_term incoming_term =
     (if incoming_term < my_term then RejectStale
      else if incoming_term = my_term then Accept
      else AcceptAndUpdateTerm incoming_term)"

definition term_update_of :: "term_decision \<Rightarrow> u64 option" where
  "term_update_of d = (case d of AcceptAndUpdateTerm t \<Rightarrow> Some t | _ \<Rightarrow> None)"

section \<open>The state of a role without leadership\<close>

text \<open>Follower, candidate and learner as the trait sees them: the election timer (a learner has
  none), the purge watermark and the snapshot flag (a candidate has neither) are what the
  accessors \<^verbatim>\<open>reset_timer\<close>, \<^verbatim>\<open>pending_purge_upto_mut\<close> and \<^verbatim>\<open>snapshot_in_progress\<close>
  give.\<close>

record base_role =
  ro_kind :: node_role
  ro_shared :: shared_state
  ro_deadline :: "u64 option"
  ro_last_purged_index :: "log_id option"
  ro_pending_purge_upto :: "log_id option option"
  ro_snapshot_in_progress :: "bool option"

definition reset_timer :: "role_env \<Rightarrow> base_role \<Rightarrow> base_role" where
  "reset_timer env r =
     (case ro_deadline r of None \<Rightarrow> r
      | Some _ \<Rightarrow> r\<lparr>ro_deadline := Some (en_now env + en_random env)\<rparr>)"

definition ro_term :: "base_role \<Rightarrow> u64" where
  "ro_term r = ss_term (ro_shared r)"

definition state_snapshot_of :: "base_role \<Rightarrow> state_snapshot" where
  "state_snapshot_of r =
     \<lparr>sn_role = ro_kind r, sn_current_term = ro_term r, sn_voted_for = None,
      sn_commit_index = ss_commit_index (ro_shared r)\<rparr>"

definition leader_vote :: "node_id \<Rightarrow> u64 \<Rightarrow> voted_for" where
  "leader_vote leader_id trm = \<lparr>vf_id = leader_id, vf_term = trm, vf_committed = True\<rparr>"

section \<open>The AppendEntries workflow\<close>

text \<open>What follows the acceptance of the leader: the replication handler runs, the commit index
  advances and the answer is sent; a failed append is answered with a conflict.\<close>

definition append_entries_accepted ::
    "role_env \<Rightarrow> append_request \<Rightarrow> chan list \<Rightarrow> state_snapshot \<Rightarrow> u64 \<Rightarrow> base_role \<Rightarrow> raft_context
     \<Rightarrow> (base_role \<times> raft_context) \<times> unit result" where
  "append_entries_accepted env req senders st raft_log_last_index r c =
     (let my_term = ro_term r; me = ss_node_id (ro_shared r) in
      case handle_append_entries me req st (cx_log c) (en_io env) of
        (l, Inr u) \<Rightarrow>
          (let c1 = c\<lparr>cx_log := l\<rparr> in
           case (case au_commit_index_update u of
                   None \<Rightarrow> ((ro_shared r, c1), Inr ())
                 | Some commit \<Rightarrow> update_commit_index_with_signal env (sn_role st) (sn_current_term st)
                                    commit (ro_shared r) c1) of
             ((s2, c2), Inl e) \<Rightarrow> ((r\<lparr>ro_shared := s2\<rparr>, c2), Inl e)
           | ((s2, c2), Inr _) \<Rightarrow>
               ((r\<lparr>ro_shared := s2\<rparr>, send_all env (AppendReply (au_response u)) senders c2), Inr ()))
      | (l, Inl (Panic p)) \<Rightarrow> ((r, c\<lparr>cx_log := l\<rparr>), Inl (Panic p))
      | (l, Inl e) \<Rightarrow>
          ((r, send_all env (AppendReply (ar_conflict me my_term None (Some (raft_log_last_index + 1))))
                 senders (c\<lparr>cx_log := l\<rparr>)), Inl e))"

definition handle_append_entries_request_workflow ::
    "role_env \<Rightarrow> append_request \<Rightarrow> chan list \<Rightarrow> state_snapshot \<Rightarrow> base_role \<Rightarrow> raft_context
     \<Rightarrow> (base_role \<times> raft_context) \<times> unit result" where
  "handle_append_entries_request_workflow env req senders st r c =
     (let raft_log_last_index = last_entry_id (cx_log c);
          my_term = ro_term r;
          me = ss_node_id (ro_shared r);
          decision = check_incoming_term my_term (ae_term req)
      in if decision = RejectStale
         then ((r, send_all env (AppendReply (ar_higher_term me my_term)) senders c), Inr ())
         else
           (let r1 = reset_timer env r in
            case commit_hard_state env (term_update_of decision)
                   (Some (leader_vote (ae_leader_id req) (ae_term req))) (ro_shared r1) c of
              ((s2, c2), Inl e) \<Rightarrow> ((r1\<lparr>ro_shared := s2\<rparr>, c2), Inl e)
            | ((s2, c2), Inr is_new_leader) \<Rightarrow>
                (let r3 = r1\<lparr>ro_shared := set_current_leader (ae_leader_id req) s2\<rparr> in
                 case (if is_new_leader
                       then send_event env (LeaderDiscovered (ae_leader_id req) (ae_term req)) c2
                       else (c2, Inr ())) of
                   (c4, Inl e) \<Rightarrow> ((r3, c4), Inl e)
                 | (c4, Inr _) \<Rightarrow>
                     append_entries_accepted env req senders st raft_log_last_index r3 c4)))"

section \<open>Purging\<close>

definition execute_purge :: "role_env \<Rightarrow> log_id \<Rightarrow> raft_context \<Rightarrow> raft_context \<times> unit result" where
  "execute_purge env last_included c =
     (case purge_logs_up_to (cx_log c) last_included (en_io env) of (l, r) \<Rightarrow> (c\<lparr>cx_log := l\<rparr>, r))"

text \<open>Failures are logged: the watermark stays for the next attempt.\<close>

definition execute_pending_purge :: "role_env \<Rightarrow> log_id option \<Rightarrow> raft_context \<Rightarrow> raft_context" where
  "execute_pending_purge env pending_purge_upto c =
     (case pending_purge_upto of
        None \<Rightarrow> c
      | Some scheduled \<Rightarrow>
          (case execute_purge env scheduled c of
             (c1, Inr _) \<Rightarrow> fst (send_event env (LogPurgeCompleted scheduled) c1)
           | (c1, Inl _) \<Rightarrow> c1))"

definition below :: "log_id option \<Rightarrow> u64 \<Rightarrow> bool" where
  "below x i = (case x of Some l \<Rightarrow> lid_index l < i | None \<Rightarrow> True)"

definition schedule_and_execute_purge ::
    "role_env \<Rightarrow> log_id \<Rightarrow> u64 \<Rightarrow> log_id option \<Rightarrow> log_id option \<Rightarrow> raft_context
     \<Rightarrow> (log_id option \<times> raft_context) \<times> unit result" where
  "schedule_and_execute_purge env last_included commit_index last_purged_index pending_purge_upto c =
     (let purge_upto_index = lid_index last_included - en_retained_log_entries env in
      if purge_upto_index = 0 then ((pending_purge_upto, c), Inr ())
      else (case entry_term (cx_log c) purge_upto_index of
              Inl e \<Rightarrow> ((pending_purge_upto, c), Inl e)
            | Inr t \<Rightarrow>
                (let pending = (case t of
                       None \<Rightarrow> pending_purge_upto
                     | Some trm \<Rightarrow>
                         if purge_upto_index > 0 \<and> purge_upto_index < commit_index
                            \<and> below last_purged_index purge_upto_index
                            \<and> below pending_purge_upto purge_upto_index
                         then Some (mk_lid trm purge_upto_index) else pending_purge_upto)
                 in ((pending, execute_pending_purge env pending c), Inr ()))))"

definition schedule_installed_snapshot_purge ::
    "role_env \<Rightarrow> log_id \<Rightarrow> log_id option \<Rightarrow> raft_context \<Rightarrow> log_id option \<times> raft_context" where
  "schedule_installed_snapshot_purge env target pending_purge_upto c =
     (let pending = (if below pending_purge_upto (lid_index target) then Some target else pending_purge_upto)
      in (pending, execute_pending_purge env pending c))"

section \<open>The InstallSnapshot workflow\<close>

text \<open>After the worker's answer: the reply, the commit index and the purge of what the snapshot
  covers.\<close>

definition snapshot_installed ::
    "role_env \<Rightarrow> snapshot_apply_result result \<Rightarrow> chan \<Rightarrow> node_role \<Rightarrow> u64 \<Rightarrow> base_role \<Rightarrow> raft_context
     \<Rightarrow> (base_role \<times> raft_context) \<times> unit result" where
  "snapshot_installed env install_result sender role my_term r c =
     (let c1 = send_reply_quiet env (SnapshotReply my_term (is_ok install_result) 0) sender c in
      case install_result of
        Inl e \<Rightarrow> ((r, c1), if is_fatal e then Inl e else Inr ())
      | Inr result \<Rightarrow>
          (let ((s2, c2), boundary) =
                 (case result of
                    Applied last_included \<Rightarrow>
                      (if lid_index last_included > ss_commit_index (ro_shared r)
                       then (fst (update_commit_index_with_signal env role my_term
                                    (lid_index last_included) (ro_shared r) c1), last_included)
                       else ((ro_shared r, c1), last_included))
                  | IgnoredStale cur \<Rightarrow> ((ro_shared r, c1), cur)
                  | IgnoredDuplicate cur \<Rightarrow> ((ro_shared r, c1), cur));
               r2 = r\<lparr>ro_shared := s2\<rparr>
           in case ro_pending_purge_upto r2 of
                None \<Rightarrow> ((r2, c2), Inl (RoleViolation ''unknown'' ''Follower or Learner''
                             ''Role without purge tracking attempted to install a snapshot.''))
              | Some pending \<Rightarrow>
                  (case schedule_installed_snapshot_purge env boundary pending c2 of
                     (pending', c3) \<Rightarrow> ((r2\<lparr>ro_pending_purge_upto := Some pending'\<rparr>, c3), Inr ()))))"

text \<open>The first chunk (leader id and term), the outcome of receiving the stream and the worker's
  answer are parameters.\<close>

definition handle_install_snapshot_chunk_workflow ::
    "role_env \<Rightarrow> (node_id \<times> u64) option \<Rightarrow> unit result \<Rightarrow> snapshot_apply_result result \<Rightarrow> chan
     \<Rightarrow> state_snapshot \<Rightarrow> base_role \<Rightarrow> raft_context \<Rightarrow> (base_role \<times> raft_context) \<times> unit result" where
  "handle_install_snapshot_chunk_workflow env first_chunk prepared install_result sender st r c =
     (let my_term = ro_term r;
          refuse = (\<lambda>t. send_reply_quiet env (SnapshotReply t False 0) sender)
      in case first_chunk of
           None \<Rightarrow> ((r, refuse my_term c), Inr ())
         | Some (leader_id, leader_term) \<Rightarrow>
             (let decision = check_incoming_term my_term leader_term in
              if decision = RejectStale then ((r, refuse my_term c), Inr ())
              else
                (let r1 = reset_timer env r in
                 case commit_hard_state env (term_update_of decision)
                        (Some (leader_vote leader_id leader_term)) (ro_shared r1) c of
                   ((s2, c2), Inl e) \<Rightarrow> ((r1\<lparr>ro_shared := s2\<rparr>, c2), Inl e)
                 | ((s2, c2), Inr _) \<Rightarrow>
                     (let r3 = r1\<lparr>ro_shared := set_current_leader leader_id s2\<rparr>;
                          my_term' = max leader_term my_term
                      in case prepared of
                           Inl e \<Rightarrow> ((r3, refuse my_term' c2), Inr ())
                         | Inr _ \<Rightarrow> snapshot_installed env install_result sender (sn_role st) my_term' r3 c2))))"

section \<open>Snapshots of the own state\<close>

definition check_and_trigger_snapshot ::
    "role_env \<Rightarrow> u64 \<Rightarrow> node_role \<Rightarrow> u64 \<Rightarrow> raft_context \<Rightarrow> raft_context \<times> unit result" where
  "check_and_trigger_snapshot env last_index role current_term c =
     (if en_snapshot_enable env
         \<and> en_should_snapshot env \<lparr>nc_index = last_index, nc_role = role, nc_term = current_term\<rparr>
      then send_event env CreateSnapshotEvent c else (c, Inr ()))"

text \<open>The capture runs in a task of its own; the guard of the state machine handler outlives a
  change of role.\<close>

definition handle_create_snapshot ::
    "base_role \<Rightarrow> raft_context \<Rightarrow> (base_role \<times> raft_context) \<times> unit result" where
  "handle_create_snapshot r c =
     (case ro_snapshot_in_progress r of
        None \<Rightarrow> ((r, c), Inl (RoleViolation ''Candidate'' ''Follower/Leader/Learner''
                     ''Candidate node attempted to create snapshot.''))
      | Some flag \<Rightarrow>
          if flag then ((r, c), Inr ())
          else if cx_capture c then ((r, c), Inr ())
          else ((r\<lparr>ro_snapshot_in_progress := Some True\<rparr>,
                 c\<lparr>cx_capture := True, cx_capture_tasks := cx_capture_tasks c + 1\<rparr>), Inr ()))"

definition snapshot_task_done ::
    "role_env \<Rightarrow> (snapshot_metadata \<times> string) result \<Rightarrow> raft_context \<Rightarrow> raft_context" where
  "snapshot_task_done env result c =
     fst (send_event env (SnapshotCreated result)
            (c\<lparr>cx_capture := False, cx_capture_tasks := cx_capture_tasks c - 1\<rparr>))"

section \<open>Client commands at a node that does not lead\<close>

datatype client_cmd =
    Propose "string option" chan
  | Scan string chan
  | Read "string list" "read_policy option" chan

definition create_not_leader_response :: "shared_state \<Rightarrow> raft_context \<Rightarrow> reply" where
  "create_not_leader_response s c =
     (case current_leader s of
        Some lid \<Rightarrow> (case get_address (cx_membership c) lid of
                       Some address \<Rightarrow> NotLeaderReply (Some (lid, address))
                     | None \<Rightarrow> NotLeaderReply None)
      | None \<Rightarrow> NotLeaderReply None)"

text \<open>\<^verbatim>\<open>read_sm\<close> is what the state machine returns for the keys.\<close>

definition push_client_cmd ::
    "role_env \<Rightarrow> (string list \<Rightarrow> string list option) \<Rightarrow> client_cmd \<Rightarrow> base_role \<Rightarrow> raft_context \<Rightarrow> raft_context" where
  "push_client_cmd env read_sm cmd r c =
     (let reject = (\<lambda>sender. send_reply_quiet env (create_not_leader_response (ro_shared r) c) sender c) in
      case cmd of
        Propose _ sender \<Rightarrow> reject sender
      | Scan _ sender \<Rightarrow> reject sender
      | Read keys policy sender \<Rightarrow>
          (let effective_policy =
                 (case policy of
                    Some p \<Rightarrow> if en_allow_client_override env then p else en_default_policy env
                  | None \<Rightarrow> en_default_policy env)
           in if effective_policy = EventualConsistency
              then send_reply_quiet env
                     (ReadReply (case read_sm keys of Some xs \<Rightarrow> xs | None \<Rightarrow> [])) sender c
              else reject sender))"

end
