(* ===== verification/Batch_Buffers.thy ===== *)
theory Batch_Buffers
  imports Role_State
begin

text \<open>
  The leader's buffers of client requests (\<^verbatim>\<open>d-engine-core/src/raft_role/buffers\<close>), the
  request they are flushed into (\<^verbatim>\<open>replication/mod.rs\<close>), the limits on them
  (\<^verbatim>\<open>BackpressureConfig\<close>) and the replication timer.  Length gauges are metrics and are
  left out; the random identifier of a request is only logged.
\<close>

record 'e batch_buffer =
  bf_buffer :: "'e list"
  bf_last_flush :: u64

definition bf_new :: "u64 \<Rightarrow> 'e batch_buffer" where
  "bf_new now = \<lparr>bf_buffer = [], bf_last_flush = now\<rparr>"

definition bf_push :: "'e \<Rightarrow> 'e batch_buffer \<Rightarrow> 'e batch_buffer" where
  "bf_push x b = b\<lparr>bf_buffer := bf_buffer b @ [x]\<rparr>"

definition bf_take_all :: "u64 \<Rightarrow> 'e batch_buffer \<Rightarrow> 'e batch_buffer \<times> 'e list" where
  "bf_take_all now b = (b\<lparr>bf_buffer := [], bf_last_flush := now\<rparr>, bf_buffer b)"

definition bf_is_empty :: "'e batch_buffer \<Rightarrow> bool" where
  "bf_is_empty b = (bf_buffer b = [])"

definition bf_len :: "'e batch_buffer \<Rightarrow> nat" where
  "bf_len b = length (bf_buffer b)"

record raft_request_with_signal =
  rq_payloads :: "payload list"
  rq_senders :: "chan list"
  rq_wait_for_apply :: bool

record propose_batch_buffer =
  pb_payloads :: "payload list"
  pb_senders :: "chan list"
  pb_last_flush :: u64

definition pb_new :: "u64 \<Rightarrow> propose_batch_buffer" where
  "pb_new now = \<lparr>pb_payloads = [], pb_senders = [], pb_last_flush = now\<rparr>"

definition pb_push :: "payload \<Rightarrow> chan \<Rightarrow> propose_batch_buffer \<Rightarrow> propose_batch_buffer" where
  "pb_push p ch b = b\<lparr>pb_payloads := pb_payloads b @ [p], pb_senders := pb_senders b @ [ch]\<rparr>"

definition pb_flush :: "u64 \<Rightarrow> propose_batch_buffer \<Rightarrow> propose_batch_buffer \<times> raft_request_with_signal option" where
  "pb_flush now b =
     (if pb_payloads b = [] then (b, None)
      else (\<lparr>pb_payloads = [], pb_senders = [], pb_last_flush = now\<rparr>,
            Some \<lparr>rq_payloads = pb_payloads b, rq_senders = pb_senders b, rq_wait_for_apply = True\<rparr>))"

definition pb_is_empty :: "propose_batch_buffer \<Rightarrow> bool" where
  "pb_is_empty b = (pb_payloads b = [])"

definition pb_len :: "propose_batch_buffer \<Rightarrow> nat" where
  "pb_len b = length (pb_payloads b)"

record backpressure_config =
  bp_max_pending_writes :: nat
  bp_max_pending_reads :: nat

definition should_reject_write :: "backpressure_config \<Rightarrow> nat \<Rightarrow> bool" where
  "should_reject_write b current_pending =
     (bp_max_pending_writes b > 0 \<and> current_pending \<ge> bp_max_pending_writes b)"

definition should_reject_read :: "backpressure_config \<Rightarrow> nat \<Rightarrow> bool" where
  "should_reject_read b current_pending =
     (bp_max_pending_reads b > 0 \<and> current_pending \<ge> bp_max_pending_reads b)"

record replication_timer =
  rt_timeout :: u64
  rt_deadline :: u64

definition rt_new :: "u64 \<Rightarrow> u64 \<Rightarrow> replication_timer" where
  "rt_new now timeout = \<lparr>rt_timeout = timeout, rt_deadline = now + timeout\<rparr>"

definition rt_reset :: "u64 \<Rightarrow> replication_timer \<Rightarrow> replication_timer" where
  "rt_reset now t = t\<lparr>rt_deadline := now + rt_timeout t\<rparr>"

definition rt_is_expired :: "u64 \<Rightarrow> replication_timer \<Rightarrow> bool" where
  "rt_is_expired now t = (rt_deadline t \<le> now)"

text \<open>Each payload keeps its sender at the same position.\<close>

definition pb_inv :: "propose_batch_buffer \<Rightarrow> bool" where
  "pb_inv b = (length (pb_payloads b) = length (pb_senders b))"

lemma pb_inv_ops:
  "pb_inv (pb_new now)" "pb_inv b \<Longrightarrow> pb_inv (pb_push p ch b)" "pb_inv b \<Longrightarrow> pb_inv (fst (pb_flush now b))"
  by (auto simp: pb_inv_def pb_new_def pb_push_def pb_flush_def)

text \<open>Pushing any number of requests and flushing once returns all of them in order and leaves
  the buffer empty.\<close>

fun pb_push_all :: "(payload \<times> chan) list \<Rightarrow> propose_batch_buffer \<Rightarrow> propose_batch_buffer" where
  "pb_push_all [] b = b"
| "pb_push_all ((p, ch) # xs) b = pb_push_all xs (pb_push p ch b)"

lemma pb_push_all_fields:
  "pb_payloads (pb_push_all xs b) = pb_payloads b @ map fst xs"
  "pb_senders (pb_push_all xs b) = pb_senders b @ map snd xs"
  by (induction xs b rule: pb_push_all.induct) (simp_all add: pb_push_def)

lemma pb_flush_all:
  assumes "xs \<noteq> []"
  shows "pb_flush now (pb_push_all xs (pb_new t)) =
     (\<lparr>pb_payloads = [], pb_senders = [], pb_last_flush = now\<rparr>,
      Some \<lparr>rq_payloads = map fst xs, rq_senders = map snd xs, rq_wait_for_apply = True\<rparr>)"
  using assms by (simp add: pb_flush_def pb_push_all_fields pb_new_def)

end
