(* ===== verification/Roles.thy ===== *)
theory Roles
  imports Role_State
begin

text \<open>
  The follower, the candidate and the learner (\<^verbatim>\<open>d-engine-core/src/raft_role\<close>:
  \<^verbatim>\<open>follower_state.rs\<close>, \<^verbatim>\<open>candidate_state.rs\<close>, \<^verbatim>\<open>learner_state.rs\<close>): construction and
  conversion of the states, the tick, the handlers of inbound events and of the internal
  events each role overrides.  What a snapshot stream brings and what the peers answer to a
  vote request are arguments.
\<close>

record snapshot_input =
  si_first_chunk :: "(node_id \<times> u64) option"
  si_prepared :: "unit result"
  si_installed :: "snapshot_apply_result result"

section \<open>Construction and conversion\<close>

definition new_deadline :: "role_env \<Rightarrow> u64" where
  "new_deadline env = en_now env + en_random env"

definition follower_new :: "role_env \<Rightarrow> node_id \<Rightarrow> hard_state option \<Rightarrow> u64 option \<Rightarrow> base_role" where
  "follower_new env node_id hard_state_from_db last_applied =
     \<lparr>ro_kind = NR_Follower, ro_shared = shared_new node_id hard_state_from_db last_applied,
      ro_deadline = Some (new_deadline env), ro_last_purged_index = None,
      ro_pending_purge_upto = Some None, ro_snapshot_in_progress = Some False\<rparr>"

definition learner_new :: "node_id \<Rightarrow> base_role" where
  "learner_new node_id =
     \<lparr>ro_kind = NR_Learner, ro_shared = shared_new node_id None None,
      ro_deadline = None, ro_last_purged_index = None,
      ro_pending_purge_upto = Some None, ro_snapshot_in_progress = Some False\<rparr>"

definition candidate_of_follower :: "role_env \<Rightarrow> base_role \<Rightarrow> base_role" where
  "candidate_of_follower env f =
     \<lparr>ro_kind = NR_Candidate, ro_shared = ro_shared f, ro_deadline = Some (new_deadline env),
      ro_last_purged_index = ro_last_purged_index f,
      ro_pending_purge_upto = None, ro_snapshot_in_progress = None\<rparr>"

definition follower_of_candidate :: "role_env \<Rightarrow> base_role \<Rightarrow> base_role" where
  "follower_of_candidate env r =
     \<lparr>ro_kind = NR_Follower, ro_shared = ro_shared r, ro_deadline = Some (new_deadline env),
      ro_last_purged_index = ro_last_purged_index r,
      ro_pending_purge_upto = Some None, ro_snapshot_in_progress = Some False\<rparr>"

definition follower_of_learner :: "role_env \<Rightarrow> base_role \<Rightarrow> base_role" where
  "follower_of_learner env r =
     \<lparr>ro_kind = NR_Follower, ro_shared = ro_shared r, ro_deadline = Some (new_deadline env),
      ro_last_purged_index = ro_last_purged_index r,
      ro_pending_purge_upto = ro_pending_purge_upto r, ro_snapshot_in_progress = Some False\<rparr>"

definition learner_of_follower :: "base_role \<Rightarrow> base_role" where
  "learner_of_follower f =
     \<lparr>ro_kind = NR_Learner, ro_shared = ro_shared f, ro_deadline = None,
      ro_last_purged_index = ro_last_purged_index f,
      ro_pending_purge_upto = ro_pending_purge_upto f, ro_snapshot_in_progress = Some False\<rparr>"

definition learner_of_candidate :: "base_role \<Rightarrow> base_role" where
  "learner_of_candidate r =
     \<lparr>ro_kind = NR_Learner, ro_shared = ro_shared r, ro_deadline = None,
      ro_last_purged_index = ro_last_purged_index r,
      ro_pending_purge_upto = Some None, ro_snapshot_in_progress = Some False\<rparr>"

definition become_candidate :: "role_env \<Rightarrow> base_role \<Rightarrow> base_role result" where
  "become_candidate env r =
     (if ro_kind r = NR_Follower then Inr (candidate_of_follower env r) else Inl InvalidTransition)"

definition become_follower :: "role_env \<Rightarrow> base_role \<Rightarrow> base_role result" where
  "become_follower env r =
     (case ro_kind r of
        NR_Candidate \<Rightarrow> Inr (follower_of_candidate env r)
      | NR_Learner \<Rightarrow> Inr (follower_of_learner env r)
      | _ \<Rightarrow> Inl InvalidTransition)"

definition become_learner :: "base_role \<Rightarrow> base_role result" where
  "become_learner r =
     (case ro_kind r of
        NR_Follower \<Rightarrow> Inr (learner_of_follower r)
      | NR_Candidate \<Rightarrow> Inr (learner_of_candidate r)
      | _ \<Rightarrow> Inl InvalidTransition)"

section \<open>Ticks\<close>

definition follower_tick :: "role_env \<Rightarrow> base_role \<Rightarrow> raft_context \<Rightarrow> (base_role \<times> raft_context) \<times> unit result" where
  "follower_tick env r c =
     (if (case ro_deadline r of Some d \<Rightarrow> en_now env < d | None \<Rightarrow> False) then ((r, c), Inr ())
      else (case send_event env BecomeCandidate c of (c1, res) \<Rightarrow> ((reset_timer env r, c1), res)))"

text \<open>The vote a candidate gives itself.\<close>

definition own_vote :: "node_id \<Rightarrow> u64 \<Rightarrow> voted_for" where
  "own_vote me trm = \<lparr>vf_id = me, vf_term = trm, vf_committed = False\<rparr>"

definition candidate_tick ::
    "role_env \<Rightarrow> (node_id \<Rightarrow> vote_request \<Rightarrow> vote_response result) \<Rightarrow> (node_id list \<Rightarrow> node_id list)
     \<Rightarrow> base_role \<Rightarrow> raft_context \<Rightarrow> (base_role \<times> raft_context) \<times> unit result" where
  "candidate_tick env send arrive r c =
     (if (case ro_deadline r of Some d \<Rightarrow> en_now env < d | None \<Rightarrow> False) then ((r, c), Inr ())
      else
        (let r1 = reset_timer env r; me = ss_node_id (ro_shared r); new_term = ro_term r + 1 in
         case commit_hard_state env (Some new_term) (Some (own_vote me new_term)) (ro_shared r1) c of
           ((s2, c2), Inl e) \<Rightarrow> ((r1\<lparr>ro_shared := s2\<rparr>, c2), Inl e)
         | ((s2, c2), Inr _) \<Rightarrow>
             (let r2 = r1\<lparr>ro_shared := s2\<rparr>; m = cx_membership c2 in
              case broadcast_vote_requests me (ss_term s2) (is_single_node_cluster m)
                     (map nm_id (voters m)) (cx_log c2) send arrive of
                Inr _ \<Rightarrow> ((r2, fst (send_event env BecomeLeader c2)), Inr ())
              | Inl (HigherTerm higher_term) \<Rightarrow>
                  (case commit_hard_state env (Some higher_term) None s2 c2 of
                     ((s3, c3), Inl e) \<Rightarrow> ((r2\<lparr>ro_shared := s3\<rparr>, c3), Inl e)
                   | ((s3, c3), Inr _) \<Rightarrow>
                       (case send_event env (BecomeFollower None) c3 of
                          (c4, res) \<Rightarrow> ((r2\<lparr>ro_shared := s3\<rparr>, c4), res)))
              | Inl e \<Rightarrow> ((r2, c2), Inr ()))))"

definition learner_tick :: "base_role \<Rightarrow> raft_context \<Rightarrow> (base_role \<times> raft_context) \<times> unit result" where
  "learner_tick r c = ((r, c), Inr ())"

section \<open>Vote requests\<close>

definition vote_response_of :: "u64 \<Rightarrow> bool \<Rightarrow> raft_log \<Rightarrow> vote_response" where
  "vote_response_of trm granted l =
     (let i = lid_or_zero (last_log_id l)
      in \<lparr>vr_term = trm, vr_granted = granted, vr_last_log_index = lid_index i, vr_last_log_term = lid_term i\<rparr>)"

definition follower_vote_request ::
    "role_env \<Rightarrow> vote_request \<Rightarrow> chan \<Rightarrow> base_role \<Rightarrow> raft_context \<Rightarrow> (base_role \<times> raft_context) \<times> unit result" where
  "follower_vote_request env req sender r c =
     (let my_term = ro_term r;
          u = handle_vote_request req my_term (ss_voted_for (ro_shared r)) (cx_log c);
          granted = (su_new_voted_for u \<noteq> None);
          response = vote_response_of my_term granted (cx_log c);
          r1 = (if granted then reset_timer env r else r)
      in case commit_hard_state env (su_term_update u) (su_new_voted_for u) (ro_shared r1) c of
           ((s2, c2), Inl e) \<Rightarrow> ((r1\<lparr>ro_shared := s2\<rparr>, c2), Inl e)
         | ((s2, c2), Inr _) \<Rightarrow>
             (case send_reply env sender (VoteReply response) c2 of
                (c3, res) \<Rightarrow> ((r1\<lparr>ro_shared := s2\<rparr>, c3), res)))"

text \<open>A candidate that finds the request legal adopts its term and leaves the answer to the
  follower it becomes.\<close>

definition candidate_vote_request ::
    "role_env \<Rightarrow> vote_request \<Rightarrow> chan \<Rightarrow> base_role \<Rightarrow> raft_context \<Rightarrow> (base_role \<times> raft_context) \<times> unit result" where
  "candidate_vote_request env req sender r c =
     (let my_term = ro_term r; i = lid_or_zero (last_log_id (cx_log c)) in
      if check_vote_request_is_legal req my_term (lid_index i) (lid_term i) (ss_voted_for (ro_shared r)) then
        (case commit_hard_state env (Some (vq_term req)) None (ro_shared r) c of
           ((s2, c2), Inl e) \<Rightarrow> ((r\<lparr>ro_shared := s2\<rparr>, c2), Inl e)
         | ((s2, c2), Inr _) \<Rightarrow>
             (case send_event env (BecomeFollower None) c2 of
                (c3, Inl e) \<Rightarrow> ((r\<lparr>ro_shared := s2\<rparr>, c3), Inl e)
              | (c3, Inr _) \<Rightarrow>
                  (case send_event env (ReprocessEvent (ReceiveVoteRequest req sender)) c3 of
                     (c4, res) \<Rightarrow> ((r\<lparr>ro_shared := s2\<rparr>, c4), res))))
      else ((r, send_reply_quiet env (VoteReply (vote_response_of my_term False (cx_log c))) sender c), Inr ()))"

definition learner_vote_request ::
    "role_env \<Rightarrow> vote_request \<Rightarrow> chan \<Rightarrow> base_role \<Rightarrow> raft_context \<Rightarrow> (base_role \<times> raft_context) \<times> unit result" where
  "learner_vote_request env req sender r c =
     (let my_term = ro_term r in
      case (if vq_term req > my_term
            then commit_hard_state env (Some (vq_term req)) None (ro_shared r) c
            else ((ro_shared r, c), Inr False)) of
        ((s2, c2), Inl e) \<Rightarrow> ((r\<lparr>ro_shared := s2\<rparr>, c2), Inl e)
      | ((s2, c2), Inr _) \<Rightarrow>
          (case send_reply env sender (VoteReply (vote_response_of my_term False (cx_log c2))) c2 of
             (c3, res) \<Rightarrow> ((r\<lparr>ro_shared := s2\<rparr>, c3), res)))"

section \<open>Configuration updates and discovery\<close>

definition conf_update_event ::
    "conf_change_request \<Rightarrow> base_role \<Rightarrow> raft_context \<Rightarrow> raft_context \<times> conf_update_response" where
  "conf_update_event req r c =
     (let me = ss_node_id (ro_shared r); v = get_cluster_conf_version (cx_membership c) in
      case update_cluster_conf_from_leader (cx_membership c) me (ro_term r) v
             (current_leader (ro_shared r)) req of
        (m, Inr res) \<Rightarrow> (c\<lparr>cx_membership := m\<rparr>, res)
      | (m, Inl _) \<Rightarrow> (c\<lparr>cx_membership := m\<rparr>, cu_internal_error me (ro_term r) v))"

definition discover_leader_reply :: "base_role \<Rightarrow> raft_context \<Rightarrow> reply" where
  "discover_leader_reply r c =
     (case current_leader (ro_shared r) of
        Some leader_id \<Rightarrow>
          (case retrieve_node_meta (cx_membership c) leader_id of
             Some meta \<Rightarrow> LeaderReply leader_id (nm_address meta) (ro_term r)
           | None \<Rightarrow> StatusReply (NotFound ''Leader metadata not found''))
      | None \<Rightarrow> StatusReply (Unavailable ''Leader not discovered''))"

text \<open>An answer that must reach its receiver, with the error returned after it.\<close>

definition reply_then ::
    "role_env \<Rightarrow> chan \<Rightarrow> reply \<Rightarrow> unit result \<Rightarrow> base_role \<Rightarrow> raft_context
     \<Rightarrow> (base_role \<times> raft_context) \<times> unit result" where
  "reply_then env ch a res r c =
     (case send_reply env ch a c of
        (c1, Inl e) \<Rightarrow> ((r, c1), Inl e)
      | (c1, Inr _) \<Rightarrow> ((r, c1), res))"

section \<open>Inbound events\<close>

definition follower_handle_inbound_event ::
    "role_env \<Rightarrow> snapshot_input \<Rightarrow> inbound_event \<Rightarrow> base_role \<Rightarrow> raft_context
     \<Rightarrow> (base_role \<times> raft_context) \<times> unit result" where
  "follower_handle_inbound_event env snap ev r c =
     (case ev of
        ReceiveVoteRequest req sender \<Rightarrow> follower_vote_request env req sender r c
      | ClusterConf sender \<Rightarrow>
          reply_then env sender (ConfReply (retrieve_cluster_membership_config (cx_membership c)
                                   (current_leader (ro_shared r)))) (Inr ()) r c
      | ClusterConfUpdate req sender \<Rightarrow>
          (case conf_update_event req r c of (c1, res) \<Rightarrow>
             reply_then env sender (ConfUpdateReply res) (Inr ()) r c1)
      | AppendEntries req senders \<Rightarrow>
          handle_append_entries_request_workflow env req senders (state_snapshot_of r) r c
      | InstallSnapshotChunk sender \<Rightarrow>
          handle_install_snapshot_chunk_workflow env (si_first_chunk snap) (si_prepared snap)
            (si_installed snap) sender (state_snapshot_of r) r c
      | JoinCluster _ sender \<Rightarrow>
          reply_then env sender
            (StatusReply (PermissionDenied ''Follower should not receive JoinCluster event.''))
            (Inl (RoleViolation ''Follower'' ''Leader'' ''Follower receives JoinCluster'')) r c
      | DiscoverLeader _ _ sender \<Rightarrow> reply_then env sender (discover_leader_reply r c) (Inr ()) r c
      | InboundFatal source err \<Rightarrow> ((r, c), Inl (Fatal (''Fatal error from '' @ source @ '': '' @ err))))"

definition candidate_handle_inbound_event ::
    "role_env \<Rightarrow> inbound_event \<Rightarrow> base_role \<Rightarrow> raft_context \<Rightarrow> (base_role \<times> raft_context) \<times> unit result" where
  "candidate_handle_inbound_event env ev r c =
     (case ev of
        ReceiveVoteRequest req sender \<Rightarrow> candidate_vote_request env req sender r c
      | ClusterConf sender \<Rightarrow>
          ((r, send_reply_quiet env (ConfReply (retrieve_cluster_membership_config (cx_membership c)
                 (current_leader (ro_shared r)))) sender c), Inr ())
      | ClusterConfUpdate req sender \<Rightarrow>
          (case conf_update_event req r c of (c1, res) \<Rightarrow>
             ((r, send_reply_quiet env (ConfUpdateReply res) sender c1), Inr ()))
      | AppendEntries req senders \<Rightarrow>
          (let my_term = ro_term r in
           if ae_term req \<ge> my_term then
             (let r1 = reset_timer env r;
                  s1 = set_current_leader (ae_leader_id req) (ro_shared r1)
              in case (if ae_term req > my_term then commit_hard_state env (Some (ae_term req)) None s1 c
                       else ((s1, c), Inr False)) of
                   ((s2, c2), Inl e) \<Rightarrow> ((r1\<lparr>ro_shared := s2\<rparr>, c2), Inl e)
                 | ((s2, c2), Inr _) \<Rightarrow>
                     (case send_event env (BecomeFollower None) c2 of
                        (c3, Inl e) \<Rightarrow> ((r1\<lparr>ro_shared := s2\<rparr>, c3), Inl e)
                      | (c3, Inr _) \<Rightarrow>
                          (case send_event env (ReprocessEvent (AppendEntries req senders)) c3 of
                             (c4, res) \<Rightarrow> ((r1\<lparr>ro_shared := s2\<rparr>, c4), res))))
           else
             (case check_append_entries_request_is_legal (ss_node_id (ro_shared r)) my_term req (cx_log c) of
                Inl e \<Rightarrow> ((r, c), Inl e)
              | Inr response \<Rightarrow> ((r, send_all env (AppendReply response) senders c), Inr ())))
      | InstallSnapshotChunk sender \<Rightarrow>
          reply_then env sender (StatusReply (PermissionDenied ''Not Follower or Learner.''))
            (Inl (RoleViolation ''Candidate'' ''Follower or Learner'' ''Candidate receives InstallSnapshotChunk'')) r c
      | JoinCluster _ sender \<Rightarrow>
          reply_then env sender
            (StatusReply (PermissionDenied ''Candidate should not receive JoinCluster event.''))
            (Inl (RoleViolation ''Candidate'' ''Leader'' ''Candidate receives JoinCluster'')) r c
      | DiscoverLeader _ _ sender \<Rightarrow>
          reply_then env sender
            (StatusReply (PermissionDenied ''Candidate should not response DiscoverLeader event.'')) (Inr ()) r c
      | InboundFatal source err \<Rightarrow> ((r, c), Inl (Fatal (''Fatal error from '' @ source @ '': '' @ err))))"

definition learner_handle_inbound_event ::
    "role_env \<Rightarrow> snapshot_input \<Rightarrow> inbound_event \<Rightarrow> base_role \<Rightarrow> raft_context
     \<Rightarrow> (base_role \<times> raft_context) \<times> unit result" where
  "learner_handle_inbound_event env snap ev r c =
     (case ev of
        ReceiveVoteRequest req sender \<Rightarrow> learner_vote_request env req sender r c
      | ClusterConf sender \<Rightarrow>
          reply_then env sender (StatusReply (PermissionDenied
            ''Not able to respond to cluster conf request as node is Learner'')) (Inr ()) r c
      | ClusterConfUpdate req sender \<Rightarrow>
          (case conf_update_event req r c of (c1, res) \<Rightarrow>
             reply_then env sender (ConfUpdateReply res) (Inr ()) r c1)
      | AppendEntries req senders \<Rightarrow>
          handle_append_entries_request_workflow env req senders (state_snapshot_of r) r c
      | InstallSnapshotChunk sender \<Rightarrow>
          handle_install_snapshot_chunk_workflow env (si_first_chunk snap) (si_prepared snap)
            (si_installed snap) sender (state_snapshot_of r) r c
      | JoinCluster _ sender \<Rightarrow>
          reply_then env sender
            (StatusReply (PermissionDenied ''Learner should not receive JoinCluster event.''))
            (Inl (RoleViolation ''Learner'' ''Leader'' ''Learner receives JoinCluster'')) r c
      | DiscoverLeader _ _ sender \<Rightarrow>
          reply_then env sender
            (StatusReply (PermissionDenied ''Learner should not response DiscoverLeader event.'')) (Inr ()) r c
      | InboundFatal source err \<Rightarrow> ((r, c), Inl (Fatal (''Fatal error from '' @ source @ '': '' @ err))))"

section \<open>Internal events\<close>

definition handle_apply_completed ::
    "role_env \<Rightarrow> u64 \<Rightarrow> base_role \<Rightarrow> raft_context \<Rightarrow> (base_role \<times> raft_context) \<times> unit result" where
  "handle_apply_completed env last_index r c =
     (if ro_kind r = NR_Candidate then ((r, c), Inr ())
      else (case check_and_trigger_snapshot env last_index (ro_kind r) (ro_term r) c of
              (c1, res) \<Rightarrow> ((r, c1), res)))"

definition handle_snapshot_created ::
    "role_env \<Rightarrow> (snapshot_metadata \<times> string) result \<Rightarrow> base_role \<Rightarrow> raft_context
     \<Rightarrow> (base_role \<times> raft_context) \<times> unit result" where
  "handle_snapshot_created env result r c =
     (case ro_pending_purge_upto r of
        None \<Rightarrow> ((r, c), Inl (RoleViolation ''Candidate'' ''Follower/Leader/Learner''
                     ''Candidate node attempted to handle created snapshot.''))
      | Some pending \<Rightarrow>
          (let r1 = r\<lparr>ro_snapshot_in_progress := Some False\<rparr> in
           case result of
             Inl _ \<Rightarrow> ((r1, c), Inr ())
           | Inr (metadata, _) \<Rightarrow>
               (case sm_last_included metadata of
                  None \<Rightarrow> ((r1, c), Inr ())
                | Some last_included \<Rightarrow>
                    (case schedule_and_execute_purge env last_included (ss_commit_index (ro_shared r1))
                            (ro_last_purged_index r1) pending c of
                       ((pending', c1), res) \<Rightarrow> ((r1\<lparr>ro_pending_purge_upto := Some pending'\<rparr>, c1), res)))))"

definition handle_log_purge_completed :: "log_id \<Rightarrow> base_role \<Rightarrow> base_role \<times> unit result" where
  "handle_log_purge_completed purged_id r =
     (case ro_pending_purge_upto r of
        None \<Rightarrow> (r, Inl (RoleViolation ''non-Leader'' ''Leader'' ''LogPurgeCompleted is a Leader-only event.''))
      | Some _ \<Rightarrow>
          if below (ro_last_purged_index r) (lid_index purged_id)
          then (r\<lparr>ro_last_purged_index := Some purged_id, ro_pending_purge_upto := Some None\<rparr>, Inr ())
          else (r, Inr ()))"

definition learner_handle_membership_applied ::
    "role_env \<Rightarrow> base_role \<Rightarrow> raft_context \<Rightarrow> (base_role \<times> raft_context) \<times> unit result" where
  "learner_handle_membership_applied env r c =
     (case retrieve_node_meta (cx_membership c) (ss_node_id (ro_shared r)) of
        Some meta \<Rightarrow>
          if nm_role meta \<noteq> NR_Learner
          then (case send_event env (BecomeFollower None) c of (c1, res) \<Rightarrow> ((r, c1), res))
          else ((r, c), Inr ())
      | None \<Rightarrow> ((r, c), Inr ()))"

section \<open>Discovery of the leader by a learner\<close>

record discovery_response =
  dr_leader_id :: node_id
  dr_address :: string
  dr_term :: u64

definition select_valid_leader :: "discovery_response list \<Rightarrow> node_id option" where
  "select_valid_leader responses =
     (let valid = filter (\<lambda>r. dr_leader_id r \<noteq> 0 \<and> dr_term r > 0) responses in
      if valid = [] then None
      else Some (dr_leader_id (last (sort_key dr_term (sort_key dr_leader_id valid)))))"

datatype discovery_outcome =
    TimedOut
  | Answered "discovery_response list result"

record discovery_policy =
  dp_max_retries :: nat
  dp_timeout_ms :: u64
  dp_base_delay_ms :: u64
  dp_max_delay_ms :: u64

text \<open>The retry loop: \<^verbatim>\<open>attempts k\<close> is the outcome of the attempt after \<^verbatim>\<open>k\<close> retries.  With
  \<^verbatim>\<open>max_retries = 0\<close> it may run forever, which is the value \<^verbatim>\<open>None\<close>.  The result carries
  the delays slept through.\<close>

definition next_delay :: "discovery_policy \<Rightarrow> u64 \<Rightarrow> u64" where
  "next_delay p d = min (min (d * 2) u64_max) (dp_max_delay_ms p)"

definition discovery_result :: "discovery_outcome \<Rightarrow> node_id result option" where
  "discovery_result outcome =
     (case outcome of
        Answered (Inl e) \<Rightarrow> Some (Inl e)
      | Answered (Inr responses) \<Rightarrow> map_option Inr (select_valid_leader responses)
      | TimedOut \<Rightarrow> None)"

partial_function (option) broadcast_discovery ::
    "discovery_policy \<Rightarrow> (nat \<Rightarrow> discovery_outcome) \<Rightarrow> nat \<Rightarrow> u64 \<Rightarrow> u64 list
     \<Rightarrow> (node_id result \<times> u64 list) option" where
  [code]: "broadcast_discovery p attempts retry_count current_delay slept =
     (case discovery_result (attempts retry_count) of
        Some r \<Rightarrow> Some (r, slept)
      | None \<Rightarrow>
          if dp_max_retries p > 0 \<and> retry_count + 1 \<ge> dp_max_retries p
          then Some (Inl (RetryTimeoutError (dp_timeout_ms p)), slept)
          else broadcast_discovery p attempts (retry_count + 1) (next_delay p current_delay)
                 (slept @ [next_delay p current_delay]))"

text \<open>Joining: the leader is the known one or the discovered one; the node's status comes from
  its entry in the configured cluster; \<^verbatim>\<open>join\<close> is the leader's answer.\<close>

definition join_cluster ::
    "(unit \<Rightarrow> node_id result) \<Rightarrow> node_meta list \<Rightarrow> string \<Rightarrow> (node_id \<Rightarrow> join_request \<Rightarrow> bool result)
     \<Rightarrow> base_role \<Rightarrow> base_role \<times> unit result" where
  "join_cluster discover initial_cluster listen_address join r =
     (let me = ss_node_id (ro_shared r) in
      case (case current_leader (ro_shared r) of Some l \<Rightarrow> Inr l | None \<Rightarrow> discover ()) of
        Inl e \<Rightarrow> (r, Inl e)
      | Inr leader_id \<Rightarrow>
          (case find (\<lambda>n. nm_id n = me) initial_cluster of
             None \<Rightarrow> (r, Inl (JoinClusterFailed me))
           | Some n \<Rightarrow>
               (case join leader_id \<lparr>jr_node_id = me, jr_role = NR_Learner,
                       jr_address = listen_address, jr_status = nm_status n\<rparr> of
                  Inl e \<Rightarrow> (r, Inl e)
                | Inr ok \<Rightarrow>
                    if \<not> ok then (r, Inl (JoinClusterFailed me))
                    else (r\<lparr>ro_shared := set_current_leader leader_id (ro_shared r)\<rparr>, Inr ()))))"

end
