(* ===== verification/Leader_State.thy ===== *)
theory Leader_State
  imports Batch_Buffers Roles
begin

text \<open>
  The leader (\<^verbatim>\<open>d-engine-core/src/raft_role/leader_state.rs\<close>), first part: its state, the
  bookkeeping of its peers, the commit rule, the lease and the queues of waiting clients.

  Two clocks occur: \<^verbatim>\<open>en_now\<close> is \<^verbatim>\<open>Instant::now()\<close> and \<^verbatim>\<open>le_now_ms\<close> the monotonic
  milliseconds of the lease.  A replication worker is the list of the tasks sent to it; what
  it does with them is network I/O.  The timestamps kept for histograms are left out.  The
  hash maps are key-sorted association lists.
\<close>

datatype peer_replication_state = Probe | Replicate | PeerSnapshot

record read_request =
  rr_keys :: "string list"
  rr_policy :: "read_policy option"

record write_metadata =
  wm_start_idx :: u64
  wm_senders :: "chan list"
  wm_wait_for_apply :: bool
  wm_deadline :: u64

record pending_lease_read =
  pl_request :: read_request
  pl_sender :: chan
  pl_deadline :: u64

record pending_read_batch =
  pr_deadline :: u64
  pr_requests :: "(read_request \<times> chan) list"

datatype post_commit_action =
    LeaderNoop u64
  | NodeJoin node_id string chan

record post_commit_entry =
  pc_deadline :: u64
  pc_action :: post_commit_action

record pending_promotion =
  pp_node_id :: node_id
  pp_ready_since :: u64

record cluster_metadata =
  cl_single_voter :: bool
  cl_total_voters :: nat
  cl_replication_targets :: "node_meta list"

datatype replication_task =
    TaskAppend append_request
  | TaskSnapshot snapshot_metadata u64

record worker_handle =
  wh_tasks :: "replication_task list"
  wh_snapshot_failure_count :: nat
  wh_snapshot_next_retry_at :: "u64 option"

record leader_state =
  ld_shared :: shared_state
  ld_next_index :: "u64 omap"
  ld_match_index :: "u64 omap"
  ld_peer_state :: "peer_replication_state omap"
  ld_noop_log_id :: "u64 option"
  ld_scheduled_purge_upto :: "log_id option"
  ld_last_purged_index :: "log_id option"
  ld_snapshot_in_progress :: bool
  ld_propose_buffer :: propose_batch_buffer
  ld_timer :: replication_timer
  ld_last_learner_check :: u64
  ld_last_heartbeat_send_ts :: u64
  ld_stale_check_deadline :: "u64 option"
  ld_pending_promotions :: "pending_promotion list"
  ld_cluster_metadata :: cluster_metadata
  ld_linearizable_read_buffer :: "(read_request \<times> chan) batch_buffer"
  ld_lease_read_queue :: "(read_request \<times> chan) list"
  ld_eventual_read_queue :: "(read_request \<times> chan) list"
  ld_pending_write_apply :: "chan omap"
  ld_pending_reads :: "pending_read_batch omap"
  ld_pending_lease_reads :: "pending_lease_read list"
  ld_pending_client_writes :: "write_metadata omap"
  ld_pending_commit_actions :: "post_commit_entry omap"
  ld_replication_workers :: "worker_handle omap"

record backoff_policy =
  bo_base_delay_ms :: u64
  bo_push_backoff_max_delay_ms :: u64

record leader_env =
  le_role :: role_env
  le_now_ms :: u64
  le_clock_in_ms :: u64
  le_lease_duration_ms :: u64
  le_general_timeout_ms :: u64
  le_verify_timeout_ms :: u64
  le_backpressure :: backpressure_config
  le_append_entries_max :: u64
  le_stale_learner_threshold :: u64
  le_learner_check_throttle_ms :: u64
  le_learner_catchup_threshold :: u64
  le_backoff :: backoff_policy
  le_last_applied :: u64
  le_read_sm :: "string list \<Rightarrow> string list option"
  le_scan :: "string \<Rightarrow> string result"
  le_snapshot_metadata :: "snapshot_metadata option"
  le_latest_snapshot :: "snapshot_metadata option"
  le_worker_alive :: "node_id \<Rightarrow> bool"

abbreviation le_now :: "leader_env \<Rightarrow> u64" where
  "le_now env \<equiv> en_now (le_role env)"

type_synonym leader_step = "(leader_state \<times> raft_context) \<times> unit result"

definition ld_term :: "leader_state \<Rightarrow> u64" where
  "ld_term d = ss_term (ld_shared d)"

definition ld_commit_index :: "leader_state \<Rightarrow> u64" where
  "ld_commit_index d = ss_commit_index (ld_shared d)"

definition ld_node_id :: "leader_state \<Rightarrow> node_id" where
  "ld_node_id d = ss_node_id (ld_shared d)"

section \<open>Becoming leader, becoming follower\<close>

definition leader_of_candidate :: "leader_env \<Rightarrow> base_role \<Rightarrow> leader_state" where
  "leader_of_candidate env r =
     (let now = le_now env in
      \<lparr>ld_shared = set_current_leader (ss_node_id (ro_shared r)) (ro_shared r),
       ld_next_index = [], ld_match_index = [], ld_peer_state = [], ld_noop_log_id = None,
       ld_scheduled_purge_upto = None, ld_last_purged_index = ro_last_purged_index r,
       ld_snapshot_in_progress = False, ld_propose_buffer = pb_new now,
       ld_timer = rt_new now (le_clock_in_ms env), ld_last_learner_check = now,
       ld_last_heartbeat_send_ts = 0, ld_stale_check_deadline = None, ld_pending_promotions = [],
       ld_cluster_metadata = \<lparr>cl_single_voter = False, cl_total_voters = 0, cl_replication_targets = []\<rparr>,
       ld_linearizable_read_buffer = bf_new now, ld_lease_read_queue = [], ld_eventual_read_queue = [],
       ld_pending_write_apply = [], ld_pending_reads = [], ld_pending_lease_reads = [],
       ld_pending_client_writes = [], ld_pending_commit_actions = [], ld_replication_workers = []\<rparr>)"

definition follower_of_leader :: "role_env \<Rightarrow> leader_state \<Rightarrow> base_role" where
  "follower_of_leader env d =
     \<lparr>ro_kind = NR_Follower, ro_shared = ld_shared d, ro_deadline = Some (new_deadline env),
      ro_last_purged_index = ld_last_purged_index d, ro_pending_purge_upto = Some (ld_scheduled_purge_upto d),
      ro_snapshot_in_progress = Some (ld_snapshot_in_progress d)\<rparr>"

text \<open>The lease is revoked before the state is converted.\<close>

definition revoke_lease :: "shared_state \<Rightarrow> shared_state" where
  "revoke_lease s = s\<lparr>ss_lease := revoke (ss_lease s)\<rparr>"

definition leader_become_follower :: "role_env \<Rightarrow> leader_state \<Rightarrow> base_role" where
  "leader_become_follower env d = follower_of_leader env (d\<lparr>ld_shared := revoke_lease (ld_shared d)\<rparr>)"

section \<open>Peers\<close>

definition or_else :: "'a option \<Rightarrow> 'a \<Rightarrow> 'a" where
  "or_else x d = (case x of Some v \<Rightarrow> v | None \<Rightarrow> d)"

definition next_index :: "leader_state \<Rightarrow> node_id \<Rightarrow> u64" where
  "next_index d node_id = or_else (om_get (ld_next_index d) node_id) 1"

definition match_index :: "leader_state \<Rightarrow> node_id \<Rightarrow> u64 option" where
  "match_index d node_id = om_get (ld_match_index d) node_id"

definition update_next_index :: "node_id \<Rightarrow> u64 \<Rightarrow> leader_state \<Rightarrow> leader_state" where
  "update_next_index node_id new_next_id d =
     (let floor = or_else (match_index d node_id) 0 + 1
      in d\<lparr>ld_next_index := om_put node_id (max new_next_id floor) (ld_next_index d)\<rparr>)"

definition update_match_index :: "node_id \<Rightarrow> u64 \<Rightarrow> leader_state \<Rightarrow> leader_state" where
  "update_match_index node_id new_match_id d =
     (if new_match_id > or_else (match_index d node_id) 0
      then d\<lparr>ld_match_index := om_put node_id new_match_id (ld_match_index d)\<rparr> else d)"

fun init_peers_next_index_and_match_index :: "u64 \<Rightarrow> node_id list \<Rightarrow> leader_state \<Rightarrow> leader_state" where
  "init_peers_next_index_and_match_index last_id [] d = d"
| "init_peers_next_index_and_match_index last_id (peer_id # ps) d =
     init_peers_next_index_and_match_index last_id ps
       (update_match_index peer_id 0 (update_next_index peer_id (last_id + 1) d))"

definition peer_state :: "leader_state \<Rightarrow> node_id \<Rightarrow> peer_replication_state" where
  "peer_state d node_id = or_else (om_get (ld_peer_state d) node_id) Probe"

definition set_peer_state :: "node_id \<Rightarrow> peer_replication_state \<Rightarrow> leader_state \<Rightarrow> leader_state" where
  "set_peer_state node_id st d = d\<lparr>ld_peer_state := om_put node_id st (ld_peer_state d)\<rparr>"

definition update_peer_index :: "node_id \<Rightarrow> peer_update \<Rightarrow> leader_state \<Rightarrow> leader_state" where
  "update_peer_index follower_id u d =
     (let d1 = (if pu_success u
                then set_peer_state follower_id Replicate
                       (update_next_index follower_id (max (pu_next_index u) (next_index d follower_id)) d)
                else set_peer_state follower_id Probe (update_next_index follower_id (pu_next_index u) d))
      in case pu_match_index u of
           Some m \<Rightarrow> update_match_index follower_id m d1
         | None \<Rightarrow> d1)"

definition handle_peer_stream_error :: "node_id \<Rightarrow> leader_state \<Rightarrow> leader_state" where
  "handle_peer_stream_error peer_id d =
     (if peer_state d peer_id = PeerSnapshot then d
      else set_peer_state peer_id Probe
             (update_next_index peer_id (or_else (match_index d peer_id) 0 + 1) d))"

section \<open>Cluster metadata and commit index\<close>

definition update_cluster_metadata :: "membership \<Rightarrow> leader_state \<Rightarrow> leader_state" where
  "update_cluster_metadata m d =
     (let total_voters = length (voters m) + 1
      in d\<lparr>ld_cluster_metadata :=
             \<lparr>cl_single_voter = (total_voters = 1), cl_total_voters = total_voters,
              cl_replication_targets = replication_peers m\<rparr>\<rparr>)"

text \<open>\<^verbatim>\<open>init_cluster_metadata\<close> has the same body.\<close>

definition is_voter_target :: "leader_state \<Rightarrow> node_id \<Rightarrow> bool" where
  "is_voter_target d k =
     (\<exists>n \<in> set (cl_replication_targets (ld_cluster_metadata d)). nm_id n = k \<and> nm_role n \<noteq> NR_Learner)"

definition is_learner_target :: "leader_state \<Rightarrow> node_id \<Rightarrow> bool" where
  "is_learner_target d k =
     (\<exists>n \<in> set (cl_replication_targets (ld_cluster_metadata d)). nm_id n = k \<and> nm_role n = NR_Learner)"

definition voter_match_indexes :: "leader_state \<Rightarrow> u64 list" where
  "voter_match_indexes d = map snd (filter (\<lambda>(k, _). is_voter_target d k) (ld_match_index d))"

definition calculate_new_commit_index :: "leader_state \<Rightarrow> raft_log \<Rightarrow> u64 option" where
  "calculate_new_commit_index d l =
     (case calculate_majority_matched_index l (ld_term d) (ld_commit_index d) (voter_match_indexes d) of
        Some n \<Rightarrow> if n > ld_commit_index d then Some n else None
      | None \<Rightarrow> None)"

definition leader_update_commit_index :: "u64 \<Rightarrow> leader_state \<Rightarrow> leader_state" where
  "leader_update_commit_index new_commit_index d =
     (if ld_commit_index d < new_commit_index
      then d\<lparr>ld_shared := (ld_shared d)\<lparr>ss_commit_index := new_commit_index\<rparr>\<rparr> else d)"

definition leader_update_commit_index_with_signal ::
    "leader_env \<Rightarrow> u64 \<Rightarrow> leader_state \<Rightarrow> raft_context \<Rightarrow> leader_step" where
  "leader_update_commit_index_with_signal env new_commit_index d c =
     (let d1 = leader_update_commit_index new_commit_index d in
      case send_event (le_role env) (NotifyNewCommitIndex
             \<lparr>nc_index = new_commit_index, nc_role = NR_Leader, nc_term = ld_term d\<rparr>) c of
        (c1, r) \<Rightarrow> ((d1, c1), r))"

definition calculate_read_index :: "leader_state \<Rightarrow> u64" where
  "calculate_read_index d = max (ld_commit_index d) (or_else (ld_noop_log_id d) 0)"

section \<open>The lease\<close>

definition is_lease_valid :: "leader_env \<Rightarrow> leader_state \<Rightarrow> bool" where
  "is_lease_valid env d =
     is_valid_for_leader (ss_lease (ld_shared d)) (word_of_nat (ld_term d)) (word_of_nat (le_now_ms env))"

definition update_lease_timestamp :: "u64 \<Rightarrow> u64 \<Rightarrow> leader_state \<Rightarrow> leader_state \<times> unit result" where
  "update_lease_timestamp send_ts lease_duration_ms d =
     (let deadline = sat_add send_ts lease_duration_ms in
      case renew (ss_lease (ld_shared d)) (word_of_nat (ld_term d)) (word_of_nat deadline) of
        Inl e \<Rightarrow> (d, Inl e)
      | Inr w \<Rightarrow> (d\<lparr>ld_shared := (ld_shared d)\<lparr>ss_lease := w\<rparr>\<rparr>, Inr ()))"

section \<open>Answers to waiting clients\<close>

abbreviation le_send :: "leader_env \<Rightarrow> reply \<Rightarrow> chan \<Rightarrow> raft_context \<Rightarrow> raft_context" where
  "le_send env a ch c \<equiv> send_reply_quiet (le_role env) a ch c"

abbreviation le_send_all :: "leader_env \<Rightarrow> reply \<Rightarrow> chan list \<Rightarrow> raft_context \<Rightarrow> raft_context" where
  "le_send_all env a chs c \<equiv> send_all (le_role env) a chs c"

definition read_answer :: "leader_env \<Rightarrow> read_request \<Rightarrow> reply" where
  "read_answer env req = ReadReply (or_else (le_read_sm env (rr_keys req)) [])"

fun execute_pending_reads :: "leader_env \<Rightarrow> (read_request \<times> chan) list \<Rightarrow> raft_context \<Rightarrow> raft_context" where
  "execute_pending_reads env [] c = c"
| "execute_pending_reads env ((req, sender) # rs) c =
     execute_pending_reads env rs (le_send env (read_answer env req) sender c)"

definition drain_pending_lease_reads ::
    "leader_env \<Rightarrow> leader_state \<Rightarrow> raft_context \<Rightarrow> leader_state \<times> raft_context" where
  "drain_pending_lease_reads env d c =
     (d\<lparr>ld_pending_lease_reads := []\<rparr>,
      execute_pending_reads env (map (\<lambda>e. (pl_request e, pl_sender e)) (ld_pending_lease_reads d)) c)"

text \<open>The bindings up to a key leave the map in key order (\<^verbatim>\<open>split_off\<close>, \<^verbatim>\<open>range\<close>).\<close>

definition om_upto :: "nat \<Rightarrow> 'v omap \<Rightarrow> 'v omap" where
  "om_upto k m = filter (\<lambda>b. fst b \<le> k) m"

definition om_above :: "nat \<Rightarrow> 'v omap \<Rightarrow> 'v omap" where
  "om_above k m = filter (\<lambda>b. k < fst b) m"

definition serve_pending_reads ::
    "leader_env \<Rightarrow> u64 \<Rightarrow> leader_state \<Rightarrow> raft_context \<Rightarrow> leader_state \<times> raft_context" where
  "serve_pending_reads env last_index d c =
     (d\<lparr>ld_pending_reads := om_above last_index (ld_pending_reads d)\<rparr>,
      execute_pending_reads env (concat (map (pr_requests \<circ> snd) (om_upto last_index (ld_pending_reads d)))) c)"

fun insert_from :: "u64 \<Rightarrow> chan list \<Rightarrow> chan omap \<Rightarrow> chan omap" where
  "insert_from i [] m = m"
| "insert_from i (ch # chs) m = insert_from (i + 1) chs (om_put i ch m)"

fun resolve_committed_writes ::
    "leader_env \<Rightarrow> write_metadata list \<Rightarrow> leader_state \<Rightarrow> raft_context \<Rightarrow> leader_state \<times> raft_context" where
  "resolve_committed_writes env [] d c = (d, c)"
| "resolve_committed_writes env (w # ws) d c =
     (if wm_wait_for_apply w
      then resolve_committed_writes env ws
             (d\<lparr>ld_pending_write_apply := insert_from (wm_start_idx w) (wm_senders w) (ld_pending_write_apply d)\<rparr>) c
      else resolve_committed_writes env ws d (le_send_all env (WriteReply True) (wm_senders w) c))"

definition drain_pending_client_writes ::
    "leader_env \<Rightarrow> u64 \<Rightarrow> leader_state \<Rightarrow> raft_context \<Rightarrow> leader_state \<times> raft_context" where
  "drain_pending_client_writes env new_commit d c =
     resolve_committed_writes env (map snd (om_upto new_commit (ld_pending_client_writes d)))
       (d\<lparr>ld_pending_client_writes := om_above new_commit (ld_pending_client_writes d)\<rparr>) c"

definition drain_pending_writes_with_error ::
    "leader_env \<Rightarrow> client_error_code \<Rightarrow> leader_state \<Rightarrow> raft_context \<Rightarrow> leader_state \<times> raft_context" where
  "drain_pending_writes_with_error env code d c =
     (d\<lparr>ld_pending_client_writes := []\<rparr>,
      le_send_all env (ClientErrorReply code) (concat (map (wm_senders \<circ> snd) (ld_pending_client_writes d))) c)"

section \<open>Post-commit actions\<close>

definition on_noop_committed :: "leader_state \<Rightarrow> raft_context \<Rightarrow> leader_state" where
  "on_noop_committed d c = d\<lparr>ld_noop_log_id := Some (last_entry_id (cx_log c))\<rparr>"

definition join_answer :: "leader_env \<Rightarrow> leader_state \<Rightarrow> raft_context \<Rightarrow> reply" where
  "join_answer env d c =
     JoinReply (retrieve_cluster_membership_config (cx_membership c) (current_leader (ld_shared d)))
       (get_cluster_conf_version (cx_membership c)) (le_latest_snapshot env) (ld_node_id d)"

fun run_commit_actions ::
    "leader_env \<Rightarrow> post_commit_action list \<Rightarrow> leader_state \<Rightarrow> raft_context \<Rightarrow> leader_state \<times> raft_context" where
  "run_commit_actions env [] d c = (d, c)"
| "run_commit_actions env (LeaderNoop trm # as) d c =
     run_commit_actions env as (on_noop_committed d c)
       (fst (send_event (le_role env) (NoopCommitted trm) c))"
| "run_commit_actions env (NodeJoin node_id addr sender # as) d c =
     run_commit_actions env as d (le_send env (join_answer env d c) sender c)"

definition drain_commit_actions ::
    "leader_env \<Rightarrow> u64 \<Rightarrow> leader_state \<Rightarrow> raft_context \<Rightarrow> leader_state \<times> raft_context" where
  "drain_commit_actions env new_commit d c =
     run_commit_actions env (map (pc_action \<circ> snd) (om_upto new_commit (ld_pending_commit_actions d)))
       (d\<lparr>ld_pending_commit_actions := om_above new_commit (ld_pending_commit_actions d)\<rparr>) c"

section \<open>Stepping down\<close>

definition drain_read_buffer :: "leader_env \<Rightarrow> leader_state \<Rightarrow> raft_context \<Rightarrow> leader_state \<times> raft_context" where
  "drain_read_buffer env d c =
     (let gone = StatusReply (Unavailable ''Leader stepped down'');
          (lb, batch) = bf_take_all (le_now env) (ld_linearizable_read_buffer d);
          c1 = le_send_all env gone (map snd batch) c;
          c2 = le_send_all env gone (map snd (ld_lease_read_queue d)) c1;
          c3 = le_send_all env gone (map snd (ld_eventual_read_queue d)) c2;
          c4 = le_send_all env gone
                 (concat (map (map snd \<circ> pr_requests \<circ> snd) (ld_pending_reads d))) c3;
          c5 = le_send_all env gone (map pl_sender (ld_pending_lease_reads d)) c4;
          (pb, req) = pb_flush (le_now env) (ld_propose_buffer d);
          c6 = (case req of None \<Rightarrow> c5
                | Some q \<Rightarrow> le_send_all env (StatusReply (FailedPrecondition ''Not leader'')) (rq_senders q) c5)
      in drain_pending_writes_with_error env ProposeFailed
           (d\<lparr>ld_linearizable_read_buffer := lb, ld_lease_read_queue := [], ld_eventual_read_queue := [],
              ld_pending_reads := [], ld_pending_lease_reads := [], ld_propose_buffer := pb\<rparr>) c6)"

end
