(* ===== verification/Leader_Rpc.thy ===== *)
theory Leader_Rpc
  imports Leader_State
begin

text \<open>
  The leader, second part: the replication round (\<^verbatim>\<open>execute_and_process_raft_rpc\<close>) and what
  submits entries through it: client batches, heartbeats, the no-op of a new leader, joins,
  promotions and the removal of stale learners.
\<close>

definition is_panic :: "'a result \<Rightarrow> bool" where
  "is_panic r = (case r of Inl (Panic _) \<Rightarrow> True | _ \<Rightarrow> False)"

section \<open>Replication workers\<close>

definition spawn_worker :: worker_handle where
  "spawn_worker = \<lparr>wh_tasks = [], wh_snapshot_failure_count = 0, wh_snapshot_next_retry_at = None\<rparr>"

text \<open>A worker that died is replaced; the task goes to the new one.\<close>

definition send_to_worker_or_spawn :: "leader_env \<Rightarrow> node_id \<Rightarrow> replication_task \<Rightarrow> leader_state \<Rightarrow> leader_state" where
  "send_to_worker_or_spawn env peer_id task d =
     (let h = (case om_get (ld_replication_workers d) peer_id of
                 Some h \<Rightarrow> if le_worker_alive env peer_id then h else spawn_worker
               | None \<Rightarrow> spawn_worker)
      in d\<lparr>ld_replication_workers :=
             om_put peer_id (h\<lparr>wh_tasks := wh_tasks h @ [task]\<rparr>) (ld_replication_workers d)\<rparr>)"

definition snapshot_push_backoff_duration :: "nat \<Rightarrow> backoff_policy \<Rightarrow> u64" where
  "snapshot_push_backoff_duration failure_count policy =
     min (min (bo_base_delay_ms policy * 2 ^ min failure_count 20) u64_max)
         (bo_push_backoff_max_delay_ms policy)"

definition handle_snapshot_push_completed :: "leader_env \<Rightarrow> node_id \<Rightarrow> bool \<Rightarrow> leader_state \<Rightarrow> leader_state" where
  "handle_snapshot_push_completed env peer_id success d =
     (if peer_state d peer_id \<noteq> PeerSnapshot then d
      else (case om_get (ld_replication_workers d) peer_id of
              None \<Rightarrow> d
            | Some h \<Rightarrow>
                (let h1 = (if success
                           then h\<lparr>wh_snapshot_failure_count := 0, wh_snapshot_next_retry_at := None\<rparr>
                           else (let count = wh_snapshot_failure_count h + 1 in
                                 h\<lparr>wh_snapshot_failure_count := count,
                                   wh_snapshot_next_retry_at :=
                                     Some (le_now env + snapshot_push_backoff_duration count (le_backoff env))\<rparr>))
                 in set_peer_state peer_id Probe
                      (d\<lparr>ld_replication_workers := om_put peer_id h1 (ld_replication_workers d)\<rparr>))))"

section \<open>The replication round\<close>

definition leader_snapshot :: "leader_state \<Rightarrow> state_snapshot" where
  "leader_snapshot d =
     \<lparr>sn_role = NR_Leader, sn_current_term = ld_term d, sn_voted_for = None, sn_commit_index = ld_commit_index d\<rparr>"

definition leader_index_snapshot :: "leader_state \<Rightarrow> leader_state_snapshot" where
  "leader_index_snapshot d =
     \<lparr>ls_next_index = ld_next_index d, ls_match_index = ld_match_index d, ls_noop_log_id = ld_noop_log_id d\<rparr>"

text \<open>Phase 2: the batch waits for its last index.\<close>

definition store_pending_write :: "leader_env \<Rightarrow> write_metadata option \<Rightarrow> leader_state \<Rightarrow> leader_state" where
  "store_pending_write env wm d =
     (case wm of
        None \<Rightarrow> d
      | Some w \<Rightarrow>
          if wm_senders w = [] then d
          else (let end_log_index = wm_start_idx w + length (wm_senders w) - 1
                in d\<lparr>ld_pending_client_writes :=
                       om_put end_log_index (w\<lparr>wm_deadline := le_now env + le_general_timeout_ms env\<rparr>)
                         (ld_pending_client_writes d)\<rparr>))"

text \<open>Phase 3: reads are refused before the no-op is committed, served under a valid lease when
  the state machine is ready, and wait otherwise.\<close>

definition route_linearizable_reads ::
    "leader_env \<Rightarrow> (read_request \<times> chan) list option \<Rightarrow> leader_state \<Rightarrow> raft_context
     \<Rightarrow> leader_state \<times> raft_context" where
  "route_linearizable_reads env read_batch d c =
     (case read_batch of
        None \<Rightarrow> (d, c)
      | Some reads \<Rightarrow>
          if ld_noop_log_id d = None
          then (d, le_send_all env (StatusReply (Unavailable ''LeaderNotReady: noop not committed'')) (map snd reads) c)
          else (let read_index = calculate_read_index d in
                if (cl_single_voter (ld_cluster_metadata d) \<or> is_lease_valid env d)
                   \<and> le_last_applied env \<ge> read_index
                then (d, execute_pending_reads env reads c)
                else (let b = or_else (om_get (ld_pending_reads d) read_index)
                                \<lparr>pr_deadline = le_now env + le_general_timeout_ms env, pr_requests = []\<rparr>
                      in (d\<lparr>ld_pending_reads :=
                              om_put read_index (b\<lparr>pr_requests := pr_requests b @ reads\<rparr>) (ld_pending_reads d)\<rparr>,
                          c))))"

text \<open>Phase 5: a peer with a snapshot in flight gets nothing; one that confirmed its log is
  trusted to receive the entries.\<close>

fun dispatch_appends ::
    "leader_env \<Rightarrow> (node_id \<times> append_request \<times> u64) list \<Rightarrow> leader_state \<Rightarrow> leader_state" where
  "dispatch_appends env [] d = d"
| "dispatch_appends env ((peer_id, request, effective_next_index) # rs) d =
     (if peer_state d peer_id = PeerSnapshot then dispatch_appends env rs d
      else (let n = (if peer_state d peer_id = Replicate
                     then effective_next_index + length (ae_entries request) else effective_next_index)
            in dispatch_appends env rs
                 (send_to_worker_or_spawn env peer_id (TaskAppend request) (update_next_index peer_id n d))))"

text \<open>Phase 6: snapshots for the peers behind the purge boundary.\<close>

definition backing_off :: "leader_env \<Rightarrow> node_id \<Rightarrow> leader_state \<Rightarrow> bool" where
  "backing_off env peer_id d =
     (case om_get (ld_replication_workers d) peer_id of
        Some h \<Rightarrow> (case wh_snapshot_next_retry_at h of Some t \<Rightarrow> le_now env < t | None \<Rightarrow> False)
      | None \<Rightarrow> False)"

fun dispatch_snapshots :: "leader_env \<Rightarrow> snapshot_metadata \<Rightarrow> node_id list \<Rightarrow> leader_state \<Rightarrow> leader_state" where
  "dispatch_snapshots env metadata [] d = d"
| "dispatch_snapshots env metadata (peer_id # ps) d =
     (if backing_off env peer_id d \<or> peer_state d peer_id = PeerSnapshot
      then dispatch_snapshots env metadata ps d
      else dispatch_snapshots env metadata ps
             (set_peer_state peer_id PeerSnapshot
                (send_to_worker_or_spawn env peer_id (TaskSnapshot metadata (ld_term d)) d)))"

definition execute_and_process_raft_rpc ::
    "leader_env \<Rightarrow> payload list \<Rightarrow> write_metadata option \<Rightarrow> (read_request \<times> chan) list option
     \<Rightarrow> leader_state \<Rightarrow> raft_context \<Rightarrow> leader_step" where
  "execute_and_process_raft_rpc env payloads wm read_batch d c =
     (let d0 = d\<lparr>ld_last_heartbeat_send_ts := le_now_ms env\<rparr> in
      case prepare_batch_requests (ld_node_id d0) payloads (leader_snapshot d0) (leader_index_snapshot d0)
             (cl_replication_targets (ld_cluster_metadata d0)) (le_append_entries_max env) (cx_log c) of
        (l, Inl e) \<Rightarrow>
          (let c1 = c\<lparr>cx_log := l\<rparr>;
               c2 = (case wm of None \<Rightarrow> c1
                     | Some w \<Rightarrow> le_send_all env (ClientErrorReply ProposeFailed) (wm_senders w) c1);
               c3 = (case read_batch of None \<Rightarrow> c2
                     | Some reads \<Rightarrow> le_send_all env (StatusReply (FailedPrecondition ''Prepare failed''))
                                        (map snd reads) c2)
           in ((d0, c3), Inl e))
      | (l, Inr requests) \<Rightarrow>
          (case route_linearizable_reads env read_batch (store_pending_write env wm d0) (c\<lparr>cx_log := l\<rparr>) of
             (d2, c2) \<Rightarrow>
               (let d3 = dispatch_appends env (pr_append_requests requests) d2;
                    d4 = (case le_snapshot_metadata env of
                            Some metadata \<Rightarrow> dispatch_snapshots env metadata (pr_snapshot_targets requests) d3
                          | None \<Rightarrow> d3)
                in ((d4, c2), Inr ()))))"

section \<open>Batches and heartbeats\<close>

definition merge_batch_to_write_metadata ::
    "u64 \<Rightarrow> raft_request_with_signal list \<Rightarrow> u64 \<Rightarrow> payload list \<times> write_metadata option" where
  "merge_batch_to_write_metadata now batch start_idx =
     (let all_payloads = concat (map rq_payloads batch);
          all_senders = concat (map rq_senders batch);
          any_wait_for_apply = (\<exists>q \<in> set batch. rq_wait_for_apply q)
      in if all_payloads = [] \<and> all_senders = [] then (all_payloads, None)
         else (all_payloads, Some \<lparr>wm_start_idx = start_idx, wm_senders = all_senders,
                                   wm_wait_for_apply = any_wait_for_apply, wm_deadline = now\<rparr>))"

definition ld_reset_timer :: "leader_env \<Rightarrow> leader_state \<Rightarrow> leader_state" where
  "ld_reset_timer env d = d\<lparr>ld_timer := rt_reset (le_now env) (ld_timer d)\<rparr>"

definition process_batch ::
    "leader_env \<Rightarrow> raft_request_with_signal list \<Rightarrow> leader_state \<Rightarrow> raft_context \<Rightarrow> leader_step" where
  "process_batch env batch d c =
     (case merge_batch_to_write_metadata (le_now env) batch (last_entry_id (cx_log c) + 1) of
        (payloads, wm) \<Rightarrow> execute_and_process_raft_rpc env payloads wm None (ld_reset_timer env d) c)"

definition execute_request_immediately ::
    "leader_env \<Rightarrow> raft_request_with_signal \<Rightarrow> leader_state \<Rightarrow> raft_context \<Rightarrow> leader_step" where
  "execute_request_immediately env request d c = process_batch env [request] d c"

definition send_heartbeat_or_batch ::
    "leader_env \<Rightarrow> raft_request_with_signal option \<Rightarrow> leader_state \<Rightarrow> raft_context \<Rightarrow> leader_step" where
  "send_heartbeat_or_batch env request d c =
     (case request of
        Some req \<Rightarrow>
          (case merge_batch_to_write_metadata (le_now env) [req] (last_entry_id (cx_log c) + 1) of
             (payloads, wm) \<Rightarrow> execute_and_process_raft_rpc env payloads wm None (ld_reset_timer env d) c)
      | None \<Rightarrow> execute_and_process_raft_rpc env [] None None (ld_reset_timer env d) c)"

definition unified_write_and_linear_read ::
    "leader_env \<Rightarrow> leader_state \<Rightarrow> raft_context \<Rightarrow> leader_step" where
  "unified_write_and_linear_read env d c =
     (let (pb, req) = pb_flush (le_now env) (ld_propose_buffer d);
          payloads = (case req of Some q \<Rightarrow> rq_payloads q | None \<Rightarrow> []);
          wm = map_option (\<lambda>q. \<lparr>wm_start_idx = last_entry_id (cx_log c) + 1, wm_senders = rq_senders q,
                                wm_wait_for_apply = rq_wait_for_apply q, wm_deadline = le_now env\<rparr>) req;
          d1 = d\<lparr>ld_propose_buffer := pb\<rparr>;
          (d2, read_batch) =
            (if bf_is_empty (ld_linearizable_read_buffer d1) then (d1, None)
             else (case bf_take_all (le_now env) (ld_linearizable_read_buffer d1) of
                     (lb, batch) \<Rightarrow> (d1\<lparr>ld_linearizable_read_buffer := lb\<rparr>, Some batch)))
      in execute_and_process_raft_rpc env payloads wm read_batch d2 c)"

section \<open>Entries of the protocol itself\<close>

definition control_request :: "payload \<Rightarrow> raft_request_with_signal" where
  "control_request p = \<lparr>rq_payloads = [p], rq_senders = [], rq_wait_for_apply = False\<rparr>"

definition initiate_noop_commit :: "leader_env \<Rightarrow> leader_state \<Rightarrow> raft_context \<Rightarrow> leader_step" where
  "initiate_noop_commit env d c =
     (let noop_index = last_entry_id (cx_log c) + 1;
          entry = \<lparr>pc_deadline = le_now env + le_verify_timeout_ms env, pc_action = LeaderNoop (ld_term d)\<rparr>;
          d1 = d\<lparr>ld_pending_commit_actions := om_put noop_index entry (ld_pending_commit_actions d)\<rparr>
      in case execute_request_immediately env (control_request Noop) d1 c of
           ((d2, c2), Inl e) \<Rightarrow>
             ((d2\<lparr>ld_pending_commit_actions := om_del_range noop_index noop_index (ld_pending_commit_actions d2)\<rparr>, c2),
              Inl e)
         | ((d2, c2), Inr _) \<Rightarrow> ((d2, c2), Inr ()))"

text \<open>A refused join is answered and returned as an error.\<close>

definition send_join_error ::
    "leader_env \<Rightarrow> chan \<Rightarrow> error \<Rightarrow> string \<Rightarrow> leader_state \<Rightarrow> raft_context \<Rightarrow> leader_step" where
  "send_join_error env sender err msg d c =
     (case send_reply (le_role env) sender (StatusReply (FailedPrecondition msg)) c of
        (c1, Inl e) \<Rightarrow> ((d, c1), Inl e)
      | (c1, Inr _) \<Rightarrow> ((d, c1), Inl err))"

definition handle_join_cluster ::
    "leader_env \<Rightarrow> join_request \<Rightarrow> chan \<Rightarrow> leader_state \<Rightarrow> raft_context \<Rightarrow> leader_step" where
  "handle_join_cluster env req sender d c =
     (let node_id = jr_node_id req; m = cx_membership c in
      if contains_node m node_id
      then send_join_error env sender (MembershipError ''NodeAlreadyExists'') ''NodeAlreadyExists'' d c
      else (case can_rejoin m node_id (jr_role req) of
              Inl _ \<Rightarrow> send_join_error env sender (MembershipError ''JoinClusterError'') ''JoinClusterError'' d c
            | Inr _ \<Rightarrow>
                (case execute_request_immediately env
                        (control_request (Config (Some (AddNode node_id (jr_address req) (jr_status req))))) d c of
                   ((d1, c1), Inl e) \<Rightarrow>
                     ((d1, le_send env (StatusReply (FailedPrecondition ''Join request submission failed'')) sender c1),
                      Inl e)
                 | ((d1, c1), Inr _) \<Rightarrow>
                     (let join_index = last_entry_id (cx_log c1);
                          entry = \<lparr>pc_deadline = le_now env + le_verify_timeout_ms env,
                                   pc_action = NodeJoin node_id (jr_address req) sender\<rparr>
                      in ((d1\<lparr>ld_pending_commit_actions := om_put join_index entry (ld_pending_commit_actions d1)\<rparr>, c1),
                          Inr ())))))"

section \<open>Promotion of learners\<close>

definition refresh_stale_deadline :: "u64 \<Rightarrow> leader_state \<Rightarrow> leader_state" where
  "refresh_stale_deadline threshold d =
     d\<lparr>ld_stale_check_deadline :=
         (case ld_pending_promotions d of [] \<Rightarrow> None | p # _ \<Rightarrow> Some (pp_ready_since p + threshold))\<rparr>"

definition should_check_learner_progress :: "leader_env \<Rightarrow> leader_state \<Rightarrow> leader_state \<times> bool" where
  "should_check_learner_progress env d =
     (if le_now env - ld_last_learner_check d < le_learner_check_throttle_ms env then (d, False)
      else (d\<lparr>ld_last_learner_check := le_now env\<rparr>, True))"

definition is_learner_caught_up :: "u64 option \<Rightarrow> u64 \<Rightarrow> u64 \<Rightarrow> bool" where
  "is_learner_caught_up matched leader_commit threshold = (leader_commit - or_else matched 0 \<le> threshold)"

definition find_promotable_learners ::
    "leader_env \<Rightarrow> (node_id \<times> u64 option) list \<Rightarrow> leader_state \<Rightarrow> membership \<Rightarrow> node_id list" where
  "find_promotable_learners env learner_progress d m =
     map fst (filter (\<lambda>(node_id, match_index_opt).
         contains_node m node_id
         \<and> is_learner_caught_up match_index_opt (ld_commit_index d) (le_learner_catchup_threshold env)
         \<and> is_promotable (or_else (get_node_status m node_id) NS_ReadOnly)) learner_progress)"

definition deduplicate_promotions :: "node_id list \<Rightarrow> leader_state \<Rightarrow> node_id list" where
  "deduplicate_promotions ready_learners d =
     filter (\<lambda>i. i \<notin> pp_node_id ` set (ld_pending_promotions d)) ready_learners"

definition enqueue_and_notify_promotions ::
    "leader_env \<Rightarrow> node_id list \<Rightarrow> leader_state \<Rightarrow> raft_context \<Rightarrow> leader_step" where
  "enqueue_and_notify_promotions env new_promotions d c =
     (let d1 = d\<lparr>ld_pending_promotions := ld_pending_promotions d
                   @ map (\<lambda>i. \<lparr>pp_node_id = i, pp_ready_since = le_now env\<rparr>) new_promotions\<rparr>;
          d2 = (if ld_stale_check_deadline d1 = None
                then refresh_stale_deadline (le_stale_learner_threshold env) d1 else d1)
      in case send_event (le_role env) PromoteReadyLearners c of (c1, r) \<Rightarrow> ((d2, c1), r))"

definition check_learner_progress ::
    "leader_env \<Rightarrow> (node_id \<times> u64 option) list \<Rightarrow> leader_state \<Rightarrow> raft_context \<Rightarrow> leader_step" where
  "check_learner_progress env learner_progress d c =
     (case should_check_learner_progress env d of
        (d1, check) \<Rightarrow>
          if \<not> check \<or> learner_progress = [] then ((d1, c), Inr ())
          else (let new_promotions = deduplicate_promotions
                      (find_promotable_learners env learner_progress d1 (cx_membership c)) d1
                in if new_promotions = [] then ((d1, c), Inr ())
                   else enqueue_and_notify_promotions env new_promotions d1 c))"

definition calculate_safe_batch_size :: "nat \<Rightarrow> nat \<Rightarrow> nat" where
  "calculate_safe_batch_size current available =
     (if (current + available) mod 2 = 1 then available else available - 1)"

definition drain_batch :: "nat \<Rightarrow> leader_state \<Rightarrow> leader_state \<times> pending_promotion list" where
  "drain_batch count d =
     (d\<lparr>ld_pending_promotions := drop count (ld_pending_promotions d)\<rparr>, take count (ld_pending_promotions d))"

definition safe_batch_promote :: "leader_env \<Rightarrow> node_id list \<Rightarrow> leader_state \<Rightarrow> raft_context \<Rightarrow> leader_step" where
  "safe_batch_promote env batch d c =
     execute_request_immediately env (control_request (Config (Some (BatchPromote batch NS_Active)))) d c"

definition handle_promote_ready_learners :: "leader_env \<Rightarrow> leader_state \<Rightarrow> raft_context \<Rightarrow> leader_step" where
  "handle_promote_ready_learners env d c =
     (let threshold = le_stale_learner_threshold env;
          d1 = refresh_stale_deadline threshold
                 (d\<lparr>ld_pending_promotions :=
                      filter (\<lambda>p. le_now env - pp_ready_since p \<le> threshold) (ld_pending_promotions d)\<rparr>)
      in if ld_pending_promotions d1 = [] then ((d1, c), Inr ())
         else
           (let current_voters = length (voters (cx_membership c)) + 1;
                max_batch_size = calculate_safe_batch_size current_voters (length (ld_pending_promotions d1))
            in if max_batch_size = 0 then ((d1, c), Inr ())
               else (case drain_batch max_batch_size d1 of
                       (d2, entries) \<Rightarrow>
                         (case safe_batch_promote env (map pp_node_id entries) d2 c of
                            ((d3, c3), Inl e) \<Rightarrow>
                              ((refresh_stale_deadline threshold
                                  (d3\<lparr>ld_pending_promotions := entries @ ld_pending_promotions d3\<rparr>), c3), Inl e)
                          | ((d3, c3), Inr _) \<Rightarrow>
                              (let d4 = refresh_stale_deadline threshold d3 in
                               if ld_pending_promotions d4 = [] then ((d4, c3), Inr ())
                               else (case send_event (le_role env) PromoteReadyLearners c3 of
                                       (c4, r) \<Rightarrow> ((d4, c4), r)))))))"

section \<open>Stale learners\<close>

definition handle_stale_learner :: "leader_env \<Rightarrow> node_id \<Rightarrow> leader_state \<Rightarrow> raft_context \<Rightarrow> leader_step" where
  "handle_stale_learner env node_id d c =
     execute_request_immediately env (control_request (Config (Some (BatchRemove [node_id])))) d c"

text \<open>Failures are logged; a panic ends the loop.\<close>

fun handle_stale_learners :: "leader_env \<Rightarrow> node_id list \<Rightarrow> leader_state \<Rightarrow> raft_context \<Rightarrow> leader_step" where
  "handle_stale_learners env [] d c = ((d, c), Inr ())"
| "handle_stale_learners env (n # ns) d c =
     (case handle_stale_learner env n d c of
        ((d1, c1), r) \<Rightarrow> if is_panic r then ((d1, c1), r) else handle_stale_learners env ns d1 c1)"

definition check_and_purge_stale_front :: "leader_env \<Rightarrow> leader_state \<Rightarrow> raft_context \<Rightarrow> leader_step" where
  "check_and_purge_stale_front env d c =
     (let threshold = le_stale_learner_threshold env;
          stale = (\<lambda>p. le_now env \<ge> pp_ready_since p + threshold);
          d1 = refresh_stale_deadline threshold
                 (d\<lparr>ld_pending_promotions := dropWhile stale (ld_pending_promotions d)\<rparr>)
      in handle_stale_learners env (map pp_node_id (takeWhile stale (ld_pending_promotions d))) d1 c)"

end
