(* ===== verification/Leader_Events.thy ===== *)
theory Leader_Events
  imports Leader_Rpc
begin

text \<open>
  The leader, third part: its tick, the client commands, and its inbound and internal events.
\<close>

section \<open>The tick\<close>

text \<open>What expired is answered and removed; the keys stay in order.\<close>

definition expire_writes :: "leader_env \<Rightarrow> leader_state \<Rightarrow> raft_context \<Rightarrow> leader_state \<times> raft_context" where
  "expire_writes env d c =
     (let expired = (\<lambda>w. le_now env \<ge> wm_deadline w) in
      (d\<lparr>ld_pending_client_writes := filter (\<lambda>b. \<not> expired (snd b)) (ld_pending_client_writes d)\<rparr>,
       le_send_all env (StatusReply (DeadlineExceeded ''write request timeout''))
         (concat (map (wm_senders \<circ> snd) (filter (\<lambda>b. expired (snd b)) (ld_pending_client_writes d)))) c))"

definition expire_reads :: "leader_env \<Rightarrow> leader_state \<Rightarrow> raft_context \<Rightarrow> leader_state \<times> raft_context" where
  "expire_reads env d c =
     (let expired = (\<lambda>b. le_now env \<ge> pr_deadline b) in
      (d\<lparr>ld_pending_reads := filter (\<lambda>b. \<not> expired (snd b)) (ld_pending_reads d)\<rparr>,
       le_send_all env (StatusReply (DeadlineExceeded ''read request timeout''))
         (concat (map (map snd \<circ> pr_requests \<circ> snd) (filter (\<lambda>b. expired (snd b)) (ld_pending_reads d)))) c))"

definition expire_lease_reads :: "leader_env \<Rightarrow> leader_state \<Rightarrow> raft_context \<Rightarrow> leader_state \<times> raft_context" where
  "expire_lease_reads env d c =
     (let expired = (\<lambda>e. le_now env \<ge> pl_deadline e) in
      (d\<lparr>ld_pending_lease_reads := filter (\<lambda>e. \<not> expired e) (ld_pending_lease_reads d)\<rparr>,
       le_send_all env (StatusReply (DeadlineExceeded ''lease read timeout''))
         (map pl_sender (filter expired (ld_pending_lease_reads d))) c))"

definition join_senders :: "post_commit_entry omap \<Rightarrow> chan list" where
  "join_senders m = concat (map (\<lambda>b. case pc_action (snd b) of NodeJoin _ _ sender \<Rightarrow> [sender] | _ \<Rightarrow> []) m)"

definition is_noop :: "post_commit_entry \<Rightarrow> bool" where
  "is_noop e = (case pc_action e of LeaderNoop _ \<Rightarrow> True | _ \<Rightarrow> False)"

definition expire_commit_actions :: "leader_env \<Rightarrow> leader_state \<Rightarrow> raft_context \<Rightarrow> leader_state \<times> raft_context" where
  "expire_commit_actions env d c =
     (let expired = (\<lambda>b. le_now env \<ge> pc_deadline (snd b));
          gone = filter expired (ld_pending_commit_actions d);
          c1 = le_send_all env (StatusReply (DeadlineExceeded ''join commit timeout'')) (join_senders gone) c
      in (d\<lparr>ld_pending_commit_actions := filter (\<lambda>b. \<not> expired b) (ld_pending_commit_actions d)\<rparr>,
          if \<exists>b \<in> set gone. is_noop (snd b)
          then fst (send_event (le_role env) (BecomeFollower None) c1) else c1))"

definition expire_all :: "leader_env \<Rightarrow> leader_state \<Rightarrow> raft_context \<Rightarrow> leader_state \<times> raft_context" where
  "expire_all env d c =
     (case expire_writes env d c of (d1, c1) \<Rightarrow>
      case expire_reads env d1 c1 of (d2, c2) \<Rightarrow>
      case expire_lease_reads env d2 c2 of (d3, c3) \<Rightarrow> expire_commit_actions env d3 c3)"

definition leader_heartbeat :: "leader_env \<Rightarrow> leader_state \<Rightarrow> raft_context \<Rightarrow> leader_step" where
  "leader_heartbeat env d c =
     (if le_now env \<ge> rt_deadline (ld_timer d)
      then (case pb_flush (le_now env) (ld_propose_buffer d) of
              (pb, request) \<Rightarrow> send_heartbeat_or_batch env request (d\<lparr>ld_propose_buffer := pb\<rparr>) c)
      else ((d, c), Inr ()))"

text \<open>An error of the stale check is logged; one of the heartbeat ends the tick.\<close>

definition leader_tick :: "leader_env \<Rightarrow> leader_state \<Rightarrow> raft_context \<Rightarrow> leader_step" where
  "leader_tick env d c =
     (let d0 = d\<lparr>ld_shared := set_current_leader (ld_node_id d) (ld_shared d)\<rparr>;
          stale = (case ld_stale_check_deadline d0 of Some t \<Rightarrow> le_now env \<ge> t | None \<Rightarrow> False)
      in case (if stale then check_and_purge_stale_front env d0 c else ((d0, c), Inr ())) of
           ((d1, c1), r1) \<Rightarrow>
             if is_panic r1 then ((d1, c1), r1)
             else (case leader_heartbeat env d1 c1 of
                     ((d2, c2), Inl e) \<Rightarrow> ((d2, c2), Inl e)
                   | ((d2, c2), Inr _) \<Rightarrow> (expire_all env d2 c2, Inr ())))"

section \<open>Client commands\<close>

definition determine_read_policy :: "leader_env \<Rightarrow> read_request \<Rightarrow> read_policy" where
  "determine_read_policy env req =
     (case rr_policy req of
        Some p \<Rightarrow> if en_allow_client_override (le_role env) then p else en_default_policy (le_role env)
      | None \<Rightarrow> en_default_policy (le_role env))"

definition leader_push_client_cmd ::
    "leader_env \<Rightarrow> client_cmd \<Rightarrow> leader_state \<Rightarrow> raft_context \<Rightarrow> leader_state \<times> raft_context" where
  "leader_push_client_cmd env cmd d c =
     (let bp = le_backpressure env;
          too_many_reads = StatusReply (ResourceExhausted ''Too many pending read requests'')
      in case cmd of
           Propose command sender \<Rightarrow>
             if should_reject_write bp (pb_len (ld_propose_buffer d))
             then (d, le_send env (StatusReply (ResourceExhausted ''Too many pending write requests'')) sender c)
             else (case command of
                     Some cmd \<Rightarrow> (d\<lparr>ld_propose_buffer := pb_push (Command cmd) sender (ld_propose_buffer d)\<rparr>, c)
                   | None \<Rightarrow> (d, le_send env (StatusReply (InvalidArgument ''Command is empty'')) sender c))
         | Read keys policy sender \<Rightarrow>
             (let req = \<lparr>rr_keys = keys, rr_policy = policy\<rparr> in
              case determine_read_policy env req of
                LinearizableRead \<Rightarrow>
                  if should_reject_read bp (bf_len (ld_linearizable_read_buffer d))
                  then (d, le_send env too_many_reads sender c)
                  else (d\<lparr>ld_linearizable_read_buffer := bf_push (req, sender) (ld_linearizable_read_buffer d)\<rparr>, c)
              | LeaseRead \<Rightarrow>
                  if should_reject_read bp (length (ld_lease_read_queue d))
                  then (d, le_send env too_many_reads sender c)
                  else (d\<lparr>ld_lease_read_queue := ld_lease_read_queue d @ [(req, sender)]\<rparr>, c)
              | EventualConsistency \<Rightarrow>
                  if should_reject_read bp (length (ld_eventual_read_queue d))
                  then (d, le_send env too_many_reads sender c)
                  else (d\<lparr>ld_eventual_read_queue := ld_eventual_read_queue d @ [(req, sender)]\<rparr>, c))
         | Scan prefix sender \<Rightarrow>
             (d, le_send env (case le_scan env prefix of
                                Inr entries \<Rightarrow> ScanReply entries
                              | Inl _ \<Rightarrow> StatusReply (Internal ''scan failed'')) sender c))"

definition process_lease_read ::
    "leader_env \<Rightarrow> read_request \<Rightarrow> chan \<Rightarrow> leader_state \<Rightarrow> raft_context \<Rightarrow> leader_step" where
  "process_lease_read env req sender d c =
     (if is_lease_valid env d then ((d, le_send env (read_answer env req) sender c), Inr ())
      else if cl_single_voter (ld_cluster_metadata d) then
        (case update_lease_timestamp (le_now_ms env) (le_lease_duration_ms env) d of
           (d1, Inl e) \<Rightarrow> ((d1, c), Inl e)
         | (d1, Inr _) \<Rightarrow> ((d1, le_send env (read_answer env req) sender c), Inr ()))
      else
        execute_and_process_raft_rpc env [] None None
          (d\<lparr>ld_pending_lease_reads := ld_pending_lease_reads d
               @ [\<lparr>pl_request = req, pl_sender = sender,
                   pl_deadline = le_now env + le_general_timeout_ms env\<rparr>]\<rparr>) c)"

text \<open>Errors of a lease read are logged; a panic ends the loop.\<close>

fun process_lease_reads ::
    "leader_env \<Rightarrow> (read_request \<times> chan) list \<Rightarrow> leader_state \<Rightarrow> raft_context \<Rightarrow> leader_step" where
  "process_lease_reads env [] d c = ((d\<lparr>ld_lease_read_queue := []\<rparr>, c), Inr ())"
| "process_lease_reads env ((req, sender) # rs) d c =
     (case process_lease_read env req sender (d\<lparr>ld_lease_read_queue := rs\<rparr>) c of
        ((d1, c1), r) \<Rightarrow> if is_panic r then ((d1, c1), r) else process_lease_reads env rs d1 c1)"

definition flush_cmd_buffers :: "leader_env \<Rightarrow> leader_state \<Rightarrow> raft_context \<Rightarrow> leader_step" where
  "flush_cmd_buffers env d c =
     (let has_writes = \<not> pb_is_empty (ld_propose_buffer d);
          has_reads = \<not> bf_is_empty (ld_linearizable_read_buffer d)
      in case (if has_writes \<and> \<not> has_reads
               then (case pb_flush (le_now env) (ld_propose_buffer d) of
                       (pb, Some request) \<Rightarrow> process_batch env [request] (d\<lparr>ld_propose_buffer := pb\<rparr>) c
                     | (pb, None) \<Rightarrow> ((d, c), Inr ()))
               else if has_writes \<or> has_reads then unified_write_and_linear_read env d c
               else ((d, c), Inr ())) of
           ((d1, c1), Inl e) \<Rightarrow> ((d1, c1), Inl e)
         | ((d1, c1), Inr _) \<Rightarrow>
             (case process_lease_reads env (ld_lease_read_queue d1) d1 c1 of
                ((d2, c2), Inl e) \<Rightarrow> ((d2, c2), Inl e)
              | ((d2, c2), Inr _) \<Rightarrow>
                  ((d2\<lparr>ld_eventual_read_queue := []\<rparr>,
                    execute_pending_reads env (ld_eventual_read_queue d2) c2), Inr ())))"

section \<open>Inbound events\<close>

definition step_down_and_replay ::
    "leader_env \<Rightarrow> node_id option \<Rightarrow> inbound_event \<Rightarrow> leader_state \<Rightarrow> raft_context \<Rightarrow> leader_step" where
  "step_down_and_replay env new_leader ev d c =
     (case send_event (le_role env) (BecomeFollower new_leader) c of
        (c1, Inl e) \<Rightarrow> ((d, c1), Inl e)
      | (c1, Inr _) \<Rightarrow> (case send_event (le_role env) (ReprocessEvent ev) c1 of (c2, r) \<Rightarrow> ((d, c2), r)))"

definition leader_reply_then ::
    "leader_env \<Rightarrow> chan \<Rightarrow> reply \<Rightarrow> unit result \<Rightarrow> leader_state \<Rightarrow> raft_context \<Rightarrow> leader_step" where
  "leader_reply_then env ch a res d c =
     (case send_reply (le_role env) ch a c of
        (c1, Inl e) \<Rightarrow> ((d, c1), Inl e)
      | (c1, Inr _) \<Rightarrow> ((d, c1), res))"

definition ld_revoke :: "leader_state \<Rightarrow> leader_state" where
  "ld_revoke d = d\<lparr>ld_shared := revoke_lease (ld_shared d)\<rparr>"

definition leader_vote_request ::
    "leader_env \<Rightarrow> vote_request \<Rightarrow> chan \<Rightarrow> leader_state \<Rightarrow> raft_context \<Rightarrow> leader_step" where
  "leader_vote_request env req sender d c =
     (if ld_term d < vq_term req then
        (case commit_hard_state (le_role env) (Some (vq_term req)) None (ld_shared d) c of
           ((s1, c1), Inl e) \<Rightarrow> ((d\<lparr>ld_shared := s1\<rparr>, c1), Inl e)
         | ((s1, c1), Inr _) \<Rightarrow>
             step_down_and_replay env None (ReceiveVoteRequest req sender) (ld_revoke (d\<lparr>ld_shared := s1\<rparr>)) c1)
      else leader_reply_then env sender (VoteReply (vote_response_of (ld_term d) False (cx_log c))) (Inr ()) d c)"

definition leader_fatal :: "leader_env \<Rightarrow> string \<Rightarrow> string \<Rightarrow> leader_state \<Rightarrow> raft_context \<Rightarrow> leader_step" where
  "leader_fatal env source err d c =
     (let fatal = StatusReply (Internal (''Node fatal error: '' @ err));
          c1 = le_send_all env fatal (map snd (ld_pending_write_apply d)) c;
          (lb, batch) = bf_take_all (le_now env) (ld_linearizable_read_buffer d);
          c2 = le_send_all env fatal (map snd batch) c1;
          c3 = le_send_all env fatal (concat (map (map snd \<circ> pr_requests \<circ> snd) (ld_pending_reads d))) c2;
          c4 = le_send_all env fatal (map snd (ld_lease_read_queue d)) c3;
          c5 = le_send_all env fatal (map snd (ld_eventual_read_queue d)) c4
      in ((d\<lparr>ld_pending_write_apply := [], ld_linearizable_read_buffer := lb, ld_pending_reads := [],
             ld_lease_read_queue := [], ld_eventual_read_queue := []\<rparr>, c5),
          Inl (Fatal (''Fatal error from '' @ source @ '': '' @ err))))"

definition leader_handle_inbound_event ::
    "leader_env \<Rightarrow> inbound_event \<Rightarrow> leader_state \<Rightarrow> raft_context \<Rightarrow> leader_step" where
  "leader_handle_inbound_event env ev d c =
     (let my_id = ld_node_id d; my_term = ld_term d in
      case ev of
        ReceiveVoteRequest req sender \<Rightarrow> leader_vote_request env req sender d c
      | ClusterConf sender \<Rightarrow>
          (let leader = (if ld_noop_log_id d = None then None else current_leader (ld_shared d))
           in ((d, le_send env (ConfReply (retrieve_cluster_membership_config (cx_membership c) leader)) sender c),
               Inr ()))
      | ClusterConfUpdate req sender \<Rightarrow>
          if my_term \<ge> cc_term req
          then leader_reply_then env sender
                 (ConfUpdateReply (cu_higher_term my_id my_term (get_cluster_conf_version (cx_membership c))))
                 (Inr ()) d c
          else step_down_and_replay env (Some (cc_id req)) ev d c
      | AppendEntries req senders \<Rightarrow>
          if my_term \<ge> ae_term req
          then ((d, le_send_all env (AppendReply (ar_higher_term my_id my_term)) senders c), Inr ())
          else step_down_and_replay env (Some (ae_leader_id req)) ev (ld_revoke d) c
      | InstallSnapshotChunk sender \<Rightarrow>
          leader_reply_then env sender (StatusReply (PermissionDenied ''Not Follower or Learner. ''))
            (Inl (RoleViolation ''Leader'' ''Follower or Learner'' ''Leader receives InstallSnapshotChunk'')) d c
      | JoinCluster req sender \<Rightarrow> handle_join_cluster env req sender d c
      | DiscoverLeader _ _ sender \<Rightarrow>
          (case retrieve_node_meta (cx_membership c) my_id of
             Some meta \<Rightarrow> leader_reply_then env sender (LeaderReply my_id (nm_address meta) my_term) (Inr ()) d c
           | None \<Rightarrow> ((d, c), Inl (Panic ''Leader can not find its address? It must be a bug.'')))
      | InboundFatal source err \<Rightarrow> leader_fatal env source err d c)"

section \<open>Internal events\<close>

fun answer_applied ::
    "leader_env \<Rightarrow> apply_result list \<Rightarrow> leader_state \<Rightarrow> raft_context \<Rightarrow> leader_state \<times> raft_context" where
  "answer_applied env [] d c = (d, c)"
| "answer_applied env (r # rs) d c =
     (case om_get (ld_pending_write_apply d) (ap_index r) of
        None \<Rightarrow> answer_applied env rs d c
      | Some sender \<Rightarrow>
          answer_applied env rs
            (d\<lparr>ld_pending_write_apply := om_del_range (ap_index r) (ap_index r) (ld_pending_write_apply d)\<rparr>)
            (le_send env (WriteReply (ap_succeeded r)) sender c))"

definition leader_handle_apply_completed ::
    "leader_env \<Rightarrow> u64 \<Rightarrow> apply_result list \<Rightarrow> leader_state \<Rightarrow> raft_context \<Rightarrow> leader_step" where
  "leader_handle_apply_completed env last_index results d c =
     (case answer_applied env results d c of (d1, c1) \<Rightarrow>
      case serve_pending_reads env last_index d1 c1 of (d2, c2) \<Rightarrow>
      case check_and_trigger_snapshot (le_role env) last_index NR_Leader (ld_term d2) c2 of
        (c3, r) \<Rightarrow> ((d2, c3), r))"

definition handle_log_flushed :: "leader_env \<Rightarrow> leader_state \<Rightarrow> raft_context \<Rightarrow> leader_step" where
  "handle_log_flushed env d c =
     (let single = cl_single_voter (ld_cluster_metadata d);
          last_log_index = last_entry_id (cx_log c);
          new_commit_index =
            (if single then (if last_log_index > ld_commit_index d then Some last_log_index else None)
             else calculate_new_commit_index d (cx_log c))
      in case new_commit_index of
           None \<Rightarrow> ((d, c), Inr ())
         | Some new_commit \<Rightarrow>
             (case leader_update_commit_index_with_signal env new_commit d c of
                ((d1, c1), Inl e) \<Rightarrow> ((d1, c1), Inr ())
              | ((d1, c1), Inr _) \<Rightarrow>
                  (case drain_pending_client_writes env new_commit d1 c1 of (d2, c2) \<Rightarrow>
                   case drain_commit_actions env new_commit d2 c2 of (d3, c3) \<Rightarrow>
                   if single then
                     (case update_lease_timestamp (le_now_ms env) (le_lease_duration_ms env) d3 of
                        (d4, Inl e) \<Rightarrow> ((d4, c3), Inl e)
                      | (d4, Inr _) \<Rightarrow> (drain_pending_lease_reads env d4 c3, Inr ()))
                   else ((d3, c3), Inr ()))))"

text \<open>A higher term in an answer: the term is saved, the waiting writes are failed, the lease is
  revoked and the leader asks to step down.\<close>

definition leader_step_down ::
    "leader_env \<Rightarrow> u64 \<Rightarrow> leader_state \<Rightarrow> raft_context \<Rightarrow> leader_step" where
  "leader_step_down env trm d c =
     (case commit_hard_state (le_role env) (Some trm) None (ld_shared d) c of
        ((s1, c1), Inl e) \<Rightarrow> ((d\<lparr>ld_shared := s1\<rparr>, c1), Inl e)
      | ((s1, c1), Inr _) \<Rightarrow>
          (case drain_pending_writes_with_error env TermOutdated (d\<lparr>ld_shared := s1\<rparr>) c1 of (d2, c2) \<Rightarrow>
           case send_event (le_role env) (BecomeFollower None) c2 of
             (c3, Inl e) \<Rightarrow> ((ld_revoke d2, c3), Inl e)
           | (c3, Inr _) \<Rightarrow> ((ld_revoke d2, c3), Inl (HigherTerm trm))))"

text \<open>After a voter's success: the commit index, and the lease with the reads that wait for it.\<close>

definition advance_commit :: "leader_env \<Rightarrow> leader_state \<Rightarrow> raft_context \<Rightarrow> leader_step" where
  "advance_commit env d c =
     (case calculate_new_commit_index d (cx_log c) of
        None \<Rightarrow> ((d, c), Inr ())
      | Some new_commit \<Rightarrow>
          (case leader_update_commit_index_with_signal env new_commit d c of
             ((d1, c1), Inl e) \<Rightarrow> ((d1, c1), Inl e)
           | ((d1, c1), Inr _) \<Rightarrow>
               (case drain_pending_client_writes env new_commit d1 c1 of (d2, c2) \<Rightarrow>
                (drain_commit_actions env new_commit d2 c2, Inr ()))))"

definition quorum_confirmed :: "leader_state \<Rightarrow> raft_log \<Rightarrow> bool" where
  "quorum_confirmed d l =
     (calculate_majority_matched_index l (ld_term d) (ld_commit_index d) (voter_match_indexes d) \<noteq> None)"

definition refresh_lease_and_serve :: "leader_env \<Rightarrow> leader_state \<Rightarrow> raft_context \<Rightarrow> leader_step" where
  "refresh_lease_and_serve env d c =
     (if quorum_confirmed d (cx_log c) then
        (let send_ts = (if ld_last_heartbeat_send_ts d > 0 then ld_last_heartbeat_send_ts d else le_now_ms env) in
         case update_lease_timestamp send_ts (le_lease_duration_ms env) d of
           (d1, Inl e) \<Rightarrow> ((d1, c), Inl e)
         | (d1, Inr _) \<Rightarrow>
             (case drain_pending_lease_reads env d1 c of (d2, c2) \<Rightarrow>
              (serve_pending_reads env (le_last_applied env) d2 c2, Inr ())))
      else ((d, c), Inr ()))"

definition voter_acknowledged :: "leader_env \<Rightarrow> leader_state \<Rightarrow> raft_context \<Rightarrow> leader_step" where
  "voter_acknowledged env d c =
     (case advance_commit env d c of
        ((d1, c1), Inl e) \<Rightarrow> ((d1, c1), Inl e)
      | ((d1, c1), Inr _) \<Rightarrow> refresh_lease_and_serve env d1 c1)"

definition learner_progress_of :: "leader_state \<Rightarrow> (node_id \<times> u64 option) list" where
  "learner_progress_of d = map (\<lambda>(k, m). (k, Some m)) (filter (\<lambda>(k, _). is_learner_target d k) (ld_match_index d))"

definition peer_update_applied ::
    "leader_env \<Rightarrow> node_id \<Rightarrow> bool \<Rightarrow> peer_update \<Rightarrow> leader_state \<Rightarrow> raft_context \<Rightarrow> leader_step" where
  "peer_update_applied env follower_id is_voter u d c =
     (let d1 = update_peer_index follower_id u d;
          progress = learner_progress_of d1;
          (d2, c2) = (if \<not> is_voter \<and> progress \<noteq> []
                      then fst (check_learner_progress env progress d1 c) else (d1, c))
      in if pu_success u \<and> is_voter then voter_acknowledged env d2 c2 else ((d2, c2), Inr ()))"

definition handle_append_result ::
    "leader_env \<Rightarrow> node_id \<Rightarrow> append_response result \<Rightarrow> leader_state \<Rightarrow> raft_context \<Rightarrow> leader_step" where
  "handle_append_result env follower_id result d c =
     (let leader_term = ld_term d; is_voter = is_voter_target d follower_id in
      case result of
        Inl _ \<Rightarrow> ((d, c), Inr ())
      | Inr response \<Rightarrow>
          if ar_term response < leader_term then ((d, c), Inr ())
          else if ar_term response > leader_term then leader_step_down env (ar_term response) d c
          else (case ar_result response of
                  Some (AESuccess last_match) \<Rightarrow>
                    (case handle_success_response (ar_term response) last_match leader_term of
                       Inl e \<Rightarrow> ((d, c), Inl e)
                     | Inr u \<Rightarrow> peer_update_applied env follower_id is_voter u d c)
                | Some (AEConflict ct ci) \<Rightarrow>
                    peer_update_applied env follower_id is_voter
                      (handle_conflict_response ct ci (cx_log c) (next_index d follower_id)) d c
                | Some (AEHigherTerm trm) \<Rightarrow>
                    if trm > leader_term then leader_step_down env trm d c else ((d, c), Inr ())
                | None \<Rightarrow> ((d, c), Inr ())))"

definition leader_handle_log_purge_completed :: "log_id \<Rightarrow> leader_state \<Rightarrow> leader_state" where
  "leader_handle_log_purge_completed purged_id d =
     (if below (ld_last_purged_index d) (lid_index purged_id)
      then d\<lparr>ld_last_purged_index := Some purged_id, ld_scheduled_purge_upto := None\<rparr> else d)"

definition leader_handle_snapshot_created ::
    "leader_env \<Rightarrow> (snapshot_metadata \<times> string) result \<Rightarrow> leader_state \<Rightarrow> raft_context \<Rightarrow> leader_step" where
  "leader_handle_snapshot_created env result d c =
     (let d1 = d\<lparr>ld_snapshot_in_progress := False\<rparr> in
      case result of
        Inl _ \<Rightarrow> ((d1, c), Inr ())
      | Inr (metadata, _) \<Rightarrow>
          (case sm_last_included metadata of
             None \<Rightarrow> ((d1, c), Inr ())
           | Some last_included \<Rightarrow>
               (case schedule_and_execute_purge (le_role env) last_included (ld_commit_index d1)
                       (ld_last_purged_index d1) (ld_scheduled_purge_upto d1) c of
                  ((pending, c1), r) \<Rightarrow> ((d1\<lparr>ld_scheduled_purge_upto := pending\<rparr>, c1), r))))"

definition leader_handle_create_snapshot :: "leader_state \<Rightarrow> raft_context \<Rightarrow> leader_step" where
  "leader_handle_create_snapshot d c =
     (if ld_snapshot_in_progress d \<or> cx_capture c then ((d, c), Inr ())
      else ((d\<lparr>ld_snapshot_in_progress := True\<rparr>,
             c\<lparr>cx_capture := True, cx_capture_tasks := cx_capture_tasks c + 1\<rparr>), Inr ()))"

definition leader_handle_membership_applied :: "leader_state \<Rightarrow> raft_context \<Rightarrow> leader_state" where
  "leader_handle_membership_applied d c =
     (let old = cl_replication_targets (ld_cluster_metadata d);
          d1 = update_cluster_metadata (cx_membership c) d;
          new = cl_replication_targets (ld_cluster_metadata d1);
          newly_added = map nm_id (filter (\<lambda>n. nm_id n \<notin> nm_id ` set old) new);
          removed = map nm_id (filter (\<lambda>n. nm_id n \<notin> nm_id ` set new) old);
          d2 = (if newly_added = [] then d1
                else init_peers_next_index_and_match_index (last_entry_id (cx_log c)) newly_added d1)
      in d2\<lparr>ld_replication_workers := filter (\<lambda>b. fst b \<notin> set removed) (ld_replication_workers d2)\<rparr>)"

definition handle_self_removed :: "leader_env \<Rightarrow> leader_state \<Rightarrow> raft_context \<Rightarrow> leader_step" where
  "handle_self_removed env d c =
     (case send_event (le_role env) (BecomeFollower None) c of (c1, r) \<Rightarrow> ((d, c1), r))"

end
