(* ===== verification/Raft_Loop.thy ===== *)
theory Raft_Loop
  imports Leader_Events
begin

text \<open>
  The Raft loop (\<^verbatim>\<open>d-engine-core/src/raft.rs\<close>).  The queue of internal events is
  \<^verbatim>\<open>cx_events\<close> of the context, to which the handlers append; the inbound and the command
  channel are lists.  One turn of the loop takes the first ready arm of the biased
  \<^verbatim>\<open>select!\<close> and then processes what is buffered.  What the commit listeners received and
  the value of the leader watch are part of the state.
\<close>

datatype raft_role = Base base_role | Lead leader_state

record raft_env =
  re_leader :: leader_env
  re_snapshot :: "inbound_event \<Rightarrow> snapshot_input"
  re_send :: "node_id \<Rightarrow> vote_request \<Rightarrow> vote_response result"
  re_arrive :: "node_id list \<Rightarrow> node_id list"
  re_max_batch_size :: nat
  re_max_merge_entries :: nat

record raft =
  rf_node_id :: node_id
  rf_role :: raft_role
  rf_ctx :: raft_context
  rf_inbound_channel :: "inbound_event list"
  rf_command_channel :: "client_cmd list"
  rf_buffered_inbound :: "inbound_event list"
  rf_buffered_internal :: "internal_event list"
  rf_commit_notices :: "new_commit_data list"
  rf_leader_watch :: "(node_id \<times> u64) option"
  rf_tick :: u64

abbreviation re_role :: "raft_env \<Rightarrow> role_env" where
  "re_role env \<equiv> le_role (re_leader env)"

section \<open>Dispatch on the role\<close>

definition role_shared :: "raft_role \<Rightarrow> shared_state" where
  "role_shared r = (case r of Base b \<Rightarrow> ro_shared b | Lead d \<Rightarrow> ld_shared d)"

definition role_term :: "raft_role \<Rightarrow> u64" where
  "role_term r = ss_term (role_shared r)"

definition with_shared :: "shared_state \<Rightarrow> raft_role \<Rightarrow> raft_role" where
  "with_shared s r = (case r of Base b \<Rightarrow> Base (b\<lparr>ro_shared := s\<rparr>) | Lead d \<Rightarrow> Lead (d\<lparr>ld_shared := s\<rparr>))"

text \<open>A learner has no timer: its deadline is a day ahead.\<close>

definition next_deadline :: "u64 \<Rightarrow> raft_role \<Rightarrow> u64" where
  "next_deadline now r =
     (case r of
        Base b \<Rightarrow> (case ro_deadline b of Some t \<Rightarrow> t | None \<Rightarrow> now + 24 * 60 * 60 * 1000)
      | Lead d \<Rightarrow> rt_deadline (ld_timer d))"

definition role_become_follower :: "raft_env \<Rightarrow> raft_role \<Rightarrow> raft_role result" where
  "role_become_follower env r =
     (case r of
        Base b \<Rightarrow> (case become_follower (re_role env) b of Inl e \<Rightarrow> Inl e | Inr b' \<Rightarrow> Inr (Base b'))
      | Lead d \<Rightarrow> Inr (Base (leader_become_follower (re_role env) d)))"

definition role_become_candidate :: "raft_env \<Rightarrow> raft_role \<Rightarrow> raft_role result" where
  "role_become_candidate env r =
     (case r of
        Base b \<Rightarrow> (case become_candidate (re_role env) b of Inl e \<Rightarrow> Inl e | Inr b' \<Rightarrow> Inr (Base b'))
      | Lead d \<Rightarrow> Inl InvalidTransition)"

definition role_become_leader :: "raft_env \<Rightarrow> raft_role \<Rightarrow> leader_state result" where
  "role_become_leader env r =
     (case r of
        Base b \<Rightarrow> if ro_kind b = NR_Candidate then Inr (leader_of_candidate (re_leader env) b)
                   else Inl InvalidTransition
      | Lead d \<Rightarrow> Inl InvalidTransition)"

definition role_become_learner :: "raft_role \<Rightarrow> raft_role result" where
  "role_become_learner r =
     (case r of
        Base b \<Rightarrow> (case become_learner b of Inl e \<Rightarrow> Inl e | Inr b' \<Rightarrow> Inr (Base b'))
      | Lead d \<Rightarrow> Inl InvalidTransition)"

definition on_base :: "((base_role \<times> raft_context) \<times> 'a) \<Rightarrow> (raft_role \<times> raft_context) \<times> 'a" where
  "on_base x = (case x of ((b, c), r) \<Rightarrow> ((Base b, c), r))"

definition on_lead :: "((leader_state \<times> raft_context) \<times> 'a) \<Rightarrow> (raft_role \<times> raft_context) \<times> 'a" where
  "on_lead x = (case x of ((d, c), r) \<Rightarrow> ((Lead d, c), r))"

type_synonym role_step = "(raft_role \<times> raft_context) \<times> unit result"

definition role_tick :: "raft_env \<Rightarrow> raft_role \<Rightarrow> raft_context \<Rightarrow> role_step" where
  "role_tick env r c =
     (case r of
        Lead d \<Rightarrow> on_lead (leader_tick (re_leader env) d c)
      | Base b \<Rightarrow> on_base (case ro_kind b of
                     NR_Candidate \<Rightarrow> candidate_tick (re_role env) (re_send env) (re_arrive env) b c
                   | NR_Learner \<Rightarrow> learner_tick b c
                   | _ \<Rightarrow> follower_tick (re_role env) b c))"

definition role_handle_inbound_event ::
    "raft_env \<Rightarrow> inbound_event \<Rightarrow> raft_role \<Rightarrow> raft_context \<Rightarrow> role_step" where
  "role_handle_inbound_event env ev r c =
     (case r of
        Lead d \<Rightarrow> on_lead (leader_handle_inbound_event (re_leader env) ev d c)
      | Base b \<Rightarrow> on_base (case ro_kind b of
                     NR_Candidate \<Rightarrow> candidate_handle_inbound_event (re_role env) ev b c
                   | NR_Learner \<Rightarrow> learner_handle_inbound_event (re_role env) (re_snapshot env ev) ev b c
                   | _ \<Rightarrow> follower_handle_inbound_event (re_role env) (re_snapshot env ev) ev b c))"

definition role_push_client_cmd :: "raft_env \<Rightarrow> client_cmd \<Rightarrow> raft_role \<Rightarrow> raft_context \<Rightarrow> raft_role \<times> raft_context" where
  "role_push_client_cmd env cmd r c =
     (case r of
        Lead d \<Rightarrow> (case leader_push_client_cmd (re_leader env) cmd d c of (d', c') \<Rightarrow> (Lead d', c'))
      | Base b \<Rightarrow> (Base b, push_client_cmd (re_role env) (le_read_sm (re_leader env)) cmd b c))"

definition role_flush_cmd_buffers :: "raft_env \<Rightarrow> raft_role \<Rightarrow> raft_context \<Rightarrow> role_step" where
  "role_flush_cmd_buffers env r c =
     (case r of
        Lead d \<Rightarrow> on_lead (flush_cmd_buffers (re_leader env) d c)
      | Base b \<Rightarrow> ((Base b, c), Inr ()))"

text \<open>The read buffer is drained only by a leader; the error of other roles is ignored.\<close>

definition role_drain_read_buffer :: "raft_env \<Rightarrow> raft_role \<Rightarrow> raft_context \<Rightarrow> raft_role \<times> raft_context" where
  "role_drain_read_buffer env r c =
     (case r of
        Lead d \<Rightarrow> (case drain_read_buffer (re_leader env) d c of (d', c') \<Rightarrow> (Lead d', c'))
      | Base b \<Rightarrow> (Base b, c))"

section \<open>Notifications\<close>

definition notify_leader_change :: "node_id option \<Rightarrow> u64 \<Rightarrow> raft \<Rightarrow> raft" where
  "notify_leader_change leader_id trm rf =
     (let new_info = map_option (\<lambda>i. (i, trm)) leader_id
      in if rf_leader_watch rf \<noteq> new_info then rf\<lparr>rf_leader_watch := new_info\<rparr> else rf)"

definition notify_new_commit :: "new_commit_data \<Rightarrow> raft \<Rightarrow> raft" where
  "notify_new_commit n rf = rf\<lparr>rf_commit_notices := rf_commit_notices rf @ [n]\<rparr>"

section \<open>Internal events\<close>

definition handle_become_follower :: "raft_env \<Rightarrow> node_id option \<Rightarrow> raft \<Rightarrow> raft \<times> unit result" where
  "handle_become_follower env leader_id rf =
     (case role_drain_read_buffer env (rf_role rf) (rf_ctx rf) of (r0, c0) \<Rightarrow>
      case role_become_follower env r0 of
        Inl e \<Rightarrow> (rf\<lparr>rf_role := r0, rf_ctx := c0\<rparr>, Inl e)
      | Inr r1 \<Rightarrow>
          (case commit_vote_reset (re_role env) (role_shared r1) c0 of
             ((s2, c2), Inl e) \<Rightarrow> (rf\<lparr>rf_role := with_shared s2 r1, rf_ctx := c2\<rparr>, Inl e)
           | ((s2, c2), Inr _) \<Rightarrow>
               (let r2 = with_shared s2 r1
                in (notify_leader_change leader_id (role_term r2) (rf\<lparr>rf_role := r2, rf_ctx := c2\<rparr>), Inr ()))))"

definition handle_become_candidate :: "raft_env \<Rightarrow> raft \<Rightarrow> raft \<times> unit result" where
  "handle_become_candidate env rf =
     (case role_drain_read_buffer env (rf_role rf) (rf_ctx rf) of (r0, c0) \<Rightarrow>
      case role_become_candidate env r0 of
        Inl e \<Rightarrow> (rf\<lparr>rf_role := r0, rf_ctx := c0\<rparr>, Inl e)
      | Inr r1 \<Rightarrow> (notify_leader_change None (role_term r1) (rf\<lparr>rf_role := r1, rf_ctx := c0\<rparr>), Inr ()))"

definition handle_become_learner :: "raft_env \<Rightarrow> raft \<Rightarrow> raft \<times> unit result" where
  "handle_become_learner env rf =
     (case role_drain_read_buffer env (rf_role rf) (rf_ctx rf) of (r0, c0) \<Rightarrow>
      case role_become_learner r0 of
        Inl e \<Rightarrow> (rf\<lparr>rf_role := r0, rf_ctx := c0\<rparr>, Inl e)
      | Inr r1 \<Rightarrow> (notify_leader_change None (role_term r1) (rf\<lparr>rf_role := r1, rf_ctx := c0\<rparr>), Inr ()))"

definition handle_become_leader :: "raft_env \<Rightarrow> raft \<Rightarrow> raft \<times> unit result" where
  "handle_become_leader env rf =
     (case role_become_leader env (rf_role rf) of
        Inl e \<Rightarrow> (rf, Inl e)
      | Inr d1 \<Rightarrow>
          (case commit_hard_state (re_role env) None (Some (leader_vote (rf_node_id rf) (ld_term d1)))
                  (ld_shared d1) (rf_ctx rf) of
             ((s2, c2), Inl e) \<Rightarrow> (rf\<lparr>rf_role := Lead (d1\<lparr>ld_shared := s2\<rparr>), rf_ctx := c2\<rparr>, Inl e)
           | ((s2, c2), Inr _) \<Rightarrow>
               (let peer_ids = get_peers_id_with_condition (cx_membership c2) (\<lambda>_. True);
                    d2 = init_peers_next_index_and_match_index (last_entry_id (cx_log c2)) peer_ids
                           (d1\<lparr>ld_shared := s2\<rparr>);
                    d3 = update_cluster_metadata (cx_membership c2) d2
                in case initiate_noop_commit (re_leader env) d3 c2 of
                     ((d4, c4), r4) \<Rightarrow>
                       if is_ok r4 \<or> is_panic r4 then (rf\<lparr>rf_role := Lead d4, rf_ctx := c4\<rparr>, r4)
                       else (case send_event (re_role env) (BecomeFollower None) c4 of
                               (c5, r) \<Rightarrow> (rf\<lparr>rf_role := Lead d4, rf_ctx := c5\<rparr>, r)))))"

text \<open>The commit notices at the front of the queue are merged; the first other event met is put
  back at the end of the queue.\<close>

fun drain_commit_events ::
    "nat \<Rightarrow> new_commit_data \<Rightarrow> internal_event list \<Rightarrow> new_commit_data \<times> internal_event list" where
  "drain_commit_events 0 n evs = (n, evs)"
| "drain_commit_events (Suc k) n [] = (n, [])"
| "drain_commit_events (Suc k) n (NotifyNewCommitIndex m # evs) =
     drain_commit_events k (if nc_index m > nc_index n then m else n) evs"
| "drain_commit_events (Suc k) n (ev # evs) = (n, evs @ [ev])"

definition handle_notify_new_commit_index :: "raft_env \<Rightarrow> new_commit_data \<Rightarrow> raft \<Rightarrow> raft \<times> unit result" where
  "handle_notify_new_commit_index env n rf =
     (case drain_commit_events (re_max_batch_size env - 1) n (cx_events (rf_ctx rf)) of
        (m, evs) \<Rightarrow> (notify_new_commit m (rf\<lparr>rf_ctx := (rf_ctx rf)\<lparr>cx_events := evs\<rparr>\<rparr>), Inr ()))"

text \<open>A handler whose error is only fatal to the loop when it is fatal itself.\<close>

definition only_fatal :: "unit result \<Rightarrow> unit result" where
  "only_fatal r = (case r of
       Inl e \<Rightarrow> if is_panic r \<or> is_fatal e then Inl e else Inr ()
     | Inr _ \<Rightarrow> Inr ())"

definition logged :: "unit result \<Rightarrow> unit result" where
  "logged r = (if is_panic r then r else Inr ())"

definition set_role_ctx :: "(unit result \<Rightarrow> unit result) \<Rightarrow> role_step \<Rightarrow> raft \<Rightarrow> raft \<times> unit result" where
  "set_role_ctx f x rf = (case x of ((r, c), res) \<Rightarrow> (rf\<lparr>rf_role := r, rf_ctx := c\<rparr>, f res))"

definition handle_snapshot_push_event ::
    "raft_env \<Rightarrow> node_id \<Rightarrow> bool \<Rightarrow> u64 \<Rightarrow> u64 option \<Rightarrow> raft \<Rightarrow> raft" where
  "handle_snapshot_push_event env peer_id success trm last_included_index rf =
     (if trm \<noteq> role_term (rf_role rf) then rf
      else (case rf_role rf of
              Base b \<Rightarrow> rf
            | Lead d \<Rightarrow>
                if peer_state d peer_id \<noteq> PeerSnapshot then rf
                else (let d1 = (case (success, last_included_index) of
                                  (True, Some i) \<Rightarrow> init_peers_next_index_and_match_index i [peer_id] d
                                | _ \<Rightarrow> d)
                      in rf\<lparr>rf_role := Lead (handle_snapshot_push_completed (re_leader env) peer_id success d1)\<rparr>)))"

definition handle_internal_event :: "raft_env \<Rightarrow> internal_event \<Rightarrow> raft \<Rightarrow> raft \<times> unit result" where
  "handle_internal_event env ev rf =
     (let c = rf_ctx rf; le = re_leader env; re = re_role env;
          violation = (\<lambda>x. Inl (RoleViolation ''None Leader'' ''Leader'' x))
      in case ev of
        BecomeFollower leader_id \<Rightarrow> handle_become_follower env leader_id rf
      | BecomeCandidate \<Rightarrow> handle_become_candidate env rf
      | BecomeLeader \<Rightarrow> handle_become_leader env rf
      | BecomeLearner \<Rightarrow> handle_become_learner env rf
      | NotifyNewCommitIndex n \<Rightarrow> handle_notify_new_commit_index env n rf
      | LeaderDiscovered leader_id trm \<Rightarrow> (notify_leader_change (Some leader_id) trm rf, Inr ())
      | ReprocessEvent e \<Rightarrow> (rf\<lparr>rf_buffered_inbound := e # rf_buffered_inbound rf\<rparr>, Inr ())
      | LogFlushed durable \<Rightarrow>
          (case rf_role rf of
             Base b \<Rightarrow> (rf, Inr ())
           | Lead d \<Rightarrow> set_role_ctx id (on_lead (handle_log_flushed le d c)) rf)
      | AppendResult follower_id result \<Rightarrow>
          (case rf_role rf of
             Base b \<Rightarrow> (rf, Inr ())
           | Lead d \<Rightarrow> set_role_ctx logged (on_lead (handle_append_result le follower_id result d c)) rf)
      | SnapshotPushCompleted peer_id success trm last_included_index \<Rightarrow>
          (handle_snapshot_push_event env peer_id success trm last_included_index rf, Inr ())
      | NoopCommitted trm \<Rightarrow> (notify_leader_change (Some (rf_node_id rf)) trm rf, Inr ())
      | ApplyCompleted last_index results \<Rightarrow>
          (case rf_role rf of
             Base b \<Rightarrow> set_role_ctx only_fatal (on_base (handle_apply_completed re last_index b c)) rf
           | Lead d \<Rightarrow> set_role_ctx only_fatal (on_lead (leader_handle_apply_completed le last_index results d c)) rf)
      | CreateSnapshotEvent \<Rightarrow>
          (case rf_role rf of
             Base b \<Rightarrow> set_role_ctx only_fatal (on_base (handle_create_snapshot b c)) rf
           | Lead d \<Rightarrow> set_role_ctx only_fatal (on_lead (leader_handle_create_snapshot d c)) rf)
      | SnapshotCreated result \<Rightarrow>
          (case rf_role rf of
             Base b \<Rightarrow> set_role_ctx only_fatal (on_base (handle_snapshot_created re result b c)) rf
           | Lead d \<Rightarrow> set_role_ctx only_fatal (on_lead (leader_handle_snapshot_created le result d c)) rf)
      | LogPurgeCompleted purged_id \<Rightarrow>
          (case rf_role rf of
             Base b \<Rightarrow> (case handle_log_purge_completed purged_id b of
                           (b', r) \<Rightarrow> (rf\<lparr>rf_role := Base b'\<rparr>, only_fatal r))
           | Lead d \<Rightarrow> (rf\<lparr>rf_role := Lead (leader_handle_log_purge_completed purged_id d)\<rparr>, Inr ()))
      | PromoteReadyLearners \<Rightarrow>
          (case rf_role rf of
             Base b \<Rightarrow> (rf, only_fatal (violation ''PromoteReadyLearners''))
           | Lead d \<Rightarrow> set_role_ctx only_fatal (on_lead (handle_promote_ready_learners le d c)) rf)
      | MembershipApplied \<Rightarrow>
          (case rf_role rf of
             Base b \<Rightarrow> if ro_kind b = NR_Learner
                        then set_role_ctx only_fatal (on_base (learner_handle_membership_applied re b c)) rf
                        else (rf, only_fatal (violation ''MembershipApplied''))
           | Lead d \<Rightarrow> (rf\<lparr>rf_role := Lead (leader_handle_membership_applied d c)\<rparr>, Inr ()))
      | StepDownSelfRemoved \<Rightarrow>
          (case rf_role rf of
             Base b \<Rightarrow> (rf, Inr ())
           | Lead d \<Rightarrow> set_role_ctx only_fatal (on_lead (handle_self_removed le d c)) rf)
      | PeerStreamError peer_id \<Rightarrow>
          (case rf_role rf of
             Base b \<Rightarrow> (rf, Inr ())
           | Lead d \<Rightarrow> (rf\<lparr>rf_role := Lead (handle_peer_stream_error peer_id d)\<rparr>, Inr ()))
      | ZombieDetected node_id \<Rightarrow> (rf, Inr ())
      | FatalError source err \<Rightarrow> (rf, Inl (Fatal (source @ '': '' @ err))))"

section \<open>Draining the channels\<close>

definition drain_internal_events :: "raft_env \<Rightarrow> raft \<Rightarrow> raft" where
  "drain_internal_events env rf =
     (let n = re_max_batch_size env; evs = cx_events (rf_ctx rf)
      in rf\<lparr>rf_buffered_internal := rf_buffered_internal rf @ take n evs,
            rf_ctx := (rf_ctx rf)\<lparr>cx_events := drop n evs\<rparr>\<rparr>)"

definition drain_inbound_events :: "raft_env \<Rightarrow> raft \<Rightarrow> raft" where
  "drain_inbound_events env rf =
     (let n = re_max_batch_size env; evs = rf_inbound_channel rf
      in rf\<lparr>rf_buffered_inbound := rf_buffered_inbound rf @ take n evs, rf_inbound_channel := drop n evs\<rparr>)"

fun push_client_cmds :: "raft_env \<Rightarrow> client_cmd list \<Rightarrow> raft \<Rightarrow> raft" where
  "push_client_cmds env [] rf = rf"
| "push_client_cmds env (cmd # cmds) rf =
     (case role_push_client_cmd env cmd (rf_role rf) (rf_ctx rf) of
        (r, c) \<Rightarrow> push_client_cmds env cmds (rf\<lparr>rf_role := r, rf_ctx := c\<rparr>))"

definition drain_client_cmds :: "raft_env \<Rightarrow> raft \<Rightarrow> raft" where
  "drain_client_cmds env rf =
     (let n = re_max_batch_size env; cmds = rf_command_channel rf
      in push_client_cmds env (take n cmds) (rf\<lparr>rf_command_channel := drop n cmds\<rparr>))"

section \<open>Merging append requests\<close>

text \<open>The requests that continue the first one in the same term, as long as the entries stay
  below the limit; the rest of the queue is returned.\<close>

fun absorb_requests ::
    "nat \<Rightarrow> append_request \<Rightarrow> chan list \<Rightarrow> u64 \<Rightarrow> inbound_event list
     \<Rightarrow> (append_request \<times> chan list) \<times> inbound_event list" where
  "absorb_requests mx first senders next_prev [] = ((first, senders), [])"
| "absorb_requests mx first senders next_prev (AppendEntries req ss # evs) =
     (if next_prev = ae_prev_log_index req \<and> ae_term first = ae_term req then
        if length (ae_entries first) + length (ae_entries req) > mx
        then ((first, senders), AppendEntries req ss # evs)
        else absorb_requests mx
               (first\<lparr>ae_entries := ae_entries first @ ae_entries req,
                      ae_leader_commit := max (ae_leader_commit first) (ae_leader_commit req)\<rparr>)
               (senders @ ss) (next_prev + length (ae_entries req)) evs
      else ((first, senders), AppendEntries req ss # evs))"
| "absorb_requests mx first senders next_prev (ev # evs) = ((first, senders), ev # evs)"

fun merge_append_entries :: "nat \<Rightarrow> inbound_event list \<Rightarrow> inbound_event list" where
  "merge_append_entries mx (AppendEntries req ss # evs) =
     (case absorb_requests mx req ss (ae_prev_log_index req + length (ae_entries req)) evs of
        ((r, senders), rest) \<Rightarrow> AppendEntries r senders # rest)"
| "merge_append_entries mx evs = evs"

lemma absorb_requests_length: "length (snd (absorb_requests mx first ss n evs)) \<le> length evs"
  by (induction mx first ss n evs rule: absorb_requests.induct) (auto simp: le_SucI)

lemma merge_append_entries_length:
  "evs \<noteq> [] \<Longrightarrow> merge_append_entries mx evs \<noteq> [] \<and> length (merge_append_entries mx evs) \<le> length evs"
proof (induction mx evs rule: merge_append_entries.induct)
  case (1 mx req ss evs)
  then show ?case
    using absorb_requests_length [of mx req ss "ae_prev_log_index req + length (ae_entries req)" evs]
    by (auto split: prod.split)
qed simp_all

section \<open>Processing what is buffered\<close>

text \<open>A non-fatal error is logged and the loop goes on; a fatal one ends it.  A panic unwinds.
  The internal events handled here never add to the buffer they are taken from.\<close>

definition ends_loop :: "unit result \<Rightarrow> bool" where
  "ends_loop r = (is_panic r \<or> (case r of Inl e \<Rightarrow> is_fatal e | Inr _ \<Rightarrow> False))"

fun process_internal_events :: "raft_env \<Rightarrow> internal_event list \<Rightarrow> raft \<Rightarrow> raft \<times> unit result" where
  "process_internal_events env [] rf = (rf\<lparr>rf_buffered_internal := []\<rparr>, Inr ())"
| "process_internal_events env (ev # evs) rf =
     (case handle_internal_event env ev (rf\<lparr>rf_buffered_internal := evs\<rparr>) of
        (rf1, r) \<Rightarrow> if ends_loop r then (rf1, r) else process_internal_events env evs rf1)"

function process_inbound_list ::
    "raft_env \<Rightarrow> inbound_event list \<Rightarrow> raft_role \<Rightarrow> raft_context
     \<Rightarrow> (inbound_event list \<times> raft_role \<times> raft_context) \<times> unit result" where
  "process_inbound_list env evs r c =
     (case merge_append_entries (re_max_merge_entries env) evs of
        [] \<Rightarrow> (([], r, c), Inr ())
      | ev # rest \<Rightarrow>
          (case role_handle_inbound_event env ev r c of
             ((r1, c1), res) \<Rightarrow>
               if ends_loop res then ((rest, r1, c1), res) else process_inbound_list env rest r1 c1))"
  by pat_completeness auto
termination
proof (relation "measure (\<lambda>(env, evs, r, c). length evs)")
  fix env :: raft_env and evs :: "inbound_event list" and ev rest
  assume m: "merge_append_entries (re_max_merge_entries env) evs = ev # rest"
  then have "evs \<noteq> []" by auto
  then have "length (ev # rest) \<le> length evs"
    using merge_append_entries_length m by metis
  then show "((env, rest, r1, c1), env, evs, r, c) \<in> measure (\<lambda>(env, evs, r, c). length evs)" for r1 c1 r c
    by simp
qed simp

declare process_inbound_list.simps [simp del]

definition process_inbound_events :: "raft_env \<Rightarrow> raft \<Rightarrow> raft \<times> unit result" where
  "process_inbound_events env rf =
     (case process_inbound_list env (rf_buffered_inbound rf) (rf_role rf) (rf_ctx rf) of
        ((evs, r, c), res) \<Rightarrow> (rf\<lparr>rf_buffered_inbound := evs, rf_role := r, rf_ctx := c\<rparr>, res))"

definition process_client_cmds :: "raft_env \<Rightarrow> raft \<Rightarrow> raft \<times> unit result" where
  "process_client_cmds env rf = set_role_ctx id (role_flush_cmd_buffers env (rf_role rf) (rf_ctx rf)) rf"

section \<open>One turn of the loop\<close>

definition reset_tick :: "raft_env \<Rightarrow> raft \<Rightarrow> raft" where
  "reset_tick env rf = rf\<lparr>rf_tick := next_deadline (en_now (re_role env)) (rf_role rf)\<rparr>"

text \<open>The biased \<^verbatim>\<open>select!\<close>: \<^verbatim>\<open>None\<close> when no arm is ready.  Errors of the tick are
  logged.\<close>

definition select_arm :: "raft_env \<Rightarrow> raft \<Rightarrow> (raft \<times> unit result) option" where
  "select_arm env rf =
     (if rf_tick rf \<le> en_now (re_role env) then
        (case set_role_ctx logged (role_tick env (rf_role rf) (rf_ctx rf)) rf of
           (rf1, r) \<Rightarrow> Some (reset_tick env rf1, r))
      else (case cx_events (rf_ctx rf) of
              ev # evs \<Rightarrow>
                Some (drain_internal_events env
                        (rf\<lparr>rf_buffered_internal := rf_buffered_internal rf @ [ev],
                            rf_ctx := (rf_ctx rf)\<lparr>cx_events := evs\<rparr>\<rparr>), Inr ())
            | [] \<Rightarrow>
                (case rf_command_channel rf of
                   cmd # cmds \<Rightarrow>
                     Some (drain_client_cmds env (push_client_cmds env [cmd] (rf\<lparr>rf_command_channel := cmds\<rparr>)), Inr ())
                 | [] \<Rightarrow>
                     (case rf_inbound_channel rf of
                        ev # evs \<Rightarrow>
                          Some (drain_inbound_events env
                                  (rf\<lparr>rf_buffered_inbound := rf_buffered_inbound rf @ [ev],
                                      rf_inbound_channel := evs\<rparr>), Inr ())
                      | [] \<Rightarrow> None))))"

definition loop_turn :: "raft_env \<Rightarrow> raft \<Rightarrow> (raft \<times> unit result) option" where
  "loop_turn env rf =
     (case select_arm env rf of
        None \<Rightarrow> None
      | Some (rf1, Inl e) \<Rightarrow> Some (rf1, Inl e)
      | Some (rf1, Inr _) \<Rightarrow>
          Some (case process_internal_events env (rf_buffered_internal rf1) rf1 of
                  (rf2, r2) \<Rightarrow> if ends_loop r2 then (rf2, r2)
                  else (case process_client_cmds env rf2 of
                          (rf3, Inl e) \<Rightarrow> (rf3, Inl e)
                        | (rf3, Inr _) \<Rightarrow>
                            (case process_inbound_events env rf3 of
                               (rf4, r4) \<Rightarrow> if ends_loop r4 then (rf4, r4) else (reset_tick env rf4, Inr ())))))"

end
