(* ===== verification/Voter.thy ===== *)
theory Voter
  imports Roles
begin

text \<open>
  What a role does to its term and vote, as an abstract automaton, and the refinement: every
  inbound event a follower, a candidate or a learner handles, and every tick of a candidate,
  is one step of it.  The automaton is the voting rule of the Raft paper; the roles add logs,
  timers, persistence and replies.
\<close>

datatype voter_act = Idle | GrantTo node_id u64 | ContactBy node_id u64

text \<open>A vote may be given in a new term, or in the current one if none was given or to the same
  candidate again.\<close>

definition can_grant :: "hard_state \<Rightarrow> node_id \<Rightarrow> u64 \<Rightarrow> bool" where
  "can_grant h cand t =
     (hs_current_term h < t
      \<or> hs_current_term h = t
         \<and> (case hs_voted_for h of None \<Rightarrow> True | Some w \<Rightarrow> vf_term w = t \<and> vf_id w = cand))"

inductive voter_step :: "hard_state \<Rightarrow> voter_act \<Rightarrow> hard_state \<Rightarrow> bool" where
  keep: "voter_step h Idle h"
| raise: "hs_current_term h < t \<Longrightarrow> voter_step h Idle (h\<lparr>hs_current_term := t\<rparr>)"
| grant: "can_grant h cand t \<Longrightarrow>
          voter_step h (GrantTo cand t) \<lparr>hs_current_term = t, hs_voted_for = Some (own_vote cand t)\<rparr>"
| contact: "hs_current_term h \<le> t \<Longrightarrow>
            voter_step h (ContactBy l t) \<lparr>hs_current_term = t, hs_voted_for = Some (leader_vote l t)\<rparr>"

inductive_cases voter_idleE: "voter_step h Idle h'"
inductive_cases voter_grantE: "voter_step h (GrantTo cand t) h'"
inductive_cases voter_contactE: "voter_step h (ContactBy l t) h'"

abbreviation hs_of :: "base_role \<Rightarrow> hard_state" where
  "hs_of r \<equiv> ss_hard_state (ro_shared r)"

lemma voter_term_mono: "voter_step h a h' \<Longrightarrow> hs_current_term h \<le> hs_current_term h'"
  by (induction rule: voter_step.induct) (auto simp: can_grant_def)

lemma voter_raise_le:
  assumes "hs_current_term h \<le> t"
  shows "voter_step h Idle (h\<lparr>hs_current_term := t\<rparr>)"
proof (cases "hs_current_term h = t")
  case True
  then have "h\<lparr>hs_current_term := t\<rparr> = h"
    by (cases h) simp
  then show ?thesis
    by (simp add: voter_step.keep)
qed (use assms in \<open>simp add: voter_step.raise\<close>)

section \<open>Committing a hard state\<close>

lemma set_hard_state_hs [simp]:
  "ss_hard_state (fst (set_hard_state trm vote s)) =
     \<lparr>hs_current_term = (case trm of Some t \<Rightarrow> t | None \<Rightarrow> ss_term s),
      hs_voted_for = (case vote of Some v \<Rightarrow> Some v | None \<Rightarrow> ss_voted_for s)\<rparr>"
  "ss_node_id (fst (set_hard_state trm vote s)) = ss_node_id s"
  "ss_commit_index (fst (set_hard_state trm vote s)) = ss_commit_index s"
  by (simp_all add: set_hard_state_def Let_def ss_term_def ss_voted_for_def split: option.split)

lemma commit_hard_state_hs:
  assumes "commit_hard_state env trm vote s c = ((s', c'), res)"
  shows "ss_hard_state s' =
     \<lparr>hs_current_term = (case trm of Some t \<Rightarrow> t | None \<Rightarrow> ss_term s),
      hs_voted_for = (case vote of Some v \<Rightarrow> Some v | None \<Rightarrow> ss_voted_for s)\<rparr>"
    and "ss_node_id s' = ss_node_id s" and "ss_commit_index s' = ss_commit_index s"
proof -
  have "s' = (if trm = None \<and> vote = None then s else fst (set_hard_state trm vote s))"
    using assms by (auto simp: commit_hard_state_def split: if_splits prod.splits sum.splits)
  then show "ss_hard_state s' =
     \<lparr>hs_current_term = (case trm of Some t \<Rightarrow> t | None \<Rightarrow> ss_term s),
      hs_voted_for = (case vote of Some v \<Rightarrow> Some v | None \<Rightarrow> ss_voted_for s)\<rparr>"
    and "ss_node_id s' = ss_node_id s" and "ss_commit_index s' = ss_commit_index s"
    by (auto simp: ss_term_def ss_voted_for_def)
qed

lemma reset_timer_shared [simp]: "ro_shared (reset_timer env r) = ro_shared r"
  "ro_kind (reset_timer env r) = ro_kind r"
  by (simp_all add: reset_timer_def split: option.split)

section \<open>Each handler is a voter step\<close>

lemma follower_vote_step:
  assumes "follower_vote_request env q ch r c = ((r', c'), res)"
  shows "voter_step (hs_of r)
     (if su_new_voted_for (handle_vote_request q (ro_term r) (ss_voted_for (ro_shared r)) (cx_log c)) = None
      then Idle else GrantTo (vq_candidate_id q) (vq_term q)) (hs_of r')"
proof -
  define u where "u = handle_vote_request q (ro_term r) (ss_voted_for (ro_shared r)) (cx_log c)"
  have h: "hs_of r' = \<lparr>hs_current_term = (case su_term_update u of Some t \<Rightarrow> t | None \<Rightarrow> ss_term (ro_shared r)),
      hs_voted_for = (case su_new_voted_for u of Some v \<Rightarrow> Some v | None \<Rightarrow> ss_voted_for (ro_shared r))\<rparr>"
    using assms unfolding follower_vote_request_def Let_def u_def [symmetric]
    by (auto split: prod.splits sum.splits if_splits dest!: commit_hard_state_hs(1))
  have tu: "su_term_update u = (if vq_term q > ro_term r then Some (vq_term q) else None)"
    by (simp add: u_def handle_vote_request_def Let_def)
  show ?thesis
  proof (cases "su_new_voted_for u")
    case None
    have "hs_of r' = (if vq_term q > ro_term r then (hs_of r)\<lparr>hs_current_term := vq_term q\<rparr> else hs_of r)"
      using h None tu by (simp add: ro_term_def ss_term_def ss_voted_for_def)
    then have "voter_step (hs_of r) Idle (hs_of r')"
      by (auto simp: ro_term_def ss_term_def intro: voter_step.intros)
    then show ?thesis
      using None by (simp add: u_def [symmetric])
  next
    case (Some v)
    then have v: "v = own_vote (vq_candidate_id q) (vq_term q)" and ge: "\<not> vq_term q < ro_term r"
      and old: "vq_term q = ro_term r \<Longrightarrow> (case ss_voted_for (ro_shared r) of None \<Rightarrow> True
                 | Some w \<Rightarrow> vf_term w = vq_term q \<and> vf_id w = vq_candidate_id q)"
      by (auto simp: u_def handle_vote_request_def Let_def own_vote_def split: if_splits option.splits)
    have "can_grant (hs_of r) (vq_candidate_id q) (vq_term q)"
      using ge old by (auto simp: can_grant_def ro_term_def ss_term_def ss_voted_for_def)
    then have "voter_step (hs_of r) (GrantTo (vq_candidate_id q) (vq_term q))
        \<lparr>hs_current_term = vq_term q, hs_voted_for = Some (own_vote (vq_candidate_id q) (vq_term q))\<rparr>"
      by (rule voter_step.grant)
    moreover have "hs_of r' = \<lparr>hs_current_term = vq_term q, hs_voted_for = Some (own_vote (vq_candidate_id q) (vq_term q))\<rparr>"
      using h Some v tu ge by (auto simp: ro_term_def)
    ultimately show ?thesis
      using Some by (simp add: u_def [symmetric])
  qed
qed

lemma candidate_vote_step:
  assumes "candidate_vote_request env q ch r c = ((r', c'), res)"
  shows "voter_step (hs_of r) Idle (hs_of r')"
proof -
  have "hs_of r' = hs_of r \<or> ro_term r \<le> vq_term q \<and> hs_of r' = (hs_of r)\<lparr>hs_current_term := vq_term q\<rparr>"
    using assms
    by (auto simp: candidate_vote_request_def Let_def check_vote_request_is_legal_def ss_voted_for_def
        split: prod.splits sum.splits if_splits dest!: commit_hard_state_hs(1))
  then show ?thesis
    by (auto simp: ro_term_def ss_term_def intro: voter_raise_le voter_step.keep)
qed

lemma learner_vote_step:
  assumes "learner_vote_request env q ch r c = ((r', c'), res)"
  shows "voter_step (hs_of r) Idle (hs_of r')"
proof -
  have "hs_of r' = hs_of r \<or> ro_term r < vq_term q \<and> hs_of r' = (hs_of r)\<lparr>hs_current_term := vq_term q\<rparr>"
    using assms
    by (auto simp: learner_vote_request_def Let_def ss_voted_for_def
        split: prod.splits sum.splits if_splits dest!: commit_hard_state_hs(1))
  then show ?thesis
    by (auto simp: ro_term_def ss_term_def intro: voter_step.intros)
qed

lemma set_current_leader_hs [simp]:
  "ss_hard_state (set_current_leader l s) = ss_hard_state s" "ss_node_id (set_current_leader l s) = ss_node_id s"
  by (simp_all add: set_current_leader_def)

lemma commit_index_signal_hs:
  assumes "update_commit_index_with_signal env role t i s c = ((s', c'), res)"
  shows "ss_hard_state s' = ss_hard_state s"
  using assms by (auto simp: update_commit_index_with_signal_def update_commit_index_def split: prod.splits)

lemma append_accepted_hs:
  assumes "append_entries_accepted env req chs st i r c = ((r', c'), res)"
  shows "hs_of r' = hs_of r"
proof (cases "handle_append_entries (ss_node_id (ro_shared r)) req st (cx_log c) (en_io env)")
  case (Pair l x)
  show ?thesis
  proof (cases x)
    case (Inl e)
    then show ?thesis
      using assms Pair by (cases e) (simp_all add: append_entries_accepted_def Let_def)
  next
    case (Inr u)
    then show ?thesis
      using assms Pair
      by (cases "au_commit_index_update u")
        (auto simp: append_entries_accepted_def Let_def split: prod.splits sum.splits
           dest!: commit_index_signal_hs)
  qed
qed

lemma leader_contact_step:
  assumes "commit_hard_state env (term_update_of (check_incoming_term (ss_term s) t)) (Some (leader_vote l t)) s c
           = ((s', c'), res)"
    and "check_incoming_term (ss_term s) t \<noteq> RejectStale"
  shows "voter_step (ss_hard_state s) (ContactBy l t) (ss_hard_state s')"
proof -
  have le: "ss_term s \<le> t"
    using assms(2) by (simp add: check_incoming_term_def split: if_splits)
  have "ss_hard_state s' = \<lparr>hs_current_term = t, hs_voted_for = Some (leader_vote l t)\<rparr>"
    using commit_hard_state_hs(1) [OF assms(1)] le
    by (simp add: check_incoming_term_def term_update_of_def split: if_splits)
  then show ?thesis
    using le by (simp add: ss_term_def voter_step.contact)
qed

lemma append_workflow_step:
  assumes "handle_append_entries_request_workflow env req chs st r c = ((r', c'), res)"
  shows "voter_step (hs_of r)
     (if ae_term req < ro_term r then Idle else ContactBy (ae_leader_id req) (ae_term req)) (hs_of r')"
proof (cases "ae_term req < ro_term r")
  case True
  then have "r' = r"
    using assms by (simp add: handle_append_entries_request_workflow_def Let_def check_incoming_term_def)
  then show ?thesis
    using True by (simp add: voter_step.keep)
next
  case False
  let ?d = "check_incoming_term (ss_term (ro_shared r)) (ae_term req)"
  have d: "?d \<noteq> RejectStale"
    using False by (simp add: check_incoming_term_def ro_term_def)
  obtain s2 c2 x where commit: "commit_hard_state env (term_update_of ?d)
      (Some (leader_vote (ae_leader_id req) (ae_term req))) (ro_shared r) c = ((s2, c2), x)"
    by (metis prod.collapse)
  have "hs_of r' = ss_hard_state s2"
    using assms d commit
    by (auto simp: handle_append_entries_request_workflow_def Let_def ro_term_def
        split: sum.splits prod.splits if_splits dest!: append_accepted_hs)
  then show ?thesis
    using leader_contact_step [OF commit d] False by simp
qed

lemma snapshot_installed_hs:
  assumes "snapshot_installed env ir ch role t r c = ((r', c'), res)"
  shows "hs_of r' = hs_of r"
  using assms
  by (auto simp: snapshot_installed_def Let_def schedule_installed_snapshot_purge_def
      update_commit_index_with_signal_def update_commit_index_def
      split: sum.splits prod.splits option.splits snapshot_apply_result.splits if_splits)

lemma install_workflow_step:
  assumes "handle_install_snapshot_chunk_workflow env fc prep ir ch st r c = ((r', c'), res)"
  shows "voter_step (hs_of r)
     (case fc of None \<Rightarrow> Idle | Some (l, t) \<Rightarrow> if t < ro_term r then Idle else ContactBy l t) (hs_of r')"
proof (cases "fc = None \<or> (\<exists>l t. fc = Some (l, t) \<and> t < ro_term r)")
  case True
  then have "r' = r"
    using assms by (auto simp: handle_install_snapshot_chunk_workflow_def Let_def check_incoming_term_def)
  then show ?thesis
    using True by (auto simp: voter_step.keep)
next
  case False
  then obtain l t where fc: "fc = Some (l, t)" and ge: "\<not> t < ro_term r"
    by auto
  let ?d = "check_incoming_term (ss_term (ro_shared r)) t"
  have d: "?d \<noteq> RejectStale"
    using ge by (simp add: check_incoming_term_def ro_term_def)
  obtain s2 c2 x where commit: "commit_hard_state env (term_update_of ?d)
      (Some (leader_vote l t)) (ro_shared r) c = ((s2, c2), x)"
    by (metis prod.collapse)
  have "hs_of r' = ss_hard_state s2"
    using assms d commit fc
    by (auto simp: handle_install_snapshot_chunk_workflow_def Let_def ro_term_def
        split: sum.splits prod.splits dest!: snapshot_installed_hs)
  then show ?thesis
    using leader_contact_step [OF commit d] ge fc by simp
qed

section \<open>Inbound events of all roles\<close>

text \<open>The action an event is for the voting rule: who is granted a vote, and which leader is
  heard.\<close>

definition voter_act_of :: "snapshot_input \<Rightarrow> inbound_event \<Rightarrow> base_role \<Rightarrow> raft_context \<Rightarrow> voter_act" where
  "voter_act_of snap ev r c =
     (case ev of
        ReceiveVoteRequest q _ \<Rightarrow>
          (if ro_kind r = NR_Follower
              \<and> su_new_voted_for (handle_vote_request q (ro_term r) (ss_voted_for (ro_shared r)) (cx_log c)) \<noteq> None
           then GrantTo (vq_candidate_id q) (vq_term q) else Idle)
      | AppendEntries req _ \<Rightarrow>
          (if ro_kind r \<in> {NR_Follower, NR_Learner} \<and> ro_term r \<le> ae_term req
           then ContactBy (ae_leader_id req) (ae_term req) else Idle)
      | InstallSnapshotChunk _ \<Rightarrow>
          (case si_first_chunk snap of
             Some (l, t) \<Rightarrow> if ro_kind r \<in> {NR_Follower, NR_Learner} \<and> ro_term r \<le> t then ContactBy l t else Idle
           | None \<Rightarrow> Idle)
      | _ \<Rightarrow> Idle)"

lemma reply_then_role: "reply_then env ch a res r c = ((r', c'), x) \<Longrightarrow> r' = r"
  by (auto simp: reply_then_def split: prod.splits sum.splits)

lemma follower_inbound_step:
  assumes "follower_handle_inbound_event env snap ev r c = ((r', c'), res)" and "ro_kind r = NR_Follower"
  shows "voter_step (hs_of r) (voter_act_of snap ev r c) (hs_of r')"
proof (cases ev)
  case (ReceiveVoteRequest q ch)
  then show ?thesis
    using follower_vote_step [of env q ch r c r' c' res] assms
    by (auto simp: follower_handle_inbound_event_def voter_act_of_def split: if_splits)
next
  case (AppendEntries req chs)
  then show ?thesis
    using append_workflow_step [of env req chs "state_snapshot_of r" r c r' c' res] assms
    by (auto simp: follower_handle_inbound_event_def voter_act_of_def not_less split: if_splits)
next
  case (InstallSnapshotChunk ch)
  then show ?thesis
    using install_workflow_step [of env "si_first_chunk snap" "si_prepared snap" "si_installed snap" ch
        "state_snapshot_of r" r c r' c' res] assms
    by (auto simp: follower_handle_inbound_event_def voter_act_of_def not_less split: option.splits if_splits)
qed (use assms in \<open>auto simp: follower_handle_inbound_event_def voter_act_of_def
       intro: voter_step.keep dest!: reply_then_role split: prod.splits\<close>)

lemma learner_inbound_step:
  assumes "learner_handle_inbound_event env snap ev r c = ((r', c'), res)" and "ro_kind r = NR_Learner"
  shows "voter_step (hs_of r) (voter_act_of snap ev r c) (hs_of r')"
proof (cases ev)
  case (ReceiveVoteRequest q ch)
  then show ?thesis
    using learner_vote_step [of env q ch r c r' c' res] assms
    by (simp add: learner_handle_inbound_event_def voter_act_of_def)
next
  case (AppendEntries req chs)
  then show ?thesis
    using append_workflow_step [of env req chs "state_snapshot_of r" r c r' c' res] assms
    by (auto simp: learner_handle_inbound_event_def voter_act_of_def not_less split: if_splits)
next
  case (InstallSnapshotChunk ch)
  then show ?thesis
    using install_workflow_step [of env "si_first_chunk snap" "si_prepared snap" "si_installed snap" ch
        "state_snapshot_of r" r c r' c' res] assms
    by (auto simp: learner_handle_inbound_event_def voter_act_of_def not_less split: option.splits if_splits)
qed (use assms in \<open>auto simp: learner_handle_inbound_event_def voter_act_of_def
       intro: voter_step.keep dest!: reply_then_role split: prod.splits\<close>)

lemma candidate_append_step:
  assumes "candidate_handle_inbound_event env (AppendEntries req chs) r c = ((r', c'), res)"
  shows "voter_step (hs_of r) Idle (hs_of r')"
proof -
  have "hs_of r' = hs_of r \<or> ro_term r < ae_term req \<and> hs_of r' = (hs_of r)\<lparr>hs_current_term := ae_term req\<rparr>"
    using assms
    by (auto simp: candidate_handle_inbound_event_def Let_def ss_voted_for_def
        split: prod.splits sum.splits if_splits dest!: commit_hard_state_hs(1))
  then show ?thesis
    by (auto simp: ro_term_def ss_term_def intro: voter_step.intros)
qed

lemma candidate_inbound_step:
  assumes "candidate_handle_inbound_event env ev r c = ((r', c'), res)" and "ro_kind r = NR_Candidate"
  shows "voter_step (hs_of r) (voter_act_of snap ev r c) (hs_of r')"
proof (cases ev)
  case (ReceiveVoteRequest q ch)
  then show ?thesis
    using candidate_vote_step [of env q ch r c r' c' res] assms
    by (simp add: candidate_handle_inbound_event_def voter_act_of_def)
next
  case (AppendEntries req chs)
  then show ?thesis
    using candidate_append_step [of env req chs r c r' c' res] assms by (simp add: voter_act_of_def)
next
  case (InstallSnapshotChunk ch)
  then have "r' = r"
    using assms by (auto simp: candidate_handle_inbound_event_def dest!: reply_then_role)
  then show ?thesis
    using InstallSnapshotChunk assms(2) by (auto simp: voter_act_of_def voter_step.keep split: option.splits)
qed (use assms in \<open>auto simp: candidate_handle_inbound_event_def voter_act_of_def
       intro: voter_step.keep dest!: reply_then_role split: prod.splits\<close>)

section \<open>The candidate's tick\<close>

text \<open>A tick that starts an election is the candidate's vote for itself in the next term; an
  answer with a higher term is adopted after it.\<close>

definition election_answer ::
    "(node_id \<Rightarrow> vote_request \<Rightarrow> vote_response result) \<Rightarrow> (node_id list \<Rightarrow> node_id list) \<Rightarrow> base_role
     \<Rightarrow> raft_context \<Rightarrow> unit result" where
  "election_answer send arrive r c =
     broadcast_vote_requests (ss_node_id (ro_shared r)) (ro_term r + 1) (is_single_node_cluster (cx_membership c))
       (map nm_id (voters (cx_membership c))) (cx_log c) send arrive"

lemma tally_higher_term: "tally_votes t lst n rs = Inl (HigherTerm h) \<Longrightarrow> t < h"
  by (induction t lst n rs rule: tally_votes.induct) (auto simp: if_higher_term_found_def split: if_splits)

lemma higher_term_is_higher:
  assumes "broadcast_vote_requests me t single vs l send arrive = Inl (HigherTerm h)"
  shows "t < h"
  using assms by (auto simp: broadcast_vote_requests_def Let_def bind_result_def
      split: if_splits sum.splits dest: tally_higher_term)

lemma commit_hard_state_ok_ctx:
  assumes "commit_hard_state env trm vote s c = ((s', c'), Inr b)"
  shows "c' = c\<lparr>cx_disk := cx_disk c'\<rparr>"
    and "cx_disk c = Some (ss_hard_state s) \<Longrightarrow> cx_disk c' = Some (ss_hard_state s')"
  using assms
  by (auto simp: commit_hard_state_def set_hard_state_def persist_hard_state_def save_hard_state_def Let_def
      split: if_splits prod.splits sum.splits option.splits)

lemma commit_hard_state_events:
  assumes "commit_hard_state env trm vote s c = ((s', c'), x)"
  shows "cx_events c' = cx_events c" "cx_sent c' = cx_sent c"
  using assms
  by (auto simp: commit_hard_state_def persist_hard_state_def
      split: if_splits prod.splits sum.splits)

abbreviation timer_pending :: "role_env \<Rightarrow> base_role \<Rightarrow> bool" where
  "timer_pending env r \<equiv> (case ro_deadline r of Some d \<Rightarrow> en_now env < d | None \<Rightarrow> False)"

abbreviation self_vote :: "base_role \<Rightarrow> voted_for" where
  "self_vote r \<equiv> own_vote (ss_node_id (ro_shared r)) (Suc (ro_term r))"

lemma candidate_tick_save_failed:
  assumes "\<not> timer_pending env r"
    and "commit_hard_state env (Some (Suc (ro_term r))) (Some (self_vote r)) (ro_shared r) c = ((s2, c2), Inl e)"
  shows "candidate_tick env send arrive r c = (((reset_timer env r)\<lparr>ro_shared := s2\<rparr>, c2), Inl e)"
  using assms by (simp add: candidate_tick_def)

lemma candidate_tick_saved:
  assumes "\<not> timer_pending env r"
    and commit: "commit_hard_state env (Some (Suc (ro_term r))) (Some (self_vote r)) (ro_shared r) c = ((s2, c2), Inr b)"
  shows "candidate_tick env send arrive r c =
       (let r2 = (reset_timer env r)\<lparr>ro_shared := s2\<rparr> in
        case election_answer send arrive r c of
          Inr _ \<Rightarrow> ((r2, fst (send_event env BecomeLeader c2)), Inr ())
        | Inl (HigherTerm h) \<Rightarrow>
            (case commit_hard_state env (Some h) None s2 c2 of
               ((s3, c3), Inl e) \<Rightarrow> ((r2\<lparr>ro_shared := s3\<rparr>, c3), Inl e)
             | ((s3, c3), Inr _) \<Rightarrow>
                 (case send_event env (BecomeFollower None) c3 of
                    (c4, y) \<Rightarrow> ((r2\<lparr>ro_shared := s3\<rparr>, c4), y)))
        | Inl e \<Rightarrow> ((r2, c2), Inr ()))"
proof -
  have c2: "c2 = c\<lparr>cx_disk := cx_disk c2\<rparr>"
    using commit_hard_state_ok_ctx(1) [OF commit] .
  have "cx_membership c2 = cx_membership c" "cx_log c2 = cx_log c"
    by (subst c2; simp)+
  moreover have "ss_term s2 = Suc (ro_term r)"
    using commit_hard_state_hs(1) [OF commit] by (simp add: ss_term_def)
  ultimately have "broadcast_vote_requests (ss_node_id (ro_shared r)) (ss_term s2)
      (is_single_node_cluster (cx_membership c2)) (map nm_id (voters (cx_membership c2))) (cx_log c2) send arrive
      = election_answer send arrive r c"
    by (simp add: election_answer_def)
  then show ?thesis
    using assms by (simp add: candidate_tick_def Let_def)
qed

text \<open>After the vote for itself the term is raised by a higher answer, and \<^verbatim>\<open>BecomeLeader\<close>
  is sent only for a won election.\<close>

lemma candidate_tick_won:
  assumes run: "candidate_tick env send arrive r c = ((r', c'), res)" and "\<not> timer_pending env r"
    and commit: "commit_hard_state env (Some (Suc (ro_term r))) (Some (self_vote r)) (ro_shared r) c = ((s2, c2), Inr b)"
  shows "voter_step (ss_hard_state s2) Idle (hs_of r') \<and> (cx_events c' = cx_events c @ [BecomeLeader] \<longrightarrow>
     hs_of r' = ss_hard_state s2 \<and> election_answer send arrive r c = Inr ())"
proof -
  let ?ans = "election_answer send arrive r c"
  note run = run [unfolded candidate_tick_saved [OF assms(2,3)] Let_def]
  note ev = commit_hard_state_events(1) [OF commit]
  show ?thesis
  proof (cases "\<exists>h. ?ans = Inl (HigherTerm h)")
    case True
    then obtain hi where hi: "?ans = Inl (HigherTerm hi)" by blast
    then have "ro_term r + 1 < hi"
      unfolding election_answer_def by (rule higher_term_is_higher)
    then have lt: "hs_current_term (ss_hard_state s2) < hi"
      using commit_hard_state_hs(1) [OF commit] by simp
    obtain s3 c3 y where commit3: "commit_hard_state env (Some hi) None s2 c2 = ((s3, c3), y)"
      by (metis prod.collapse)
    have "hs_of r' = (ss_hard_state s2)\<lparr>hs_current_term := hi\<rparr>"
      using run hi commit3 commit_hard_state_hs(1) [OF commit3]
      by (auto simp: ss_voted_for_def split: sum.splits prod.splits)
    moreover have "cx_events c' \<noteq> cx_events c @ [BecomeLeader]"
      using run hi commit3 commit_hard_state_events(1) [OF commit3] ev
      by (auto simp: send_event_def split: sum.splits prod.splits if_splits)
    ultimately show ?thesis
      using lt by (auto intro: voter_step.raise)
  next
    case False
    then have "hs_of r' = ss_hard_state s2" and "?ans \<noteq> Inr () \<Longrightarrow> c' = c2"
      using run by (auto split: sum.splits error.splits)
    then show ?thesis
      using ev by (cases "?ans = Inr ()") (simp_all add: voter_step.keep)
  qed
qed

lemma candidate_tick_vote:
  assumes "candidate_tick env send arrive b c = ((b', c'), res)" and "\<not> timer_pending env b"
  shows "\<exists>h1. voter_step (hs_of b) (GrantTo (ss_node_id (ro_shared b)) (Suc (ro_term b))) h1
     \<and> voter_step h1 Idle (hs_of b')
     \<and> (cx_events c' = cx_events c @ [BecomeLeader] \<longrightarrow> election_answer send arrive b c = Inr ())"
proof -
  obtain s2 c2 x where commit: "commit_hard_state env (Some (Suc (ro_term b))) (Some (self_vote b))
      (ro_shared b) c = ((s2, c2), x)"
    by (metis prod.collapse)
  have g: "voter_step (hs_of b) (GrantTo (ss_node_id (ro_shared b)) (Suc (ro_term b))) (ss_hard_state s2)"
    using voter_step.grant [of "hs_of b" "ss_node_id (ro_shared b)" "Suc (ro_term b)"]
      commit_hard_state_hs(1) [OF commit] by (simp add: can_grant_def ro_term_def ss_term_def)
  show ?thesis
  proof (cases x)
    case (Inl e)
    then have "hs_of b' = ss_hard_state s2" and "cx_events c' = cx_events c"
      using assms candidate_tick_save_failed [of env b c s2 c2 e] commit commit_hard_state_events(1) [OF commit]
      by auto
    then show ?thesis
      using g by (auto intro: voter_step.keep)
  next
    case (Inr y)
    then show ?thesis
      using candidate_tick_won [OF assms] commit g by blast
  qed
qed

end
