(* ===== verification/Leader_Frame.thy ===== *)
theory Leader_Frame
  imports Raft_Loop Voter
begin

text \<open>
  What the operations of the leader leave alone.  Only a higher term changes the hard state of
  a leader, only the commit rule its commit index and only the lease operations its lease; the
  rewrite rules of this theory say so operation by operation.
\<close>

named_theorems shared_frame "operations that leave the leader's shared state alone"

abbreviation ld_hs :: "leader_state \<Rightarrow> hard_state" where
  "ld_hs d \<equiv> ss_hard_state (ld_shared d)"

section \<open>Operations that leave the shared state alone\<close>

lemma shared_peers [shared_frame]:
  "ld_shared (update_next_index k n d) = ld_shared d"
  "ld_shared (update_match_index k n d) = ld_shared d"
  "ld_shared (set_peer_state k st d) = ld_shared d"
  by (simp_all add: update_next_index_def update_match_index_def set_peer_state_def Let_def)

lemma shared_init_peers [shared_frame]:
  "ld_shared (init_peers_next_index_and_match_index i ps d) = ld_shared d"
  by (induction i ps d rule: init_peers_next_index_and_match_index.induct) (simp_all add: shared_frame)

lemma shared_update_peer [shared_frame]:
  "ld_shared (update_peer_index k u d) = ld_shared d"
  "ld_shared (handle_peer_stream_error k d) = ld_shared d"
  "ld_shared (update_cluster_metadata m d) = ld_shared d"
  by (simp_all add: update_peer_index_def handle_peer_stream_error_def update_cluster_metadata_def
      Let_def shared_frame split: option.split)

lemma shared_resolve [shared_frame]: "ld_shared (fst (resolve_committed_writes env ws d c)) = ld_shared d"
  by (induction env ws d c rule: resolve_committed_writes.induct) simp_all

lemma shared_commit_actions [shared_frame]: "ld_shared (fst (run_commit_actions env as d c)) = ld_shared d"
  by (induction env as d c rule: run_commit_actions.induct) (simp_all add: on_noop_committed_def)

lemma shared_drains [shared_frame]:
  "ld_shared (fst (drain_pending_client_writes env n d c)) = ld_shared d"
  "ld_shared (fst (drain_commit_actions env n d c)) = ld_shared d"
  "ld_shared (fst (drain_pending_writes_with_error env code d c)) = ld_shared d"
  "ld_shared (fst (drain_pending_lease_reads env d c)) = ld_shared d"
  "ld_shared (fst (serve_pending_reads env n d c)) = ld_shared d"
  by (simp_all add: drain_pending_client_writes_def drain_commit_actions_def
      drain_pending_writes_with_error_def drain_pending_lease_reads_def serve_pending_reads_def shared_frame)

lemma shared_drain_read_buffer [shared_frame]: "ld_shared (fst (drain_read_buffer env d c)) = ld_shared d"
  by (simp add: drain_read_buffer_def Let_def case_prod_beta shared_frame)

lemma shared_workers [shared_frame]:
  "ld_shared (send_to_worker_or_spawn env k task d) = ld_shared d"
  "ld_shared (handle_snapshot_push_completed env k ok d) = ld_shared d"
  by (simp_all add: send_to_worker_or_spawn_def handle_snapshot_push_completed_def Let_def shared_frame
      split: option.split)

lemma shared_dispatch_appends [shared_frame]: "ld_shared (dispatch_appends env rs d) = ld_shared d"
  by (induction env rs d rule: dispatch_appends.induct) (simp_all add: Let_def shared_frame)

lemma shared_dispatch_snapshots [shared_frame]: "ld_shared (dispatch_snapshots env md ps d) = ld_shared d"
  by (induction env md ps d rule: dispatch_snapshots.induct) (simp_all add: shared_frame)

lemma shared_round [shared_frame]:
  "ld_shared (store_pending_write env wm d) = ld_shared d"
  "ld_shared (fst (route_linearizable_reads env rb d c)) = ld_shared d"
  by (simp_all add: store_pending_write_def route_linearizable_reads_def Let_def split: option.split)

lemma shared_rpc [shared_frame]:
  "ld_shared (fst (fst (execute_and_process_raft_rpc env ps wm rb d c))) = ld_shared d"
  by (simp add: execute_and_process_raft_rpc_def Let_def case_prod_beta shared_frame
      split: sum.split option.split)

lemma shared_batches [shared_frame]:
  "ld_shared (ld_reset_timer env d) = ld_shared d"
  "ld_shared (fst (fst (process_batch env b d c))) = ld_shared d"
  "ld_shared (fst (fst (execute_request_immediately env q d c))) = ld_shared d"
  "ld_shared (fst (fst (send_heartbeat_or_batch env rq d c))) = ld_shared d"
  "ld_shared (fst (fst (unified_write_and_linear_read env d c))) = ld_shared d"
  by (simp_all add: ld_reset_timer_def process_batch_def execute_request_immediately_def
      send_heartbeat_or_batch_def unified_write_and_linear_read_def Let_def case_prod_beta shared_frame
      split: option.split)

lemma shared_control [shared_frame]:
  "ld_shared (fst (fst (initiate_noop_commit env d c))) = ld_shared d"
  "ld_shared (fst (fst (handle_join_cluster env jr ch d c))) = ld_shared d"
  "ld_shared (fst (fst (handle_stale_learner env k d c))) = ld_shared d"
  "ld_shared (refresh_stale_deadline th d) = ld_shared d"
  by (simp_all add: initiate_noop_commit_def handle_join_cluster_def send_join_error_def
      handle_stale_learner_def refresh_stale_deadline_def Let_def case_prod_beta shared_frame split: sum.split)

lemma shared_promotions [shared_frame]:
  "ld_shared (fst (fst (check_learner_progress env lp d c))) = ld_shared d"
  "ld_shared (fst (fst (handle_promote_ready_learners env d c))) = ld_shared d"
  by (simp_all add: check_learner_progress_def should_check_learner_progress_def enqueue_and_notify_promotions_def
      handle_promote_ready_learners_def drain_batch_def safe_batch_promote_def Let_def case_prod_beta shared_frame
      split: sum.split)

lemma shared_stale [shared_frame]:
  "ld_shared (fst (fst (handle_stale_learners env ns d c))) = ld_shared d"
  by (induction ns arbitrary: d c) (simp_all add: case_prod_beta shared_frame)

lemma shared_stale_front [shared_frame]:
  "ld_shared (fst (fst (check_and_purge_stale_front env d c))) = ld_shared d"
  by (simp add: check_and_purge_stale_front_def Let_def shared_frame)

lemma shared_expire [shared_frame]: "ld_shared (fst (expire_all env d c)) = ld_shared d"
  by (simp add: expire_all_def expire_writes_def expire_reads_def expire_lease_reads_def
      expire_commit_actions_def Let_def case_prod_beta)

lemma shared_membership [shared_frame]:
  "ld_shared (leader_handle_membership_applied d c) = ld_shared d"
  "ld_shared (leader_handle_log_purge_completed i d) = ld_shared d"
  "ld_shared (fst (fst (leader_handle_snapshot_created env r d c))) = ld_shared d"
  "ld_shared (fst (fst (leader_handle_create_snapshot d c))) = ld_shared d"
  "ld_shared (fst (fst (handle_self_removed env d c))) = ld_shared d"
  by (simp_all add: leader_handle_membership_applied_def leader_handle_log_purge_completed_def
      leader_handle_snapshot_created_def leader_handle_create_snapshot_def handle_self_removed_def
      Let_def case_prod_beta shared_frame split: sum.split option.split prod.split)

lemma shared_push [shared_frame]: "ld_shared (fst (leader_push_client_cmd env cmd d c)) = ld_shared d"
  by (simp add: leader_push_client_cmd_def Let_def split: client_cmd.split option.split read_policy.split)

lemma shared_applied [shared_frame]:
  "ld_shared (fst (answer_applied env rs d c)) = ld_shared d"
  "ld_shared (fst (fst (leader_handle_apply_completed env i rs d c))) = ld_shared d"
proof -
  show "ld_shared (fst (answer_applied env rs d c)) = ld_shared d" for rs d c
    by (induction env rs d c rule: answer_applied.induct) (simp_all split: option.split)
  then show "ld_shared (fst (fst (leader_handle_apply_completed env i rs d c))) = ld_shared d"
    by (simp add: leader_handle_apply_completed_def case_prod_beta shared_frame)
qed

section \<open>The hard state\<close>

named_theorems hard_state_frame "operations that leave the leader's hard state alone"

lemmas [hard_state_frame] = shared_frame

lemma hs_lease [hard_state_frame]:
  "ld_hs (fst (update_lease_timestamp ts dur d)) = ld_hs d"
  "ld_hs (ld_revoke d) = ld_hs d"
  by (simp_all add: update_lease_timestamp_def ld_revoke_def revoke_lease_def Let_def split: sum.split)

lemma hs_commit_index [hard_state_frame]:
  "ld_hs (leader_update_commit_index n d) = ld_hs d"
  "ld_hs (fst (fst (leader_update_commit_index_with_signal env n d c))) = ld_hs d"
  by (simp_all add: leader_update_commit_index_def leader_update_commit_index_with_signal_def Let_def case_prod_beta)

lemma hs_log_flushed [hard_state_frame]: "ld_hs (fst (fst (handle_log_flushed env d c))) = ld_hs d"
  by (simp add: handle_log_flushed_def Let_def case_prod_beta hard_state_frame split: option.split sum.split)

lemma hs_acknowledged [hard_state_frame]:
  "ld_hs (fst (fst (advance_commit env d c))) = ld_hs d"
  "ld_hs (fst (fst (refresh_lease_and_serve env d c))) = ld_hs d"
  by (simp_all add: advance_commit_def refresh_lease_and_serve_def Let_def case_prod_beta hard_state_frame
      split: option.split sum.split)

lemma hs_peer_update [hard_state_frame]:
  "ld_hs (fst (fst (voter_acknowledged env d c))) = ld_hs d"
  "ld_hs (fst (fst (peer_update_applied env k v u d c))) = ld_hs d"
  by (simp_all add: voter_acknowledged_def peer_update_applied_def Let_def case_prod_beta hard_state_frame
      split: sum.split)

lemma hs_tick [hard_state_frame]:
  "ld_hs (fst (fst (leader_heartbeat env d c))) = ld_hs d"
  "ld_hs (fst (fst (leader_tick env d c))) = ld_hs d"
  by (simp_all add: leader_heartbeat_def leader_tick_def Let_def case_prod_beta hard_state_frame
      split: sum.split option.split)

lemma hs_lease_read [hard_state_frame]: "ld_hs (fst (fst (process_lease_read env rq ch d c))) = ld_hs d"
  by (simp add: process_lease_read_def case_prod_beta hard_state_frame split: sum.split)

lemma hs_lease_reads [hard_state_frame]: "ld_hs (fst (fst (process_lease_reads env rs d c))) = ld_hs d"
  by (induction rs arbitrary: d c) (auto simp: case_prod_beta hard_state_frame)

lemma hs_flush [hard_state_frame]: "ld_hs (fst (fst (flush_cmd_buffers env d c))) = ld_hs d"
  by (simp add: flush_cmd_buffers_def Let_def case_prod_beta hard_state_frame split: sum.split option.split)

text \<open>The leader adopts a higher term before it asks to step down.\<close>

lemma leader_step_down_hs:
  "ld_hs (fst (fst (leader_step_down env t d c))) = (ld_hs d)\<lparr>hs_current_term := t\<rparr>"
proof -
  obtain s1 c1 x where commit: "commit_hard_state (le_role env) (Some t) None (ld_shared d) c = ((s1, c1), x)"
    by (metis prod.collapse)
  have "ss_hard_state s1 = (ld_hs d)\<lparr>hs_current_term := t\<rparr>"
    using commit_hard_state_hs(1) [OF commit] by (simp add: ss_voted_for_def)
  then show ?thesis
    using commit
    by (cases x) (simp_all add: leader_step_down_def case_prod_beta hard_state_frame split: sum.split)
qed

lemma append_result_voter_step:
  "voter_step (ld_hs d) Idle (ld_hs (fst (fst (handle_append_result env k r d c))))"
  by (auto simp: handle_append_result_def Let_def hard_state_frame leader_step_down_hs ld_term_def ss_term_def
      split: sum.split option.split ae_result.split intro: voter_step.keep voter_step.raise)

lemma leader_vote_voter_step:
  "voter_step (ld_hs d) Idle (ld_hs (fst (fst (leader_vote_request env q ch d c))))"
proof (cases "ld_term d < vq_term q")
  case True
  obtain s1 c1 x where commit: "commit_hard_state (le_role env) (Some (vq_term q)) None (ld_shared d) c = ((s1, c1), x)"
    by (metis prod.collapse)
  have "ss_hard_state s1 = (ld_hs d)\<lparr>hs_current_term := vq_term q\<rparr>"
    using commit_hard_state_hs(1) [OF commit] by (simp add: ss_voted_for_def)
  then have "ld_hs (fst (fst (leader_vote_request env q ch d c))) = (ld_hs d)\<lparr>hs_current_term := vq_term q\<rparr>"
    using commit True
    by (cases x) (simp_all add: leader_vote_request_def step_down_and_replay_def case_prod_beta hard_state_frame
        split: sum.split)
  then show ?thesis
    using True by (simp add: ld_term_def ss_term_def voter_step.raise)
next
  case False
  then show ?thesis
    by (simp add: leader_vote_request_def leader_reply_then_def case_prod_beta voter_step.keep split: sum.split)
qed

lemma leader_inbound_voter_step:
  "voter_step (ld_hs d) Idle (ld_hs (fst (fst (leader_handle_inbound_event env ev d c))))"
proof (cases ev)
  case (ReceiveVoteRequest q ch)
  then show ?thesis
    by (simp add: leader_handle_inbound_event_def leader_vote_voter_step)
qed (simp_all add: leader_handle_inbound_event_def step_down_and_replay_def leader_reply_then_def leader_fatal_def
       Let_def case_prod_beta hard_state_frame voter_step.keep split: sum.split option.split)

end
