(* ===== verification/Vote_Durability.thy ===== *)
theory Vote_Durability
  imports Voter
begin

text \<open>
  Term and vote reach the disk before a role answers: every handler of an inbound event that
  sends an answer leaves on disk the hard state it holds in memory.
\<close>

abbreviation durable :: "base_role \<Rightarrow> raft_context \<Rightarrow> bool" where
  "durable r c \<equiv> cx_disk c = Some (hs_of r)"

named_theorems disk_simps

lemma send_event_disk [disk_simps]:
  "cx_disk (fst (send_event env ev c)) = cx_disk c" "cx_sent (fst (send_event env ev c)) = cx_sent c"
  by (simp_all add: send_event_def)

lemma send_event_disk_eq:
  "send_event env ev c = (c', x) \<Longrightarrow> cx_disk c' = cx_disk c \<and> cx_sent c' = cx_sent c"
  by (auto simp: send_event_def split: if_splits)

lemma send_reply_disk [disk_simps]: "cx_disk (fst (send_reply env ch a c)) = cx_disk c"
  by (simp add: send_reply_def)

lemma send_reply_disk_eq: "send_reply env ch a c = (c', x) \<Longrightarrow> cx_disk c' = cx_disk c"
  by (auto simp: send_reply_def split: if_splits)

lemma send_reply_quiet_disk [disk_simps]: "cx_disk (send_reply_quiet env a ch c) = cx_disk c"
  by (simp add: send_reply_quiet_def disk_simps)

lemma send_all_disk [disk_simps]: "cx_disk (send_all env a chs c) = cx_disk c"
  by (induction chs arbitrary: c) (simp_all add: disk_simps)

lemma reply_then_disk_eq: "reply_then env ch a res r c = ((r', c'), x) \<Longrightarrow> r' = r \<and> cx_disk c' = cx_disk c"
  by (auto simp: reply_then_def split: prod.splits sum.splits dest!: send_reply_disk_eq)

lemma conf_update_disk_eq: "conf_update_event req r c = (c', res) \<Longrightarrow> cx_disk c' = cx_disk c"
  by (auto simp: conf_update_event_def Let_def split: prod.splits sum.splits)

lemma commit_index_signal_disk_eq:
  "update_commit_index_with_signal env role t i s c = ((s', c'), res)
   \<Longrightarrow> cx_disk c' = cx_disk c \<and> cx_sent c' = cx_sent c"
  by (auto simp: update_commit_index_with_signal_def split: prod.splits dest!: send_event_disk_eq)

lemma append_accepted_disk_eq:
  assumes "append_entries_accepted env req chs st i r c = ((r', c'), res)"
  shows "cx_disk c' = cx_disk c"
proof (cases "handle_append_entries (ss_node_id (ro_shared r)) req st (cx_log c) (en_io env)")
  case (Pair l x)
  show ?thesis
  proof (cases x)
    case (Inl e)
    then show ?thesis
      using assms Pair by (cases e) (auto simp: append_entries_accepted_def Let_def disk_simps)
  next
    case (Inr u)
    then show ?thesis
      using assms Pair
      by (cases "au_commit_index_update u")
        (auto simp: append_entries_accepted_def Let_def disk_simps split: prod.splits sum.splits
           dest!: commit_index_signal_disk_eq)
  qed
qed

lemma pending_purge_disk [disk_simps]: "cx_disk (execute_pending_purge env p c) = cx_disk c"
  by (auto simp: execute_pending_purge_def execute_purge_def disk_simps split: option.split prod.splits sum.split)

lemma snapshot_installed_disk_eq:
  assumes "snapshot_installed env ir ch role t r c = ((r', c'), res)"
  shows "cx_disk c' = cx_disk c"
  using assms
  by (auto simp: snapshot_installed_def Let_def schedule_installed_snapshot_purge_def
      update_commit_index_with_signal_def disk_simps
      split: sum.splits prod.splits option.splits snapshot_apply_result.splits if_splits
      dest!: send_event_disk_eq)

lemma append_accepted_keeps:
  "append_entries_accepted env req chs st i r c = ((r', c'), res) \<Longrightarrow> hs_of r' = hs_of r \<and> cx_disk c' = cx_disk c"
  using append_accepted_hs append_accepted_disk_eq by blast

lemma snapshot_installed_keeps:
  "snapshot_installed env ir ch role t r c = ((r', c'), res) \<Longrightarrow> hs_of r' = hs_of r \<and> cx_disk c' = cx_disk c"
  using snapshot_installed_hs snapshot_installed_disk_eq by blast

text \<open>An answer implies durability; the hypothesis is that the state was durable before.\<close>

definition answered_durably :: "raft_context \<Rightarrow> base_role \<Rightarrow> raft_context \<Rightarrow> bool" where
  "answered_durably c r' c' = (cx_sent c' \<noteq> cx_sent c \<longrightarrow> durable r' c')"

lemma append_workflow_durable:
  assumes "handle_append_entries_request_workflow env req chs st r c = ((r', c'), res)" and "durable r c"
  shows "answered_durably c r' c'"
  using assms
  by (auto simp: handle_append_entries_request_workflow_def Let_def ro_term_def answered_durably_def disk_simps
        split: sum.splits prod.splits if_splits
        dest!: append_accepted_keeps send_event_disk_eq
        dest: commit_hard_state_ok_ctx(2) commit_hard_state_events(2))

lemma install_workflow_durable:
  assumes "handle_install_snapshot_chunk_workflow env fc prep ir ch st r c = ((r', c'), res)" and "durable r c"
  shows "answered_durably c r' c'"
  using assms
  by (auto simp: handle_install_snapshot_chunk_workflow_def Let_def ro_term_def answered_durably_def disk_simps
        split: sum.splits prod.splits if_splits option.splits
        dest!: snapshot_installed_keeps
        dest: commit_hard_state_ok_ctx(2) commit_hard_state_events(2))

lemma follower_vote_durable:
  assumes "follower_vote_request env q ch r c = ((r', c'), res)" and "durable r c"
  shows "answered_durably c r' c'"
  using assms
  by (auto simp: follower_vote_request_def Let_def answered_durably_def
        split: sum.splits prod.splits if_splits dest!: send_reply_disk_eq
        dest: commit_hard_state_ok_ctx(2) commit_hard_state_events(2))

lemma candidate_vote_durable:
  assumes "candidate_vote_request env q ch r c = ((r', c'), res)" and "durable r c"
  shows "answered_durably c r' c'"
  using assms
  by (auto simp: candidate_vote_request_def Let_def answered_durably_def disk_simps
        split: sum.splits prod.splits if_splits dest!: send_event_disk_eq
        dest: commit_hard_state_ok_ctx(2) commit_hard_state_events(2))

lemma learner_vote_durable:
  assumes "learner_vote_request env q ch r c = ((r', c'), res)" and "durable r c"
  shows "answered_durably c r' c'"
  using assms
  by (auto simp: learner_vote_request_def Let_def answered_durably_def
        split: sum.splits prod.splits if_splits dest!: send_reply_disk_eq
        dest: commit_hard_state_ok_ctx(2) commit_hard_state_events(2))

lemma follower_inbound_durable:
  assumes "follower_handle_inbound_event env snap ev r c = ((r', c'), res)" and "durable r c"
  shows "answered_durably c r' c'"
  using assms
  by (cases ev)
    (auto simp: follower_handle_inbound_event_def answered_durably_def split: prod.splits
      dest!: reply_then_disk_eq conf_update_disk_eq
      dest: follower_vote_durable [unfolded answered_durably_def]
        append_workflow_durable [unfolded answered_durably_def]
        install_workflow_durable [unfolded answered_durably_def])

lemma learner_inbound_durable:
  assumes "learner_handle_inbound_event env snap ev r c = ((r', c'), res)" and "durable r c"
  shows "answered_durably c r' c'"
  using assms
  by (cases ev)
    (auto simp: learner_handle_inbound_event_def answered_durably_def split: prod.splits
      dest!: reply_then_disk_eq conf_update_disk_eq
      dest: learner_vote_durable [unfolded answered_durably_def]
        append_workflow_durable [unfolded answered_durably_def]
        install_workflow_durable [unfolded answered_durably_def])

lemma candidate_inbound_durable:
  assumes "candidate_handle_inbound_event env ev r c = ((r', c'), res)" and "durable r c"
  shows "answered_durably c r' c'"
proof (cases ev)
  case (AppendEntries req chs)
  then show ?thesis
    using assms
    by (auto simp: candidate_handle_inbound_event_def Let_def answered_durably_def disk_simps
        split: prod.splits sum.splits if_splits dest!: send_event_disk_eq
        dest: commit_hard_state_ok_ctx(2) commit_hard_state_events(2))
qed (use assms in \<open>auto simp: candidate_handle_inbound_event_def answered_durably_def disk_simps
       split: prod.splits dest!: reply_then_disk_eq conf_update_disk_eq
       dest: candidate_vote_durable [unfolded answered_durably_def]\<close>)

section \<open>A save that fails\<close>

lemma same_vote_granted_again:
  assumes "hs_current_term (hs_of r) = vq_term q" and "hs_voted_for (hs_of r) = Some (own_vote (vq_candidate_id q) (vq_term q))"
    and "is_target_log_more_recent (lid_index (lid_or_zero (last_log_id (cx_log c))))
           (lid_term (lid_or_zero (last_log_id (cx_log c)))) (vq_last_log_index q) (vq_last_log_term q)"
    and "en_listening env ch"
  shows "\<exists>r' a. follower_vote_request env q ch r c
     = ((r', c\<lparr>cx_sent := cx_sent c @ [(ch, VoteReply a)]\<rparr>), Inr ()) \<and> vr_granted a"
  using assms
  by (auto simp: follower_vote_request_def Let_def handle_vote_request_def ro_term_def ss_term_def ss_voted_for_def
      own_vote_def commit_hard_state_def set_hard_state_def vote_response_of_def send_reply_def)

lemma failed_save_keeps_vote:
  assumes "is_target_log_more_recent (lid_index (lid_or_zero (last_log_id (cx_log c))))
           (lid_term (lid_or_zero (last_log_id (cx_log c)))) (vq_last_log_index q) (vq_last_log_term q)"
    and "ro_term r < vq_term q" and "en_save env = (\<lambda>_. Inl e)" and "\<not> rl_poisoned (cx_log c)"
  shows "\<exists>r' c'. follower_vote_request env q ch r c = ((r', c'), Inl e)
     \<and> hs_of r' = \<lparr>hs_current_term = vq_term q, hs_voted_for = Some (own_vote (vq_candidate_id q) (vq_term q))\<rparr>
     \<and> cx_disk c' = cx_disk c \<and> cx_sent c' = cx_sent c \<and> last_log_id (cx_log c') = last_log_id (cx_log c)"
  using assms
  by (auto simp: follower_vote_request_def Let_def handle_vote_request_def own_vote_def
      commit_hard_state_def set_hard_state_def persist_hard_state_def save_hard_state_def ro_term_def ss_term_def
      mark_poisoned_and_notify_def notify_fatal_def last_log_id_def last_entry_id_def entry_def)

end
