(* ===== verification/Election_Safety.thy ===== *)
theory Election_Safety
  imports Leader_Frame Vote_Durability
begin

text \<open>
  A cluster of nodes that run the Raft loop's handlers, and election safety: two candidates
  that win an election of the same term are the same node.  The abstract relation keeps, per
  node, the hard state, and as history the votes given, the first vote given per term and the
  elections won; the handlers refine it.
\<close>

abbreviation role_hs :: "raft_role \<Rightarrow> hard_state" where
  "role_hs r \<equiv> ss_hard_state (role_shared r)"

section \<open>The abstract election\<close>

record election =
  el_hs :: "node_id \<Rightarrow> hard_state"
  el_granted :: "(node_id \<times> u64 \<times> node_id) set"
  el_first :: "node_id \<Rightarrow> u64 \<Rightarrow> node_id option"
  el_elected :: "(node_id \<times> u64) set"

definition first_vote :: "node_id \<Rightarrow> u64 \<Rightarrow> node_id \<Rightarrow> (node_id \<Rightarrow> u64 \<Rightarrow> node_id option) \<Rightarrow> node_id \<Rightarrow> u64 \<Rightarrow> node_id option" where
  "first_vote n t cand f =
     (if f n t = None then f(n := (f n)(t := Some cand)) else f)"

text \<open>A leader was elected in the term for whom the node's first vote was not cast.\<close>

definition outvoted :: "election \<Rightarrow> node_id \<Rightarrow> u64 \<Rightarrow> bool" where
  "outvoted s n t = (\<exists>l. (l, t) \<in> el_elected s \<and> el_first s n t \<noteq> Some l)"

text \<open>A node forgets its vote when it gave none in the term or was outvoted.\<close>

definition may_forget :: "election \<Rightarrow> node_id \<Rightarrow> u64 \<Rightarrow> bool" where
  "may_forget s n t = ((\<forall>cand. (n, t, cand) \<notin> el_granted s) \<or> outvoted s n t)"

inductive election_step :: "node_id set \<Rightarrow> election \<Rightarrow> election \<Rightarrow> bool" for vs where
  idle: "voter_step (el_hs s n) Idle h \<Longrightarrow> election_step vs s (s\<lparr>el_hs := (el_hs s)(n := h)\<rparr>)"
| vote: "voter_step (el_hs s n) (GrantTo cand t) h \<Longrightarrow>
         election_step vs s (s\<lparr>el_hs := (el_hs s)(n := h),
                                     el_granted := insert (n, t, cand) (el_granted s),
                                     el_first := first_vote n t cand (el_first s)\<rparr>)"
| hear: "voter_step (el_hs s n) (ContactBy l t) h \<Longrightarrow> (l, t) \<in> el_elected s \<Longrightarrow>
         election_step vs s (s\<lparr>el_hs := (el_hs s)(n := h)\<rparr>)"
| forget: "may_forget s n (hs_current_term (el_hs s n)) \<Longrightarrow>
           election_step vs s (s\<lparr>el_hs := (el_hs s)(n := (el_hs s n)\<lparr>hs_voted_for := None\<rparr>)\<rparr>)"
| win: "majority_of vs q \<Longrightarrow> \<forall>v \<in> q. (v, t, cand) \<in> el_granted s \<Longrightarrow>
        election_step vs s (s\<lparr>el_elected := insert (cand, t) (el_elected s)\<rparr>)"

definition no_early_votes :: "election \<Rightarrow> bool" where
  "no_early_votes s =
     (\<forall>n t cand. hs_current_term (el_hs s n) < t \<longrightarrow> (n, t, cand) \<notin> el_granted s \<and> el_first s n t = None)"

definition vote_recorded :: "election \<Rightarrow> bool" where
  "vote_recorded s =
     (\<forall>n x. el_first s n (hs_current_term (el_hs s n)) = Some x \<longrightarrow>
        outvoted s n (hs_current_term (el_hs s n))
        \<or> (\<exists>w. hs_voted_for (el_hs s n) = Some w \<and> vf_term w = hs_current_term (el_hs s n)
             \<and> (vf_id w = x \<or> (vf_id w, hs_current_term (el_hs s n)) \<in> el_elected s)))"

definition votes_first :: "election \<Rightarrow> bool" where
  "votes_first s =
     (\<forall>n t cand. (n, t, cand) \<in> el_granted s \<longrightarrow>
        (\<exists>x. el_first s n t = Some x \<and> (x = cand \<or> (cand, t) \<in> el_elected s \<or> outvoted s n t)))"

definition firsts_granted :: "election \<Rightarrow> bool" where
  "firsts_granted s = (\<forall>n t x. el_first s n t = Some x \<longrightarrow> (n, t, x) \<in> el_granted s)"

definition winners_backed :: "node_id set \<Rightarrow> election \<Rightarrow> bool" where
  "winners_backed vs s =
     (\<forall>cand t. (cand, t) \<in> el_elected s \<longrightarrow>
        majority_of vs {v \<in> vs. el_first s v t = Some cand})"

definition election_inv :: "node_id set \<Rightarrow> election \<Rightarrow> bool" where
  "election_inv vs s =
     (no_early_votes s \<and> vote_recorded s \<and> votes_first s \<and> firsts_granted s \<and> winners_backed vs s)"

lemma first_vote_mono: "f v t = Some x \<Longrightarrow> first_vote n u cand f v t = Some x"
  by (auto simp: first_vote_def)

lemma first_vote_other: "v \<noteq> n \<or> t \<noteq> u \<Longrightarrow> first_vote n u cand f v t = f v t"
  by (auto simp: first_vote_def)

lemma outvoted_cong: "el_elected s' = el_elected s \<Longrightarrow> el_first s' n t = el_first s n t \<Longrightarrow> outvoted s' n t = outvoted s n t"
  by (simp add: outvoted_def)

lemma outvoted_hs [simp]: "outvoted (s\<lparr>el_hs := hs\<rparr>) n t = outvoted s n t"
  by (simp add: outvoted_def)

lemma outvoted_win: "outvoted s n t \<Longrightarrow> outvoted (s\<lparr>el_elected := insert w (el_elected s)\<rparr>) n t"
  by (auto simp: outvoted_def)

text \<open>Two majorities of first votes share a node, which gave its first vote to both.\<close>

lemma winners_unique:
  assumes "winners_backed vs s" and "(a, t) \<in> el_elected s" and "(b, t) \<in> el_elected s"
  shows "a = b"
proof -
  have "majority_of vs {v \<in> vs. el_first s v t = Some a}" "majority_of vs {v \<in> vs. el_first s v t = Some b}"
    using assms by (simp_all add: winners_backed_def)
  from maj.quorum_inter [OF this] show ?thesis
    by auto
qed

lemma not_outvoted:
  assumes "winners_backed vs s" and "(l, t) \<in> el_elected s" and "el_first s n t = Some l"
  shows "\<not> outvoted s n t"
  using winners_unique [OF assms(1)] assms(2,3) by (auto simp: outvoted_def)

lemma winners_backed_grow:
  assumes "winners_backed vs s" and "el_elected s' = el_elected s"
    and grow: "\<And>v t x. el_first s v t = Some x \<Longrightarrow> el_first s' v t = Some x"
  shows "winners_backed vs s'"
  unfolding winners_backed_def
proof (intro allI impI)
  fix cand t
  assume "(cand, t) \<in> el_elected s'"
  then have "majority_of vs {v \<in> vs. el_first s v t = Some cand}"
    using assms(1,2) by (simp add: winners_backed_def)
  then show "majority_of vs {v \<in> vs. el_first s' v t = Some cand}"
    by (rule maj.quorum_mono) (auto dest: grow)
qed

text \<open>A change of one node's hard state keeps the invariant if the first vote of its term is
  still the recorded one, or one that no longer matters.\<close>

abbreviation recorded :: "election \<Rightarrow> node_id \<Rightarrow> hard_state \<Rightarrow> node_id \<Rightarrow> bool" where
  "recorded s n h x \<equiv>
     outvoted s n (hs_current_term h)
     \<or> (\<exists>w. hs_voted_for h = Some w \<and> vf_term w = hs_current_term h
            \<and> (vf_id w = x \<or> (vf_id w, hs_current_term h) \<in> el_elected s))"

lemma vote_recordedD:
  "election_inv vs s \<Longrightarrow> el_first s n (hs_current_term (el_hs s n)) = Some x \<Longrightarrow> recorded s n (el_hs s n) x"
  unfolding election_inv_def vote_recorded_def by blast

lemma hs_kept_inv:
  assumes inv: "election_inv vs s" and le: "hs_current_term (el_hs s n) \<le> hs_current_term h"
    and rec: "\<And>x. hs_current_term (el_hs s n) = hs_current_term h \<Longrightarrow> el_first s n (hs_current_term h) = Some x
       \<Longrightarrow> recorded s n h x"
  shows "election_inv vs (s\<lparr>el_hs := (el_hs s)(n := h)\<rparr>)"
proof -
  let ?s = "s\<lparr>el_hs := (el_hs s)(n := h)\<rparr>"
  have "no_early_votes ?s"
    using inv le by (auto simp: election_inv_def no_early_votes_def)
  moreover have "vote_recorded ?s"
    unfolding vote_recorded_def
  proof (intro allI impI)
    fix m x
    assume f: "el_first ?s m (hs_current_term (el_hs ?s m)) = Some x"
    have "recorded s m (el_hs ?s m) x"
    proof (cases "m = n")
      case True
      have "\<not> hs_current_term (el_hs s n) < hs_current_term h"
        using f True inv by (auto simp: election_inv_def no_early_votes_def)
      then show ?thesis
        using f True le rec [of x] by simp
    next
      case False
      then show ?thesis
        using f vote_recordedD [OF inv, of m x] by simp
    qed
    then show "outvoted ?s m (hs_current_term (el_hs ?s m))
      \<or> (\<exists>w. hs_voted_for (el_hs ?s m) = Some w \<and> vf_term w = hs_current_term (el_hs ?s m)
        \<and> (vf_id w = x \<or> (vf_id w, hs_current_term (el_hs ?s m)) \<in> el_elected ?s))"
      by simp
  qed
  ultimately show ?thesis
    using inv by (simp add: election_inv_def votes_first_def firsts_granted_def winners_backed_def)
qed

lemma idle_inv:
  assumes inv: "election_inv vs s" and step: "voter_step (el_hs s n) Idle h"
  shows "election_inv vs (s\<lparr>el_hs := (el_hs s)(n := h)\<rparr>)"
proof (rule hs_kept_inv [OF inv voter_term_mono [OF step]])
  fix x
  assume x: "hs_current_term (el_hs s n) = hs_current_term h" "el_first s n (hs_current_term h) = Some x"
  have "h = el_hs s n \<or> hs_current_term (el_hs s n) < hs_current_term h"
    using step by (rule voter_idleE) simp_all
  then have "h = el_hs s n"
    using x(1) by simp
  then show "recorded s n h x"
    using vote_recordedD [OF inv] x(2) by simp
qed

lemma hear_inv:
  assumes inv: "election_inv vs s" and step: "voter_step (el_hs s n) (ContactBy l t) h"
    and "(l, t) \<in> el_elected s"
  shows "election_inv vs (s\<lparr>el_hs := (el_hs s)(n := h)\<rparr>)"
proof (rule hs_kept_inv [OF inv voter_term_mono [OF step]])
  have "h = \<lparr>hs_current_term = t, hs_voted_for = Some (leader_vote l t)\<rparr>"
    using step by (rule voter_contactE)
  then show "recorded s n h x" for x
    using assms(3) by (simp add: leader_vote_def)
qed

lemma forget_inv:
  assumes inv: "election_inv vs s" and may: "may_forget s n (hs_current_term (el_hs s n))"
  shows "election_inv vs (s\<lparr>el_hs := (el_hs s)(n := (el_hs s n)\<lparr>hs_voted_for := None\<rparr>)\<rparr>)"
proof (rule hs_kept_inv [OF inv])
  fix x
  assume "el_first s n (hs_current_term ((el_hs s n)\<lparr>hs_voted_for := None\<rparr>)) = Some x"
  then have "(n, hs_current_term (el_hs s n), x) \<in> el_granted s"
    using inv by (simp add: election_inv_def firsts_granted_def)
  then show "recorded s n ((el_hs s n)\<lparr>hs_voted_for := None\<rparr>) x"
    using may by (auto simp: may_forget_def)
qed simp

section \<open>A vote keeps the invariant\<close>

abbreviation voted :: "node_id \<Rightarrow> node_id \<Rightarrow> u64 \<Rightarrow> election \<Rightarrow> election" where
  "voted n cand t s \<equiv>
     s\<lparr>el_hs := (el_hs s)(n := \<lparr>hs_current_term = t, hs_voted_for = Some (own_vote cand t)\<rparr>),
       el_granted := insert (n, t, cand) (el_granted s), el_first := first_vote n t cand (el_first s)\<rparr>"

lemma can_grant_le: "can_grant h cand t \<Longrightarrow> hs_current_term h \<le> t"
  by (auto simp: can_grant_def)

lemma outvoted_voted:
  assumes "outvoted s m u" and "el_first s m u = Some x"
  shows "outvoted (voted n cand t s) m u"
proof -
  have "el_first (voted n cand t s) m u = el_first s m u"
    using assms(2) first_vote_mono [of "el_first s" m u x] by simp
  then show ?thesis
    using assms(1) outvoted_cong [of "voted n cand t s" s m u] by simp
qed

lemma voted_first:
  assumes inv: "election_inv vs s" and g: "can_grant (el_hs s n) cand t"
  shows "\<exists>x. first_vote n t cand (el_first s) n t = Some x
           \<and> (x = cand \<or> (cand, t) \<in> el_elected s \<or> outvoted (voted n cand t s) n t)"
proof (cases "el_first s n t")
  case None
  then show ?thesis by (simp add: first_vote_def)
next
  case (Some x)
  then have eq: "hs_current_term (el_hs s n) = t"
    using inv can_grant_le [OF g] by (auto simp: election_inv_def no_early_votes_def le_less)
  have f: "first_vote n t cand (el_first s) n t = Some x"
    by (rule first_vote_mono [of "el_first s", OF Some])
  have "recorded s n (el_hs s n) x"
    using vote_recordedD [OF inv, of n x] Some eq by simp
  then show ?thesis
    using f eq g outvoted_voted [OF _ Some] by (auto simp: can_grant_def)
qed

lemma voted_no_early:
  assumes inv: "election_inv vs s" and g: "can_grant (el_hs s n) cand t"
  shows "no_early_votes (voted n cand t s)"
  unfolding no_early_votes_def
proof (intro allI impI)
  fix m u x
  assume "hs_current_term (el_hs (voted n cand t s) m) < u"
  then have lt: "hs_current_term (el_hs s m) < u" and ne: "m \<noteq> n \<or> u \<noteq> t"
    using can_grant_le [OF g] by (auto split: if_splits)
  then have "(m, u, x) \<notin> el_granted s" "el_first s m u = None"
    using inv by (simp_all add: election_inv_def no_early_votes_def)
  then show "(m, u, x) \<notin> el_granted (voted n cand t s) \<and> el_first (voted n cand t s) m u = None"
    using ne by (auto simp: first_vote_other)
qed

lemma voted_recorded:
  assumes inv: "election_inv vs s" and g: "can_grant (el_hs s n) cand t"
  shows "vote_recorded (voted n cand t s)"
  unfolding vote_recorded_def
proof (intro allI impI)
  fix m x
  let ?s = "voted n cand t s"
  assume f: "el_first ?s m (hs_current_term (el_hs ?s m)) = Some x"
  show "recorded ?s m (el_hs ?s m) x"
  proof (cases "m = n")
    case True
    then show ?thesis using f voted_first [OF inv g] by (auto simp: own_vote_def)
  next
    case False
    then have f': "el_first s m (hs_current_term (el_hs s m)) = Some x"
      using f by (simp add: first_vote_other)
    show ?thesis
      using vote_recordedD [OF inv f'] outvoted_voted [OF _ f', where n = n and cand = cand and t = t] False by auto
  qed
qed

lemma voted_votes_first:
  assumes inv: "election_inv vs s" and g: "can_grant (el_hs s n) cand t"
  shows "votes_first (voted n cand t s)"
  unfolding votes_first_def
proof (intro allI impI)
  fix m u x
  let ?s = "voted n cand t s"
  assume "(m, u, x) \<in> el_granted ?s"
  then consider "m = n" "u = t" "x = cand" | "(m, u, x) \<in> el_granted s" by auto
  then show "\<exists>y. el_first ?s m u = Some y \<and> (y = x \<or> (x, u) \<in> el_elected ?s \<or> outvoted ?s m u)"
  proof cases
    case 1
    then show ?thesis using voted_first [OF inv g] by simp
  next
    case 2
    then obtain y where y: "el_first s m u = Some y" "y = x \<or> (x, u) \<in> el_elected s \<or> outvoted s m u"
      using inv unfolding election_inv_def votes_first_def by blast
    moreover have "el_first ?s m u = Some y"
      using first_vote_mono [of "el_first s", OF y(1)] by simp
    ultimately show ?thesis
      using outvoted_voted [OF _ y(1), where n = n and cand = cand and t = t] by auto
  qed
qed

lemma voted_firsts_granted:
  assumes "firsts_granted s"
  shows "firsts_granted (voted n cand t s)"
  unfolding firsts_granted_def
proof (intro allI impI)
  fix m u x
  assume "el_first (voted n cand t s) m u = Some x"
  then have "el_first s m u = Some x \<or> m = n \<and> u = t \<and> x = cand"
    by (simp add: first_vote_def split: if_splits)
  then show "(m, u, x) \<in> el_granted (voted n cand t s)"
    using assms by (simp add: firsts_granted_def) blast
qed

lemma voted_winners_backed:
  assumes "winners_backed vs s"
  shows "winners_backed vs (voted n cand t s)"
proof (rule winners_backed_grow [OF assms])
  show "el_first (voted n cand t s) v u = Some x" if "el_first s v u = Some x" for v u x
    using first_vote_mono [of "el_first s", OF that] by simp
qed simp

lemma voted_inv:
  assumes "election_inv vs s" and "can_grant (el_hs s n) cand t"
  shows "election_inv vs (voted n cand t s)"
  unfolding election_inv_def
  using assms(1) voted_no_early [OF assms] voted_recorded [OF assms] voted_votes_first [OF assms]
    voted_firsts_granted voted_winners_backed
  by (meson election_inv_def)

lemma vote_step_inv:
  assumes inv: "election_inv vs s" and step: "voter_step (el_hs s n) (GrantTo cand t) h"
  shows "election_inv vs (s\<lparr>el_hs := (el_hs s)(n := h), el_granted := insert (n, t, cand) (el_granted s),
                            el_first := first_vote n t cand (el_first s)\<rparr>)"
  using step
proof (rule voter_grantE)
  assume "h = \<lparr>hs_current_term = t, hs_voted_for = Some (own_vote cand t)\<rparr>" and "can_grant (el_hs s n) cand t"
  then show ?thesis
    using voted_inv [OF inv] by simp
qed

section \<open>A won election keeps the invariant\<close>

text \<open>A majority of votes is a majority of first votes: a vote that is not the first one was
  given to a leader already elected, or by a node that leader outvoted.\<close>

lemma majority_first:
  assumes inv: "election_inv vs s" and q: "majority_of vs q" and votes: "\<forall>v \<in> q. (v, t, cand) \<in> el_granted s"
  shows "majority_of vs {v \<in> vs. el_first s v t = Some cand}"
proof (cases "\<exists>l. (l, t) \<in> el_elected s")
  case False
  then have "el_first s v t = Some cand" if "v \<in> q" for v
    using inv votes that unfolding election_inv_def votes_first_def outvoted_def by blast
  then show ?thesis
    using q maj.quorum_sub [OF q] by (auto intro: maj.quorum_mono)
next
  case True
  then obtain l where l: "(l, t) \<in> el_elected s" by blast
  have wb: "winners_backed vs s"
    using inv by (simp add: election_inv_def)
  then have ql: "majority_of vs {v \<in> vs. el_first s v t = Some l}"
    using l by (simp add: winners_backed_def)
  obtain v where v: "v \<in> q" "el_first s v t = Some l"
    using maj.quorum_inter [OF q ql] by auto
  then have "l = cand \<or> (cand, t) \<in> el_elected s \<or> outvoted s v t"
    using inv votes unfolding election_inv_def votes_first_def by force
  then have "l = cand"
    using winners_unique [OF wb l] not_outvoted [OF wb l v(2)] by blast
  then show ?thesis
    using ql by simp
qed

lemma win_inv:
  assumes inv: "election_inv vs s" and q: "majority_of vs q" and votes: "\<forall>v \<in> q. (v, t, cand) \<in> el_granted s"
  shows "election_inv vs (s\<lparr>el_elected := insert (cand, t) (el_elected s)\<rparr>)"
proof -
  let ?s = "s\<lparr>el_elected := insert (cand, t) (el_elected s)\<rparr>"
  have "winners_backed vs ?s"
    using inv majority_first [OF assms] by (auto simp: election_inv_def winners_backed_def)
  moreover have "no_early_votes ?s" "firsts_granted ?s"
    using inv by (simp_all add: election_inv_def no_early_votes_def firsts_granted_def)
  moreover have "vote_recorded ?s"
    unfolding vote_recorded_def
  proof (intro allI impI)
    fix n x
    assume "el_first ?s n (hs_current_term (el_hs ?s n)) = Some x"
    then have "recorded s n (el_hs s n) x"
      using vote_recordedD [OF inv] by simp
    then show "recorded ?s n (el_hs ?s n) x"
      using outvoted_win [of s n] by auto
  qed
  moreover have "votes_first ?s"
    unfolding votes_first_def
  proof (intro allI impI)
    fix n u x
    assume "(n, u, x) \<in> el_granted ?s"
    then have "\<exists>y. el_first s n u = Some y \<and> (y = x \<or> (x, u) \<in> el_elected s \<or> outvoted s n u)"
      using inv unfolding election_inv_def votes_first_def by simp
    then show "\<exists>y. el_first ?s n u = Some y \<and> (y = x \<or> (x, u) \<in> el_elected ?s \<or> outvoted ?s n u)"
      using outvoted_win [of s n] by auto
  qed
  ultimately show ?thesis
    by (simp add: election_inv_def)
qed

lemma election_step_inv:
  assumes "election_step vs s s'" and "election_inv vs s"
  shows "election_inv vs s'"
  using assms
proof (induction rule: election_step.induct)
  case (idle s n h)
  show ?case by (rule idle_inv [OF idle(2,1)])
next
  case (vote s n cand t h)
  show ?case by (rule vote_step_inv [OF vote(2,1)])
next
  case (hear s n l t h)
  show ?case by (rule hear_inv [OF hear(3,1,2)])
next
  case (forget s n)
  show ?case by (rule forget_inv [OF forget(2,1)])
next
  case (win q t cand s)
  show ?case by (rule win_inv [OF win(3,1,2)])
qed

lemma election_steps_inv: "(election_step vs)\<^sup>*\<^sup>* s s' \<Longrightarrow> election_inv vs s \<Longrightarrow> election_inv vs s'"
  by (induction rule: rtranclp_induct) (auto intro: election_step_inv)

end
