(* ===== verification/Loop_Examples.thy ===== *)
theory Loop_Examples
  imports Raft_Loop Log_Properties
begin

text \<open>
  Concrete nodes on which the theorems about the Raft loop are evaluated: three voters with
  identifiers 1 to 3, an environment in which every save, send and disk operation succeeds,
  and the log of three entries of term 1.
\<close>

definition ex_role_env :: role_env where
  "ex_role_env =
     \<lparr>en_save = (\<lambda>_. Inr ()), en_io = Inr (), en_events_open = True, en_listening = (\<lambda>_. True),
      en_now = 100, en_random = 50, en_retained_log_entries = 1, en_snapshot_enable = False,
      en_should_snapshot = (\<lambda>_. False), en_allow_client_override = True, en_default_policy = LinearizableRead\<rparr>"

definition ex_leader_env :: leader_env where
  "ex_leader_env =
     \<lparr>le_role = ex_role_env, le_now_ms = 100, le_clock_in_ms = 10, le_lease_duration_ms = 20,
      le_general_timeout_ms = 500, le_verify_timeout_ms = 500,
      le_backpressure = \<lparr>bp_max_pending_writes = 100, bp_max_pending_reads = 100\<rparr>,
      le_append_entries_max = 100, le_stale_learner_threshold = 1000, le_learner_check_throttle_ms = 10,
      le_learner_catchup_threshold = 1, le_backoff = \<lparr>bo_base_delay_ms = 10, bo_push_backoff_max_delay_ms = 100\<rparr>,
      le_last_applied = 0, le_read_sm = (\<lambda>_. Some []), le_scan = (\<lambda>_. Inr []),
      le_snapshot_metadata = None, le_latest_snapshot = None, le_worker_alive = (\<lambda>_. True)\<rparr>"

text \<open>The peers of the environment grant every vote.\<close>

definition ex_grant :: "node_id \<Rightarrow> vote_request \<Rightarrow> vote_response result" where
  "ex_grant p q = Inr \<lparr>vr_term = vq_term q, vr_granted = True, vr_last_log_index = 0, vr_last_log_term = 0\<rparr>"

definition ex_raft_env :: raft_env where
  "ex_raft_env =
     \<lparr>re_leader = ex_leader_env,
      re_snapshot = (\<lambda>_. \<lparr>si_first_chunk = None, si_prepared = Inr (), si_installed = Inr (IgnoredStale (mk_lid 0 0))\<rparr>),
      re_send = ex_grant, re_arrive = id, re_max_batch_size = 10, re_max_merge_entries = 100\<rparr>"

definition ex_voter :: "node_id \<Rightarrow> node_meta" where
  "ex_voter n = \<lparr>nm_id = n, nm_address = ''addr'', nm_role = NR_Follower, nm_status = NS_Active\<rparr>"

definition ex_membership :: "node_id \<Rightarrow> membership" where
  "ex_membership n = membership_new n (map ex_voter [1, 2, 3])"

definition ex_context :: "node_id \<Rightarrow> raft_context" where
  "ex_context n =
     \<lparr>cx_log = ex_log, cx_disk = Some \<lparr>hs_current_term = 1, hs_voted_for = None\<rparr>,
      cx_membership = ex_membership n, cx_events = [], cx_sent = [],
      cx_capture = False, cx_capture_tasks = 0\<rparr>"

definition ex_follower :: "node_id \<Rightarrow> base_role" where
  "ex_follower n = follower_new (ex_role_env\<lparr>en_now := 0\<rparr>) n (Some \<lparr>hs_current_term = 1, hs_voted_for = None\<rparr>) None"

definition ex_node :: "node_id \<Rightarrow> raft_role \<Rightarrow> raft" where
  "ex_node n r =
     \<lparr>rf_node_id = n, rf_role = r, rf_ctx = ex_context n, rf_inbound_channel = [], rf_command_channel = [],
      rf_buffered_inbound = [], rf_buffered_internal = [], rf_commit_notices = [], rf_leader_watch = None,
      rf_tick = 50\<rparr>"

definition ex_candidate :: "node_id \<Rightarrow> base_role" where
  "ex_candidate n = candidate_of_follower (ex_role_env\<lparr>en_now := 0\<rparr>) (ex_follower n)"

lemmas ex_env_defs = ex_raft_env_def ex_leader_env_def ex_role_env_def

lemmas ex_node_defs = ex_node_def ex_follower_def ex_candidate_def follower_new_def candidate_of_follower_def
  shared_new_def new_deadline_def ex_context_def

lemma ex_last_log: "last_log_id ex_log = Some (mk_lid 1 3)"
  by (simp add: last_log_id_def last_entry_id_def entry_def om_get_def ex_log_fields ex_log_entries ex_entries_def
      entry_lid_def)

lemma ex_members: "members (ex_membership n) = map ex_voter [1, 2, 3]"
  by (simp add: members_def ex_membership_def membership_new_def ex_voter_def om_put_def)

lemma ex_voters:
  "voters (ex_membership (Suc 0)) = map ex_voter [2, 3]"
  "is_single_node_cluster (ex_membership n) = False"
  by (simp_all add: voters_def ex_members)
    (simp_all add: ex_membership_def ex_voter_def membership_new_def is_single_node_cluster_def)

text \<open>A turn in which the election timer of a follower fires.\<close>

lemma ex_timeout_turn:
  "loop_turn ex_raft_env (ex_node 1 (Base (ex_follower 1))) =
     Some ((ex_node 1 (Base ((ex_follower 1)\<lparr>ro_deadline := Some 150\<rparr>)))
             \<lparr>rf_ctx := (ex_context 1)\<lparr>cx_events := [BecomeCandidate]\<rparr>, rf_tick := 150\<rparr>, Inr ())"
  by (simp add: loop_turn_def select_arm_def role_tick_def on_base_def follower_tick_def send_event_def
      set_role_ctx_def logged_def is_panic_def reset_timer_def reset_tick_def next_deadline_def ends_loop_def
      process_client_cmds_def role_flush_cmd_buffers_def process_inbound_events_def process_inbound_list.simps
      ex_env_defs ex_node_defs)

end
