(* ===== verification/Role_Wf.thy ===== *)
theory Role_Wf
  imports Leader_Frame Loop_Examples
begin

text \<open>
  Well-formedness of the role a node plays.  In the code a follower, a candidate, a learner
  and a leader are different types: a learner has no election timer and a candidate no purge
  watermark and no snapshot flag.  Every handler keeps the state of one of these types, and
  the identifier of the node.
\<close>

definition base_wf :: "node_id \<Rightarrow> base_role \<Rightarrow> bool" where
  "base_wf me r =
     (ss_node_id (ro_shared r) = me \<and> ro_kind r \<noteq> NR_Leader \<and> ro_kind r \<noteq> NR_Unspecified
      \<and> (ro_deadline r = None \<longleftrightarrow> ro_kind r = NR_Learner)
      \<and> (ro_pending_purge_upto r = None \<longleftrightarrow> ro_kind r = NR_Candidate)
      \<and> (ro_snapshot_in_progress r = None \<longleftrightarrow> ro_kind r = NR_Candidate))"

definition role_wf :: "node_id \<Rightarrow> raft_role \<Rightarrow> bool" where
  "role_wf me r = (case r of Base b \<Rightarrow> base_wf me b | Lead d \<Rightarrow> ss_node_id (ld_shared d) = me)"

section \<open>The roles without leadership\<close>

lemma base_wf_shared: "base_wf me r \<Longrightarrow> ss_node_id s = me \<Longrightarrow> base_wf me (r\<lparr>ro_shared := s\<rparr>)"
  by (simp add: base_wf_def)

lemma base_wf_reset [simp]: "base_wf me (reset_timer env r) = base_wf me r"
  by (auto simp: base_wf_def reset_timer_def split: option.split)

lemma base_wf_id: "base_wf me r \<Longrightarrow> ss_node_id (ro_shared r) = me"
  by (simp add: base_wf_def)

lemma base_wf_pending:
  "base_wf me r \<Longrightarrow> ro_pending_purge_upto r = Some x \<Longrightarrow> base_wf me (r\<lparr>ro_pending_purge_upto := Some y\<rparr>)"
  by (simp add: base_wf_def)

lemma commit_hard_state_id: "commit_hard_state env t v s c = ((s', c'), x) \<Longrightarrow> ss_node_id s' = ss_node_id s"
  by (rule commit_hard_state_hs(2))

lemma commit_index_signal_id:
  "update_commit_index_with_signal env role t i s c = ((s', c'), x) \<Longrightarrow> ss_node_id s' = ss_node_id s"
  by (auto simp: update_commit_index_with_signal_def update_commit_index_def split: prod.splits)

lemmas base_wf_intros = base_wf_shared base_wf_pending base_wf_id

lemma follower_vote_wf:
  assumes "follower_vote_request env q ch r c = ((r', c'), x)" and "base_wf me r"
  shows "base_wf me r'"
  using assms
  by (auto simp: follower_vote_request_def Let_def intro!: base_wf_shared
      split: prod.splits sum.splits if_splits dest!: commit_hard_state_id dest: base_wf_id)

lemma candidate_vote_wf:
  assumes "candidate_vote_request env q ch r c = ((r', c'), x)" and "base_wf me r"
  shows "base_wf me r'"
  using assms
  by (auto simp: candidate_vote_request_def Let_def intro!: base_wf_shared
      split: prod.splits sum.splits if_splits dest!: commit_hard_state_id dest: base_wf_id)

lemma learner_vote_wf:
  assumes "learner_vote_request env q ch r c = ((r', c'), x)" and "base_wf me r"
  shows "base_wf me r'"
  using assms
  by (auto simp: learner_vote_request_def Let_def intro!: base_wf_shared
      split: prod.splits sum.splits if_splits dest!: commit_hard_state_id dest: base_wf_id)

lemma append_accepted_wf:
  assumes "append_entries_accepted env req chs st i r c = ((r', c'), x)" and wf: "base_wf me r"
  shows "base_wf me r'"
proof (cases "handle_append_entries (ss_node_id (ro_shared r)) req st (cx_log c) (en_io env)")
  case (Pair l y)
  show ?thesis
  proof (cases y)
    case (Inl e)
    then show ?thesis
      using assms Pair by (cases e) (simp_all add: append_entries_accepted_def Let_def)
  next
    case (Inr u)
    then show ?thesis
      using assms Pair
      by (cases "au_commit_index_update u")
        (auto simp: append_entries_accepted_def Let_def base_wf_id [OF wf] intro!: base_wf_shared
          split: prod.splits sum.splits dest!: commit_index_signal_id)
  qed
qed

lemma append_workflow_wf:
  assumes "handle_append_entries_request_workflow env req chs st r c = ((r', c'), x)" and wf: "base_wf me r"
  shows "base_wf me r'"
proof -
  let ?d = "check_incoming_term (ro_term r) (ae_term req)"
  obtain s2 c2 y where commit: "commit_hard_state env (term_update_of ?d)
      (Some (leader_vote (ae_leader_id req) (ae_term req))) (ro_shared r) c = ((s2, c2), y)"
    by (metis prod.collapse)
  then have s2: "ss_node_id s2 = me"
    using commit_hard_state_id base_wf_id [OF wf] by metis
  have wf2: "base_wf me ((reset_timer env r)\<lparr>ro_shared := s2\<rparr>)"
    "base_wf me ((reset_timer env r)\<lparr>ro_shared := set_current_leader l s2\<rparr>)" for l
    using wf s2 by (simp_all add: base_wf_shared)
  show ?thesis
    using assms(1) commit wf wf2
    by (auto simp: handle_append_entries_request_workflow_def Let_def
        split: prod.splits sum.splits if_splits dest: append_accepted_wf)
qed

lemma snapshot_installed_wf:
  assumes "snapshot_installed env ir ch role t r c = ((r', c'), x)" and wf: "base_wf me r"
  shows "base_wf me r'"
  using assms
  by (auto simp: snapshot_installed_def Let_def schedule_installed_snapshot_purge_def base_wf_id [OF wf]
      update_commit_index_with_signal_def update_commit_index_def intro!: base_wf_shared base_wf_pending
      split: sum.splits prod.splits option.splits snapshot_apply_result.splits if_splits)

lemma install_workflow_wf:
  assumes "handle_install_snapshot_chunk_workflow env fc prep ir ch st r c = ((r', c'), x)" and wf: "base_wf me r"
  shows "base_wf me r'"
proof (cases fc)
  case None
  then show ?thesis
    using assms by (simp add: handle_install_snapshot_chunk_workflow_def Let_def)
next
  case (Some lt)
  obtain l t where lt: "lt = (l, t)" by fastforce
  obtain s2 c2 y where commit: "commit_hard_state env (term_update_of (check_incoming_term (ro_term r) t))
      (Some (leader_vote l t)) (ro_shared r) c = ((s2, c2), y)"
    by (metis prod.collapse)
  then have s2: "ss_node_id s2 = me"
    using commit_hard_state_id base_wf_id [OF wf] by metis
  have wf2: "base_wf me ((reset_timer env r)\<lparr>ro_shared := s2\<rparr>)"
    "base_wf me ((reset_timer env r)\<lparr>ro_shared := set_current_leader l s2\<rparr>)" for l
    using wf s2 by (simp_all add: base_wf_shared)
  show ?thesis
    using assms(1) commit wf wf2 Some lt
    by (auto simp: handle_install_snapshot_chunk_workflow_def Let_def
        split: prod.splits sum.splits if_splits dest: snapshot_installed_wf)
qed

lemma reply_then_wf: "reply_then env ch a res r c = ((r', c'), x) \<Longrightarrow> base_wf me r \<Longrightarrow> base_wf me r'"
  using reply_then_role by blast

lemma follower_inbound_wf:
  assumes "follower_handle_inbound_event env snap ev r c = ((r', c'), x)" and "base_wf me r"
  shows "base_wf me r'"
  using assms
  by (cases ev) (auto simp: follower_handle_inbound_event_def split: prod.splits
      dest: follower_vote_wf reply_then_wf append_workflow_wf install_workflow_wf)

lemma learner_inbound_wf:
  assumes "learner_handle_inbound_event env snap ev r c = ((r', c'), x)" and "base_wf me r"
  shows "base_wf me r'"
  using assms
  by (cases ev) (auto simp: learner_handle_inbound_event_def split: prod.splits
      dest: learner_vote_wf reply_then_wf append_workflow_wf install_workflow_wf)

lemma candidate_append_wf:
  assumes "candidate_handle_inbound_event env (AppendEntries req chs) r c = ((r', c'), x)" and wf: "base_wf me r"
  shows "base_wf me r'"
  using assms
  by (auto simp: candidate_handle_inbound_event_def Let_def base_wf_id [OF wf] intro!: base_wf_shared
      split: prod.splits sum.splits if_splits dest!: commit_hard_state_id)

lemma candidate_inbound_wf:
  assumes "candidate_handle_inbound_event env ev r c = ((r', c'), x)" and "base_wf me r"
  shows "base_wf me r'"
proof (cases ev)
  case (AppendEntries req chs)
  then show ?thesis
    using assms candidate_append_wf by simp
qed (use assms in \<open>auto simp: candidate_handle_inbound_event_def split: prod.splits
       dest: candidate_vote_wf reply_then_wf\<close>)

lemma candidate_tick_wf:
  assumes run: "candidate_tick env send arrive r c = ((r', c'), x)" and wf: "base_wf me r"
  shows "base_wf me r'"
proof (cases "timer_pending env r")
  case True
  then show ?thesis
    using assms by (auto simp: candidate_tick_def)
next
  case False
  obtain s2 c2 y where commit: "commit_hard_state env (Some (Suc (ro_term r))) (Some (self_vote r))
      (ro_shared r) c = ((s2, c2), y)"
    by (metis prod.collapse)
  have s2: "ss_node_id s2 = me"
    using commit_hard_state_id [OF commit] base_wf_id [OF wf] by simp
  show ?thesis
  proof (cases y)
    case (Inl e)
    then show ?thesis
      using run candidate_tick_save_failed [OF False, of c s2 c2 e] commit wf s2 by (auto intro: base_wf_shared)
  next
    case (Inr b)
    have "\<exists>s. r' = (reset_timer env r)\<lparr>ro_shared := s\<rparr> \<and> ss_node_id s = me"
      using run [unfolded candidate_tick_saved [OF False commit [unfolded Inr]] Let_def] s2
      by (auto split: sum.splits prod.splits error.splits dest: commit_hard_state_id)
    then show ?thesis
      using wf by (auto intro: base_wf_shared)
  qed
qed

lemma base_ticks_wf:
  "follower_tick env r c = ((r', c'), x) \<Longrightarrow> base_wf me r \<Longrightarrow> base_wf me r'"
  "learner_tick r c = ((r', c'), x) \<Longrightarrow> base_wf me r \<Longrightarrow> base_wf me r'"
  by (auto simp: follower_tick_def learner_tick_def split: if_splits prod.splits)

lemma base_internal_wf:
  "handle_apply_completed env i r c = ((r', c'), x) \<Longrightarrow> base_wf me r \<Longrightarrow> base_wf me r'"
  "handle_create_snapshot r c = ((r', c'), x) \<Longrightarrow> base_wf me r \<Longrightarrow> base_wf me r'"
  "handle_log_purge_completed lid r = (r', x) \<Longrightarrow> base_wf me r \<Longrightarrow> base_wf me r'"
  "learner_handle_membership_applied env r c = ((r', c'), x) \<Longrightarrow> base_wf me r \<Longrightarrow> base_wf me r'"
  by (auto simp: handle_apply_completed_def handle_create_snapshot_def handle_log_purge_completed_def
      learner_handle_membership_applied_def base_wf_def split: if_splits prod.splits option.splits)

lemma snapshot_created_wf:
  "handle_snapshot_created env res r c = ((r', c'), x) \<Longrightarrow> base_wf me r \<Longrightarrow> base_wf me r'"
  by (auto simp: handle_snapshot_created_def Let_def base_wf_def split: prod.splits option.splits sum.splits)

lemma base_internal_fst_wf:
  "base_wf me r \<Longrightarrow> base_wf me (fst (fst (handle_apply_completed env i r c)))"
  "base_wf me r \<Longrightarrow> base_wf me (fst (fst (handle_create_snapshot r c)))"
  "base_wf me r \<Longrightarrow> base_wf me (fst (fst (handle_snapshot_created env res r c)))"
  "base_wf me r \<Longrightarrow> base_wf me (fst (fst (learner_handle_membership_applied env r c)))"
  by (metis base_internal_wf snapshot_created_wf prod.collapse)+

lemma become_wf:
  "become_follower env r = Inr r' \<Longrightarrow> base_wf me r \<Longrightarrow> base_wf me r'"
  "become_candidate env r = Inr r' \<Longrightarrow> base_wf me r \<Longrightarrow> base_wf me r'"
  "become_learner r = Inr r' \<Longrightarrow> base_wf me r \<Longrightarrow> base_wf me r'"
  by (auto simp: become_follower_def become_candidate_def become_learner_def base_wf_def
      follower_of_candidate_def follower_of_learner_def candidate_of_follower_def
      learner_of_follower_def learner_of_candidate_def split: node_role.splits if_splits)

section \<open>The leader\<close>

abbreviation ld_me :: "leader_state \<Rightarrow> node_id" where
  "ld_me d \<equiv> ss_node_id (ld_shared d)"

named_theorems node_id_frame "operations that leave the leader's identifier alone"

lemmas [node_id_frame] = shared_frame

lemma id_lease [node_id_frame]:
  "ld_me (fst (update_lease_timestamp ts dur d)) = ld_me d"
  "ld_me (ld_revoke d) = ld_me d"
  by (simp_all add: update_lease_timestamp_def ld_revoke_def revoke_lease_def Let_def split: sum.split)

lemma id_commit_index [node_id_frame]:
  "ld_me (leader_update_commit_index n d) = ld_me d"
  "ld_me (fst (fst (leader_update_commit_index_with_signal env n d c))) = ld_me d"
  by (simp_all add: leader_update_commit_index_def leader_update_commit_index_with_signal_def Let_def case_prod_beta)

lemma id_log_flushed [node_id_frame]: "ld_me (fst (fst (handle_log_flushed env d c))) = ld_me d"
  by (simp add: handle_log_flushed_def Let_def case_prod_beta node_id_frame split: option.split sum.split)

lemma id_acknowledged [node_id_frame]:
  "ld_me (fst (fst (advance_commit env d c))) = ld_me d"
  "ld_me (fst (fst (refresh_lease_and_serve env d c))) = ld_me d"
  by (simp_all add: advance_commit_def refresh_lease_and_serve_def Let_def case_prod_beta node_id_frame
      split: option.split sum.split)

lemma id_peer_update [node_id_frame]:
  "ld_me (fst (fst (voter_acknowledged env d c))) = ld_me d"
  "ld_me (fst (fst (peer_update_applied env k v u d c))) = ld_me d"
  by (simp_all add: voter_acknowledged_def peer_update_applied_def Let_def case_prod_beta node_id_frame
      split: sum.split)

lemma id_tick [node_id_frame]:
  "ld_me (fst (fst (leader_heartbeat env d c))) = ld_me d"
  "ld_me (fst (fst (leader_tick env d c))) = ld_me d"
  by (simp_all add: leader_heartbeat_def leader_tick_def Let_def case_prod_beta node_id_frame
      split: sum.split option.split)

lemma id_lease_read [node_id_frame]: "ld_me (fst (fst (process_lease_read env rq ch d c))) = ld_me d"
  by (simp add: process_lease_read_def case_prod_beta node_id_frame split: sum.split)

lemma id_lease_reads [node_id_frame]: "ld_me (fst (fst (process_lease_reads env rs d c))) = ld_me d"
  by (induction rs arbitrary: d c) (auto simp: case_prod_beta node_id_frame)

lemma id_flush [node_id_frame]: "ld_me (fst (fst (flush_cmd_buffers env d c))) = ld_me d"
  by (simp add: flush_cmd_buffers_def Let_def case_prod_beta node_id_frame split: sum.split option.split)

lemma commit_hard_state_id_fst [node_id_frame]:
  "ss_node_id (fst (fst (commit_hard_state env t v s c))) = ss_node_id s"
  by (metis commit_hard_state_id prod.collapse)

lemma id_step_down [node_id_frame]: "ld_me (fst (fst (leader_step_down env t d c))) = ld_me d"
  by (simp add: leader_step_down_def case_prod_beta node_id_frame split: sum.split)

lemma id_append_result [node_id_frame]: "ld_me (fst (fst (handle_append_result env k r d c))) = ld_me d"
  by (simp add: handle_append_result_def Let_def node_id_frame split: sum.split option.split ae_result.split)

lemma id_vote_request [node_id_frame]: "ld_me (fst (fst (leader_vote_request env q ch d c))) = ld_me d"
  by (simp add: leader_vote_request_def step_down_and_replay_def leader_reply_then_def case_prod_beta node_id_frame
      split: sum.split)

lemma id_inbound [node_id_frame]: "ld_me (fst (fst (leader_handle_inbound_event env ev d c))) = ld_me d"
  by (cases ev) (simp_all add: leader_handle_inbound_event_def step_down_and_replay_def leader_reply_then_def
       leader_fatal_def Let_def case_prod_beta node_id_frame split: sum.split option.split)

section \<open>The role of the node\<close>

lemma role_wf_simps [simp]:
  "role_wf me (Base b) = base_wf me b"
  "role_wf me (Lead d) = (ld_me d = me)"
  by (simp_all add: role_wf_def)

lemma on_lead_eq: "(on_lead x = ((r', c'), y)) = (r' = Lead (fst (fst x)) \<and> c' = snd (fst x) \<and> y = snd x)"
  by (auto simp: on_lead_def split: prod.splits)

lemma on_base_eq: "(on_base x = ((r', c'), y)) = (\<exists>b. r' = Base b \<and> x = ((b, c'), y))"
  by (auto simp: on_base_def split: prod.splits)

lemma role_tick_wf:
  assumes "role_tick env r c = ((r', c'), x)" and "role_wf me r"
  shows "role_wf me r'"
  using assms
  by (auto simp: role_tick_def on_lead_eq on_base_eq node_id_frame split: raft_role.splits node_role.splits
      dest: candidate_tick_wf base_ticks_wf)

lemma role_inbound_wf:
  assumes "role_handle_inbound_event env ev r c = ((r', c'), x)" and "role_wf me r"
  shows "role_wf me r'"
  using assms
  by (auto simp: role_handle_inbound_event_def on_lead_eq on_base_eq node_id_frame
      split: raft_role.splits node_role.splits dest: follower_inbound_wf learner_inbound_wf candidate_inbound_wf)

lemma role_push_wf:
  assumes "role_push_client_cmd env cmd r c = (r', c')" and "role_wf me r"
  shows "role_wf me r'"
  using assms
  by (auto simp: role_push_client_cmd_def case_prod_beta node_id_frame split: raft_role.splits)

lemma role_flush_wf:
  assumes "role_flush_cmd_buffers env r c = ((r', c'), x)" and "role_wf me r"
  shows "role_wf me r'"
  using assms
  by (auto simp: role_flush_cmd_buffers_def on_lead_eq node_id_frame split: raft_role.splits)

lemma role_drain_wf:
  assumes "role_drain_read_buffer env r c = (r', c')" and "role_wf me r"
  shows "role_wf me r'"
  using assms
  by (auto simp: role_drain_read_buffer_def case_prod_beta node_id_frame split: raft_role.splits)

lemma leader_become_follower_wf: "base_wf (ld_me d) (leader_become_follower env d)"
  by (simp add: leader_become_follower_def follower_of_leader_def revoke_lease_def base_wf_def)

lemma role_become_wf:
  "role_become_follower env r = Inr r' \<Longrightarrow> role_wf me r \<Longrightarrow> role_wf me r'"
  "role_become_candidate env r = Inr r' \<Longrightarrow> role_wf me r \<Longrightarrow> role_wf me r'"
  "role_become_learner r = Inr r' \<Longrightarrow> role_wf me r \<Longrightarrow> role_wf me r'"
  "role_become_leader env r = Inr d \<Longrightarrow> role_wf me r \<Longrightarrow> role_wf me (Lead d)"
  by (auto simp: role_become_follower_def role_become_candidate_def role_become_learner_def
      role_become_leader_def leader_of_candidate_def Let_def leader_become_follower_wf
      split: raft_role.splits sum.splits if_splits dest: become_wf base_wf_id)

lemma role_with_shared_wf: "role_wf me r \<Longrightarrow> ss_node_id s = me \<Longrightarrow> role_wf me (with_shared s r)"
  by (auto simp: with_shared_def intro: base_wf_shared split: raft_role.splits)

lemma role_wf_id: "role_wf me r \<Longrightarrow> ss_node_id (role_shared r) = me"
  by (auto simp: role_shared_def dest: base_wf_id split: raft_role.splits)

definition node_wf :: "raft \<Rightarrow> bool" where
  "node_wf rf = role_wf (rf_node_id rf) (rf_role rf)"

text \<open>A step keeps the node: its identifier and the well-formedness of its role.\<close>

definition keeps_node :: "raft \<Rightarrow> raft \<Rightarrow> bool" where
  "keeps_node rf rf' = (node_wf rf \<longrightarrow> node_wf rf' \<and> rf_node_id rf' = rf_node_id rf)"

lemma keeps_node_trans: "keeps_node a b \<Longrightarrow> keeps_node b c \<Longrightarrow> keeps_node a c"
  by (auto simp: keeps_node_def)

lemma keeps_node_role:
  assumes "role_wf (rf_node_id rf) (rf_role rf) \<Longrightarrow> role_wf (rf_node_id rf) r"
  shows "keeps_node rf (rf\<lparr>rf_role := r, rf_ctx := c\<rparr>)"
  using assms by (simp add: keeps_node_def node_wf_def)

lemma keeps_node_notify [simp]:
  "keeps_node rf (notify_leader_change l t rf') = keeps_node rf rf'"
  "keeps_node rf (notify_new_commit n rf') = keeps_node rf rf'"
  by (simp_all add: keeps_node_def node_wf_def notify_leader_change_def notify_new_commit_def Let_def)

lemma set_role_ctx_node:
  assumes "set_role_ctx f x rf = (rf', y)"
    and "role_wf (rf_node_id rf) (rf_role rf) \<Longrightarrow> role_wf (rf_node_id rf) (fst (fst x))"
  shows "keeps_node rf rf'"
  using assms by (auto simp: set_role_ctx_def keeps_node_def node_wf_def split: prod.splits)

lemma drained_become_wf:
  assumes "role_drain_read_buffer env r c = (r0, c0)" and "role_wf me r"
  shows "role_wf me r0"
    and "role_become_follower env r0 = Inr r1 \<Longrightarrow> role_wf me r1"
    and "role_become_candidate env r0 = Inr r1 \<Longrightarrow> role_wf me r1"
    and "role_become_learner r0 = Inr r1 \<Longrightarrow> role_wf me r1"
  using role_drain_wf [OF assms] role_become_wf by blast+

lemma role_vote_reset_wf:
  "commit_vote_reset env (role_shared r) c = ((s, c'), x) \<Longrightarrow> role_wf me r \<Longrightarrow> role_wf me (with_shared s r)"
  by (auto simp: commit_vote_reset_def Let_def clear_voted_for_def dest: role_wf_id split: prod.splits
      intro!: role_with_shared_wf)

lemma become_follower_node:
  assumes "handle_become_follower env l rf = (rf', y)"
  shows "keeps_node rf rf'"
  using assms
  by (auto simp: handle_become_follower_def Let_def split: prod.splits sum.splits
      intro!: keeps_node_role elim!: role_vote_reset_wf intro: drained_become_wf)

lemma become_candidate_node:
  assumes "handle_become_candidate env rf = (rf', y)"
  shows "keeps_node rf rf'"
  using assms
  by (auto simp: handle_become_candidate_def split: prod.splits sum.splits intro!: keeps_node_role
      intro: drained_become_wf)

lemma become_learner_node:
  assumes "handle_become_learner env rf = (rf', y)"
  shows "keeps_node rf rf'"
  using assms
  by (auto simp: handle_become_learner_def split: prod.splits sum.splits intro!: keeps_node_role
      intro: drained_become_wf)

lemma become_leader_shared:
  assumes "handle_become_leader env rf = (rf', y)" and "role_become_leader env (rf_role rf) = Inr d1"
  shows "\<exists>d c. rf' = rf\<lparr>rf_role := Lead d, rf_ctx := c\<rparr>
     \<and> ld_shared d = fst (fst (commit_hard_state (re_role env) None (Some (leader_vote (rf_node_id rf) (ld_term d1)))
                                 (ld_shared d1) (rf_ctx rf)))"
  using assms(1)
  by (auto simp: handle_become_leader_def assms(2) Let_def case_prod_beta shared_frame split: sum.splits if_splits)

lemma become_leader_node:
  assumes "handle_become_leader env rf = (rf', y)"
  shows "keeps_node rf rf'"
proof (cases "role_become_leader env (rf_role rf)")
  case (Inl e)
  then show ?thesis
    using assms by (simp add: handle_become_leader_def keeps_node_def)
next
  case (Inr d1)
  from become_leader_shared [OF assms Inr] show ?thesis
    using role_become_wf(4) [OF Inr] by (auto simp: node_id_frame intro!: keeps_node_role)
qed

lemma snapshot_push_node: "keeps_node rf (handle_snapshot_push_event env k ok t i rf)"
  by (auto simp: handle_snapshot_push_event_def Let_def keeps_node_def node_wf_def node_id_frame
      split: raft_role.split option.split bool.split)

lemma internal_event_node:
  assumes "handle_internal_event env ev rf = (rf', y)"
  shows "keeps_node rf rf'"
proof (cases ev)
  case (SnapshotPushCompleted k ok t i)
  then show ?thesis
    using assms snapshot_push_node by (auto simp: handle_internal_event_def)
next
  case (LogPurgeCompleted i)
  then show ?thesis
    using assms
    by (auto simp: handle_internal_event_def Let_def keeps_node_def node_wf_def node_id_frame
        split: raft_role.splits prod.splits dest: base_internal_wf)
next
  case (NotifyNewCommitIndex n)
  then show ?thesis
    using assms by (auto simp: handle_internal_event_def handle_notify_new_commit_index_def keeps_node_def
        node_wf_def notify_new_commit_def split: prod.splits)
next
  case (PeerStreamError k)
  then show ?thesis
    using assms by (auto simp: handle_internal_event_def keeps_node_def node_wf_def node_id_frame
        split: raft_role.splits)
next
  case MembershipApplied
  then show ?thesis
    using assms
    by (auto simp: handle_internal_event_def Let_def on_base_def case_prod_beta base_internal_fst_wf
        split: raft_role.splits if_splits elim!: set_role_ctx_node)
      (simp_all add: keeps_node_def node_wf_def node_id_frame)
qed (use assms in \<open>auto simp: handle_internal_event_def Let_def on_lead_def on_base_def case_prod_beta node_id_frame
       base_internal_fst_wf split: raft_role.splits elim!: set_role_ctx_node
       dest: become_follower_node become_candidate_node become_learner_node become_leader_node\<close>,
     simp_all add: keeps_node_def node_wf_def)

section \<open>A turn of the loop\<close>

lemma keeps_node_same:
  "rf_role rf' = rf_role rf \<Longrightarrow> rf_node_id rf' = rf_node_id rf \<Longrightarrow> keeps_node rf rf'"
  by (simp add: keeps_node_def node_wf_def)

lemma push_client_cmds_node: "keeps_node rf (push_client_cmds env cmds rf)"
proof (induction cmds arbitrary: rf)
  case (Cons cmd cmds)
  obtain r c where push: "role_push_client_cmd env cmd (rf_role rf) (rf_ctx rf) = (r, c)" by fastforce
  have "keeps_node rf (rf\<lparr>rf_role := r, rf_ctx := c\<rparr>)"
    by (rule keeps_node_role) (rule role_push_wf [OF push])
  then show ?case
    using keeps_node_trans [OF _ Cons] push by simp
qed (simp add: keeps_node_same)

lemma drains_node:
  "keeps_node rf (drain_internal_events env rf)"
  "keeps_node rf (drain_inbound_events env rf)"
  "keeps_node rf (drain_client_cmds env rf)"
proof -
  show "keeps_node rf (drain_client_cmds env rf)"
    unfolding drain_client_cmds_def Let_def
    by (rule keeps_node_trans [OF _ push_client_cmds_node]) (simp add: keeps_node_same)
qed (simp_all add: keeps_node_same drain_internal_events_def drain_inbound_events_def Let_def)

lemma process_internal_node:
  "process_internal_events env evs rf = (rf', y) \<Longrightarrow> keeps_node rf rf'"
proof (induction evs arbitrary: rf)
  case (Cons ev evs)
  obtain rf1 x where h: "handle_internal_event env ev (rf\<lparr>rf_buffered_internal := evs\<rparr>) = (rf1, x)" by fastforce
  have "keeps_node rf (rf\<lparr>rf_buffered_internal := evs\<rparr>)"
    by (simp add: keeps_node_same)
  then have k: "keeps_node rf rf1"
    using internal_event_node [OF h] keeps_node_trans by blast
  then show ?case
    using Cons.IH [of rf1] Cons.prems h keeps_node_trans [OF k] by (auto split: if_splits)
qed (auto simp: keeps_node_same)

lemma process_inbound_list_wf:
  "process_inbound_list env evs r c = ((evs', r', c'), y) \<Longrightarrow> role_wf me r \<Longrightarrow> role_wf me r'"
proof (induction env evs r c rule: process_inbound_list.induct)
  case (1 env evs r c)
  show ?case
  proof (cases "merge_append_entries (re_max_merge_entries env) evs")
    case Nil
    then show ?thesis
      using "1.prems" by (simp add: process_inbound_list.simps)
  next
    case (Cons ev rest)
    obtain r1 c1 x where h: "role_handle_inbound_event env ev r c = ((r1, c1), x)"
      by (metis prod.collapse)
    have wf1: "role_wf me r1"
      by (rule role_inbound_wf [OF h "1.prems"(2)])
    show ?thesis
    proof (cases "ends_loop x")
      case True
      then show ?thesis
        using "1.prems"(1) wf1 Cons h by (simp add: process_inbound_list.simps)
    next
      case False
      have "process_inbound_list env rest r1 c1 = ((evs', r', c'), y)"
        using "1.prems"(1) Cons h False by (simp add: process_inbound_list.simps [of env evs])
      then show ?thesis
        using "1.IH" [OF Cons h [symmetric] refl False] wf1 by blast
    qed
  qed
qed

lemma process_inbound_node: "process_inbound_events env rf = (rf', y) \<Longrightarrow> keeps_node rf rf'"
  by (auto simp: process_inbound_events_def keeps_node_def node_wf_def split: prod.splits
      dest: process_inbound_list_wf)

lemma process_client_node: "process_client_cmds env rf = (rf', y) \<Longrightarrow> keeps_node rf rf'"
  unfolding process_client_cmds_def
  by (erule set_role_ctx_node) (metis role_flush_wf prod.collapse)

lemma reset_tick_node: "keeps_node rf (reset_tick env rf)"
  by (simp add: reset_tick_def keeps_node_same)

lemma select_arm_node:
  assumes "select_arm env rf = Some (rf', y)"
  shows "keeps_node rf rf'"
proof (cases "rf_tick rf \<le> en_now (re_role env)")
  case True
  obtain rf1 x where h: "set_role_ctx logged (role_tick env (rf_role rf) (rf_ctx rf)) rf = (rf1, x)" by fastforce
  then have "keeps_node rf rf1"
    by (rule set_role_ctx_node) (metis role_tick_wf prod.collapse)
  then show ?thesis
    using assms True h keeps_node_trans [OF _ reset_tick_node] by (auto simp: select_arm_def)
next
  case False
  have k: "keeps_node rf (push_client_cmds env [cmd] (rf\<lparr>rf_command_channel := cmds\<rparr>))" for cmd cmds
    by (rule keeps_node_trans [OF _ push_client_cmds_node]) (simp add: keeps_node_same)
  show ?thesis
    using assms False keeps_node_trans [OF k drains_node(3)] keeps_node_trans [OF _ drains_node(1)]
      keeps_node_trans [OF _ drains_node(2)]
    by (auto simp: select_arm_def keeps_node_same split: list.splits)
qed

lemma processing_node:
  assumes "process_internal_events env evs rf1 = (rf2, x)" and "process_client_cmds env rf2 = (rf3, y)"
    and "process_inbound_events env rf3 = (rf4, z)"
  shows "keeps_node rf1 rf2" and "keeps_node rf1 rf3" and "keeps_node rf1 rf4"
  using process_internal_node [OF assms(1)] process_client_node [OF assms(2)] process_inbound_node [OF assms(3)]
    keeps_node_trans by blast+

text \<open>A turn of the Raft loop keeps the type of the node's role.  In the code a follower,
  a candidate, a learner and a leader are different types: a learner has no election timer, a
  candidate neither a purge watermark nor a snapshot flag.  Whatever arm of the loop runs and
  whatever it returns, the node has the state of one of these types afterwards, and the
  identifier in it is still the node's.\<close>

theorem loop_turn_keeps_role_type:
  assumes "loop_turn env rf = Some (rf', res)" and "node_wf rf"
  shows "node_wf rf' \<and> rf_node_id rf' = rf_node_id rf"
proof -
  obtain rf1 x where sel: "select_arm env rf = Some (rf1, x)"
    using assms(1) by (auto simp: loop_turn_def split: option.splits)
  obtain rf2 x2 where p2: "process_internal_events env (rf_buffered_internal rf1) rf1 = (rf2, x2)" by fastforce
  obtain rf3 x3 where p3: "process_client_cmds env rf2 = (rf3, x3)" by fastforce
  obtain rf4 x4 where p4: "process_inbound_events env rf3 = (rf4, x4)" by fastforce
  note k = processing_node [OF p2 p3 p4]
  have "rf' \<in> {rf1, rf2, rf3, rf4, reset_tick env rf4}"
    using assms(1) sel p2 p3 p4 by (auto simp: loop_turn_def split: sum.splits if_splits)
  then have "keeps_node rf1 rf'"
    using k keeps_node_trans [OF k(3) reset_tick_node] by (auto simp: keeps_node_same)
  then show ?thesis
    using select_arm_node [OF sel] assms(2) by (auto simp: keeps_node_def)
qed

theorem loop_turn_keeps_role_type_witness:
  "node_wf (ex_node 1 (Base (ex_follower 1)))
   \<and> (\<exists>rf'. loop_turn ex_raft_env (ex_node 1 (Base (ex_follower 1))) = Some (rf', Inr ())
       \<and> node_wf rf' \<and> rf_node_id rf' = 1)"
proof -
  have "node_wf (ex_node 1 (Base (ex_follower 1)))"
    by (simp add: node_wf_def base_wf_def ex_node_defs)
  then show ?thesis
    using loop_turn_keeps_role_type [OF ex_timeout_turn] ex_timeout_turn by (simp add: ex_node_def)
qed

end
