(* ===== verification/Raft_Cluster.thy ===== *)
theory Raft_Cluster
  imports Election_Safety Role_Wf
begin

text \<open>
  A cluster of nodes that each run the handlers of the Raft loop, and election safety for its
  guarded steps.  The state has, next to the nodes, the history of the abstract election: the
  votes given, the first vote of each node per term and the elections won.  Every step of the
  cluster refines steps of the abstract election.

  The handlers of different nodes interleave freely, but the steps have conditions, and the
  code does not enforce all of them:
  \<^item> an event that makes a node hear a leader comes from a node elected in that term;
  \<^item> \<^verbatim>\<open>BecomeLeader\<close> is handled while the node is still in a term it was elected in (the code
    does not check this, and \<^verbatim>\<open>Election_Properties\<close> shows what follows);
  \<^item> a node that handles \<^verbatim>\<open>BecomeFollower\<close> gave no vote in its term or was outvoted, or replays the
    event of an elected leader right after it (the code clears the vote in every case, see
    there);
  \<^item> a granted answer a candidate counts was given by that peer;
  \<^item> a candidate asks the members of one fixed set of voters and each answers at most once;
  \<^item> a node restarts only when its hard state on disk is the one in memory.
\<close>

record cluster =
  cs_node :: "node_id \<Rightarrow> raft"
  cs_granted :: "(node_id \<times> u64 \<times> node_id) set"
  cs_first :: "node_id \<Rightarrow> u64 \<Rightarrow> node_id option"
  cs_elected :: "(node_id \<times> u64) set"

definition votes_of :: "cluster \<Rightarrow> election" where
  "votes_of s = \<lparr>el_hs = (\<lambda>n. role_hs (rf_role (cs_node s n))), el_granted = cs_granted s,
                 el_first = cs_first s, el_elected = cs_elected s\<rparr>"

definition put_node_state :: "node_id \<Rightarrow> raft \<Rightarrow> cluster \<Rightarrow> cluster" where
  "put_node_state n rf s = s\<lparr>cs_node := (cs_node s)(n := rf)\<rparr>"

definition cast :: "node_id \<Rightarrow> voter_act \<Rightarrow> cluster \<Rightarrow> cluster" where
  "cast n a s =
     (case a of
        GrantTo cand t \<Rightarrow> s\<lparr>cs_granted := insert (n, t, cand) (cs_granted s),
                            cs_first := first_vote n t cand (cs_first s)\<rparr>
      | _ \<Rightarrow> s)"

definition elect :: "bool \<Rightarrow> node_id \<Rightarrow> u64 \<Rightarrow> cluster \<Rightarrow> cluster" where
  "elect won n t s = (if won then s\<lparr>cs_elected := insert (n, t) (cs_elected s)\<rparr> else s)"

definition role_act :: "raft_env \<Rightarrow> inbound_event \<Rightarrow> raft_role \<Rightarrow> raft_context \<Rightarrow> voter_act" where
  "role_act env ev r c = (case r of Base b \<Rightarrow> voter_act_of (re_snapshot env ev) ev b c | Lead _ \<Rightarrow> Idle)"

text \<open>The vote a tick casts: a candidate whose timer fired votes for itself in the next term.\<close>

definition tick_act :: "raft_env \<Rightarrow> raft_role \<Rightarrow> voter_act" where
  "tick_act env r =
     (case r of
        Base b \<Rightarrow> if ro_kind b = NR_Candidate \<and> \<not> timer_pending (re_role env) b
                   then GrantTo (ss_node_id (ro_shared b)) (Suc (ro_term b)) else Idle
      | Lead _ \<Rightarrow> Idle)"

text \<open>An election is won by the tick that started it and put \<^verbatim>\<open>BecomeLeader\<close> on the queue.\<close>

definition wins :: "raft_env \<Rightarrow> raft_role \<Rightarrow> raft_context \<Rightarrow> raft_context \<Rightarrow> bool" where
  "wins env r c c' = (tick_act env r \<noteq> Idle \<and> cx_events c' = cx_events c @ [BecomeLeader])"

definition heard_elected :: "voter_act \<Rightarrow> cluster \<Rightarrow> bool" where
  "heard_elected a s = (case a of ContactBy l t \<Rightarrow> (l, t) \<in> cs_elected s | _ \<Rightarrow> True)"

definition answers_honest :: "raft_env \<Rightarrow> cluster \<Rightarrow> bool" where
  "answers_honest env s =
     (\<forall>p q v. re_send env p q = Inr v \<longrightarrow> vr_granted v \<longrightarrow> (p, vq_term q, vq_candidate_id q) \<in> cs_granted s)"

text \<open>The voters a candidate asks, itself included, are the voters of the cluster, each task
  completes once, and only the node of a one-node cluster elects itself.\<close>

definition votes_among :: "node_id set \<Rightarrow> node_id \<Rightarrow> raft_env \<Rightarrow> raft_context \<Rightarrow> bool" where
  "votes_among vs n env c =
     (insert n (nm_id ` set (voters (cx_membership c))) = vs
      \<and> (is_single_node_cluster (cx_membership c) \<longrightarrow> vs = {n})
      \<and> (\<forall>ps. distinct ps \<longrightarrow> distinct (re_arrive env ps) \<and> set (re_arrive env ps) = set ps))"

inductive cluster_step :: "node_id set \<Rightarrow> cluster \<Rightarrow> cluster \<Rightarrow> bool" for vs where
  inbound: "rf = cs_node s n \<Longrightarrow> a = role_act env ev (rf_role rf) (rf_ctx rf) \<Longrightarrow> heard_elected a s
     \<Longrightarrow> role_handle_inbound_event env ev (rf_role rf) (rf_ctx rf) = ((r, c), res)
     \<Longrightarrow> cluster_step vs s (cast n a (put_node_state n (rf\<lparr>rf_role := r, rf_ctx := c\<rparr>) s))"
| tick: "rf = cs_node s n \<Longrightarrow> answers_honest env s \<Longrightarrow> votes_among vs n env (rf_ctx rf)
     \<Longrightarrow> role_tick env (rf_role rf) (rf_ctx rf) = ((r, c), res)
     \<Longrightarrow> cluster_step vs s
           (elect (wins env (rf_role rf) (rf_ctx rf) c) n (Suc (role_term (rf_role rf)))
              (cast n (tick_act env (rf_role rf)) (put_node_state n (rf\<lparr>rf_role := r, rf_ctx := c\<rparr>) s)))"
| internal: "rf = cs_node s n
     \<Longrightarrow> (ev = BecomeLeader \<Longrightarrow> (n, role_term (rf_role rf)) \<in> cs_elected s)
     \<Longrightarrow> (\<And>l. ev = BecomeFollower l \<Longrightarrow> may_forget (votes_of s) n (role_term (rf_role rf)))
     \<Longrightarrow> handle_internal_event env ev rf = (rf', res)
     \<Longrightarrow> cluster_step vs s (put_node_state n rf' s)"
| replay: "rf = cs_node s n \<Longrightarrow> handle_internal_event env (BecomeFollower l) rf = (rf1, res1)
     \<Longrightarrow> role_act env ev (rf_role rf1) c1 = ContactBy l' t \<Longrightarrow> (l', t) \<in> cs_elected s
     \<Longrightarrow> role_handle_inbound_event env ev (rf_role rf1) c1 = ((r, c), res)
     \<Longrightarrow> cluster_step vs s (put_node_state n (rf1\<lparr>rf_role := r, rf_ctx := c\<rparr>) s)"
| push: "rf = cs_node s n \<Longrightarrow> role_push_client_cmd env cmd (rf_role rf) (rf_ctx rf) = (r, c)
     \<Longrightarrow> cluster_step vs s (put_node_state n (rf\<lparr>rf_role := r, rf_ctx := c\<rparr>) s)"
| flush: "rf = cs_node s n \<Longrightarrow> role_flush_cmd_buffers env (rf_role rf) (rf_ctx rf) = ((r, c), res)
     \<Longrightarrow> cluster_step vs s (put_node_state n (rf\<lparr>rf_role := r, rf_ctx := c\<rparr>) s)"
| local: "rf = cs_node s n \<Longrightarrow> rf_role rf' = rf_role rf \<Longrightarrow> rf_node_id rf' = rf_node_id rf
     \<Longrightarrow> cluster_step vs s (put_node_state n rf' s)"
| restart: "rf = cs_node s n \<Longrightarrow> cx_disk (rf_ctx rf) = Some (role_hs (rf_role rf))
     \<Longrightarrow> cluster_step vs s (put_node_state n
           (rf\<lparr>rf_role := Base (follower_new env n (cx_disk (rf_ctx rf)) applied), rf_ctx := c\<rparr>) s)"

definition cluster_init :: "cluster \<Rightarrow> bool" where
  "cluster_init s =
     (cs_granted s = {} \<and> cs_first s = (\<lambda>_ _. None) \<and> cs_elected s = {}
      \<and> (\<forall>n. node_wf (cs_node s n) \<and> rf_node_id (cs_node s n) = n \<and> (\<forall>d. rf_role (cs_node s n) \<noteq> Lead d)))"

section \<open>The handlers as voter steps\<close>

lemma role_hs_simps [simp]:
  "role_hs (Base b) = hs_of b" "role_hs (Lead d) = ld_hs d"
  by (simp_all add: role_shared_def)

lemma role_inbound_voter_step:
  assumes "role_handle_inbound_event env ev r c = ((r', c'), res)" and "role_wf me r"
  shows "voter_step (role_hs r) (role_act env ev r c) (role_hs r')"
proof (cases r)
  case (Lead d)
  then show ?thesis
    using assms leader_inbound_voter_step by (auto simp: role_handle_inbound_event_def on_lead_eq role_act_def)
next
  case (Base b)
  then have "ro_kind b \<noteq> NR_Leader" "ro_kind b \<noteq> NR_Unspecified"
    using assms(2) by (simp_all add: base_wf_def)
  then show ?thesis
    using assms(1) Base
    by (auto simp: role_handle_inbound_event_def on_base_eq role_act_def split: node_role.splits
        intro: follower_inbound_step candidate_inbound_step learner_inbound_step)
qed

definition leads :: "raft_role \<Rightarrow> bool" where
  "leads r = (case r of Base _ \<Rightarrow> False | Lead _ \<Rightarrow> True)"

lemma leads_simps [simp]: "\<not> leads (Base b)" "leads (Lead d)"
  by (simp_all add: leads_def)

text \<open>A step that casts no vote, hears no leader and makes no leader.\<close>

definition quiet :: "raft_role \<Rightarrow> raft_role \<Rightarrow> bool" where
  "quiet r r' = (voter_step (role_hs r) Idle (role_hs r') \<and> (leads r' \<longrightarrow> leads r))"

lemma quiet_same: "role_hs r' = role_hs r \<Longrightarrow> (leads r' \<Longrightarrow> leads r) \<Longrightarrow> quiet r r'"
  by (simp add: quiet_def voter_step.keep)

lemma quiet_lead: "ld_hs d' = ld_hs d \<Longrightarrow> quiet (Lead d) (Lead d')"
  by (rule quiet_same) simp_all

lemma quiet_base: "hs_of b' = hs_of b \<Longrightarrow> quiet (Base b) (Base b')"
  by (rule quiet_same) simp_all

lemma base_internal_hs:
  "ro_shared (fst (fst (handle_apply_completed env i b c))) = ro_shared b"
  "ro_shared (fst (fst (handle_create_snapshot b c))) = ro_shared b"
  "ro_shared (fst (fst (handle_snapshot_created env res b c))) = ro_shared b"
  "ro_shared (fst (handle_log_purge_completed purged_id b)) = ro_shared b"
  "ro_shared (fst (fst (learner_handle_membership_applied env b c))) = ro_shared b"
  by (simp_all add: handle_apply_completed_def handle_create_snapshot_def handle_snapshot_created_def Let_def
      handle_log_purge_completed_def learner_handle_membership_applied_def case_prod_beta
      split: option.split sum.split prod.split)

lemma become_hs:
  "become_candidate env b = Inr b' \<Longrightarrow> ro_shared b' = ro_shared b"
  "become_learner b = Inr b' \<Longrightarrow> ro_shared b' = ro_shared b"
  "become_follower env b = Inr b' \<Longrightarrow> ro_shared b' = ro_shared b"
  by (auto simp: become_candidate_def become_learner_def become_follower_def candidate_of_follower_def
      learner_of_follower_def learner_of_candidate_def follower_of_candidate_def follower_of_learner_def
      split: if_splits node_role.splits)

lemma drain_quiet: "role_drain_read_buffer env r c = (r', c') \<Longrightarrow> role_hs r' = role_hs r \<and> leads r' = leads r"
  by (auto simp: role_drain_read_buffer_def case_prod_beta hard_state_frame split: raft_role.splits)

lemma role_become_hs:
  "role_become_candidate env r = Inr r' \<Longrightarrow> role_hs r' = role_hs r \<and> \<not> leads r'"
  "role_become_learner r = Inr r' \<Longrightarrow> role_hs r' = role_hs r \<and> \<not> leads r'"
  "role_become_follower env r = Inr r' \<Longrightarrow> role_hs r' = role_hs r \<and> \<not> leads r'"
  by (auto simp: role_become_candidate_def role_become_learner_def role_become_follower_def
      leader_become_follower_def follower_of_leader_def revoke_lease_def
      split: raft_role.splits sum.splits dest!: become_hs)

lemma set_role_ctx_quiet:
  "set_role_ctx f x rf = (rf', y) \<Longrightarrow> quiet r (fst (fst x)) \<Longrightarrow> quiet r (rf_role rf')"
  by (auto simp: set_role_ctx_def split: prod.splits)

lemma notify_role [simp]:
  "rf_role (notify_leader_change l t rf) = rf_role rf" "rf_role (notify_new_commit n rf) = rf_role rf"
  by (simp_all add: notify_leader_change_def notify_new_commit_def Let_def)

lemma become_candidate_quiet:
  "handle_become_candidate env rf = (rf', y) \<Longrightarrow> quiet (rf_role rf) (rf_role rf')"
  by (auto simp: handle_become_candidate_def quiet_def split: prod.splits sum.splits
      dest!: drain_quiet role_become_hs intro: voter_step.keep)

lemma become_learner_quiet:
  "handle_become_learner env rf = (rf', y) \<Longrightarrow> quiet (rf_role rf) (rf_role rf')"
  by (auto simp: handle_become_learner_def quiet_def split: prod.splits sum.splits
      dest!: drain_quiet role_become_hs intro: voter_step.keep)

lemma snapshot_push_quiet: "quiet (rf_role rf) (rf_role (handle_snapshot_push_event env k ok t i rf))"
  by (auto simp: handle_snapshot_push_event_def Let_def hard_state_frame intro!: quiet_same
      split: raft_role.split option.split bool.split)

lemma append_result_quiet: "quiet (Lead d) (Lead (fst (fst (handle_append_result env k r d c))))"
  using append_result_voter_step by (simp add: quiet_def)

lemma internal_event_quiet:
  assumes "handle_internal_event env ev rf = (rf', y)" and "ev \<noteq> BecomeLeader" and "\<forall>l. ev \<noteq> BecomeFollower l"
  shows "quiet (rf_role rf) (rf_role rf')"
proof (cases ev)
  case (SnapshotPushCompleted k ok t i)
  then show ?thesis
    using assms snapshot_push_quiet by (auto simp: handle_internal_event_def)
next
  case (LogPurgeCompleted i)
  then show ?thesis
    using assms
    by (auto simp: handle_internal_event_def Let_def case_prod_beta base_internal_hs hard_state_frame
        split: raft_role.splits intro!: quiet_same)
next
  case (NotifyNewCommitIndex n)
  then show ?thesis
    using assms by (auto simp: handle_internal_event_def handle_notify_new_commit_index_def
        split: prod.splits intro: quiet_same)
next
  case (AppendResult k r)
  then show ?thesis
    using assms by (auto simp: handle_internal_event_def Let_def on_lead_def case_prod_beta append_result_quiet
        split: raft_role.splits elim!: set_role_ctx_quiet intro: quiet_same)
qed (use assms in \<open>auto simp: handle_internal_event_def Let_def on_lead_def on_base_def case_prod_beta hard_state_frame
       base_internal_hs split: raft_role.splits if_splits elim!: set_role_ctx_quiet
       dest: become_candidate_quiet become_learner_quiet intro: quiet_lead quiet_base\<close>,
     simp_all add: quiet_same quiet_base base_internal_hs hard_state_frame)

text \<open>Becoming follower clears the vote; becoming leader records the node's leadership.\<close>

lemma become_follower_role:
  assumes "handle_become_follower env l rf = (rf', y)"
  shows "role_hs (rf_role rf') = role_hs (rf_role rf) \<and> (leads (rf_role rf') \<longrightarrow> leads (rf_role rf))
    \<or> role_hs (rf_role rf') = (role_hs (rf_role rf))\<lparr>hs_voted_for := None\<rparr> \<and> \<not> leads (rf_role rf')"
proof -
  obtain r0 c0 where dr: "role_drain_read_buffer env (rf_role rf) (rf_ctx rf) = (r0, c0)" by fastforce
  show ?thesis
  proof (cases "role_become_follower env r0")
    case (Inl e)
    then show ?thesis
      using assms dr drain_quiet [OF dr] by (auto simp: handle_become_follower_def)
  next
    case (Inr r1)
    obtain b where b: "r1 = Base b"
      using role_become_hs(3) [OF Inr] by (cases r1) auto
    have "role_hs (rf_role rf') = (role_hs r1)\<lparr>hs_voted_for := None\<rparr> \<and> \<not> leads (rf_role rf')"
      using assms dr Inr b
      by (auto simp: handle_become_follower_def commit_vote_reset_def clear_voted_for_def with_shared_def Let_def
          role_shared_def split: prod.splits sum.splits)
    then show ?thesis
      using drain_quiet [OF dr] role_become_hs(3) [OF Inr] by simp
  qed
qed

lemma become_leader_role:
  assumes "handle_become_leader env rf = (rf', y)"
  shows "rf' = rf \<or> (\<exists>d. rf_role rf' = Lead d
     \<and> ld_hs d = \<lparr>hs_current_term = role_term (rf_role rf),
                 hs_voted_for = Some (leader_vote (rf_node_id rf) (role_term (rf_role rf)))\<rparr>)"
proof (cases "role_become_leader env (rf_role rf)")
  case (Inl e)
  then show ?thesis
    using assms by (simp add: handle_become_leader_def)
next
  case (Inr d1)
  then have d1: "ss_hard_state (ld_shared d1) = role_hs (rf_role rf)"
    by (auto simp: role_become_leader_def leader_of_candidate_def Let_def split: raft_role.splits if_splits)
  then have t: "ld_term d1 = role_term (rf_role rf)"
    by (simp add: ld_term_def ss_term_def role_term_def)
  obtain s2 c2 x where commit: "commit_hard_state (re_role env) None
      (Some (leader_vote (rf_node_id rf) (ld_term d1))) (ld_shared d1) (rf_ctx rf) = ((s2, c2), x)"
    by (metis prod.collapse)
  have "ss_hard_state s2 = \<lparr>hs_current_term = role_term (rf_role rf),
      hs_voted_for = Some (leader_vote (rf_node_id rf) (role_term (rf_role rf)))\<rparr>"
    using commit_hard_state_hs(1) [OF commit] t by (simp add: ld_term_def)
  then show ?thesis
    using become_leader_shared [OF assms Inr] commit by auto
qed

section \<open>Refinement of the abstract election\<close>

lemma votes_of_put [simp]:
  "votes_of (put_node_state n rf s)
   = (votes_of s)\<lparr>el_hs := (el_hs (votes_of s))(n := role_hs (rf_role rf))\<rparr>"
  by (auto simp: votes_of_def put_node_state_def)

lemma votes_of_cast:
  "votes_of (cast n Idle s) = votes_of s" "votes_of (cast n (ContactBy l u) s) = votes_of s"
  "votes_of (cast n (GrantTo cand t) s)
   = (votes_of s)\<lparr>el_granted := insert (n, t, cand) (cs_granted s), el_first := first_vote n t cand (cs_first s)\<rparr>"
  by (simp_all add: votes_of_def cast_def)

lemma votes_of_elect:
  "votes_of (elect False n t s) = votes_of s"
  "votes_of (elect True n t s) = (votes_of s)\<lparr>el_elected := insert (n, t) (cs_elected s)\<rparr>"
  by (simp_all add: votes_of_def elect_def)

lemma votes_of_sel [simp]:
  "el_hs (votes_of s) n = role_hs (rf_role (cs_node s n))" "el_granted (votes_of s) = cs_granted s"
  "el_first (votes_of s) = cs_first s" "el_elected (votes_of s) = cs_elected s"
  by (simp_all add: votes_of_def)

lemma voter_step_refines:
  assumes "voter_step (role_hs (rf_role (cs_node s n))) a (role_hs (rf_role rf'))" and "heard_elected a s"
  shows "election_step vs (votes_of s) (votes_of (cast n a (put_node_state n rf' s)))"
proof (cases a)
  case Idle
  then show ?thesis
    using assms election_step.idle [of "votes_of s" n "role_hs (rf_role rf')" vs] by (simp add: votes_of_cast)
next
  case (GrantTo cand t)
  have "cs_granted (put_node_state n rf' s) = cs_granted s" "cs_first (put_node_state n rf' s) = cs_first s"
    by (simp_all add: put_node_state_def)
  then show ?thesis
    using assms GrantTo election_step.vote [of "votes_of s" n cand t "role_hs (rf_role rf')" vs]
    by (simp add: votes_of_cast)
next
  case (ContactBy l t)
  then show ?thesis
    using assms election_step.hear [of "votes_of s" n l t "role_hs (rf_role rf')" vs]
    by (simp add: votes_of_cast heard_elected_def)
qed

lemma quiet_refines:
  assumes "quiet (rf_role (cs_node s n)) (rf_role rf')"
  shows "election_step vs (votes_of s) (votes_of (put_node_state n rf' s))"
  using voter_step_refines [of s n Idle rf' vs] assms by (simp add: quiet_def heard_elected_def votes_of_cast)

text \<open>A won election has a majority of granted votes.\<close>

lemma election_answer_majority:
  assumes "election_answer (re_send env) (re_arrive env) b c = Inr ()" and "ss_node_id (ro_shared b) = n"
    and among: "votes_among vs n env c" and honest: "answers_honest env s"
  shows "\<exists>q. majority_of vs q \<and> (\<forall>v \<in> q. v = n \<or> (v, Suc (ro_term b), n) \<in> cs_granted s)"
proof (cases "is_single_node_cluster (cx_membership c)")
  case True
  then have "vs = {n}"
    using among by (simp add: votes_among_def)
  then have "majority_of vs {n}"
    by (simp add: majority_of_def is_majority_def)
  then show ?thesis by blast
next
  case False
  let ?ids = "map nm_id (voters (cx_membership c))"
  let ?ans = "\<lambda>p. re_send env p (vote_request_of n (ro_term b + 1) (lid_or_zero (last_log_id (cx_log c))))"
  have vs: "insert n (set ?ids) = vs"
    and arr: "distinct (re_arrive env (vote_peers n ?ids []))"
      "set (re_arrive env (vote_peers n ?ids [])) = set ?ids - {n}"
    using among vote_peers_distinct [of n ?ids] vote_peers_set [of n ?ids] by (auto simp: votes_among_def)
  have "broadcast_vote_requests n (ro_term b + 1) False ?ids (cx_log c) (re_send env) (re_arrive env) = Inr ()"
    using assms(1,2) False by (simp add: election_answer_def)
  then have "majority_of vs (insert n {p \<in> set ?ids - {n}. grants (?ans p)})"
    using broadcast_ok_iff [where arrive = "re_arrive env", OF arr] vs by simp
  moreover have "(p, Suc (ro_term b), n) \<in> cs_granted s" if "grants (?ans p)" for p
    using that honest
    by (auto simp: grants_def answers_honest_def vote_request_of_def split: sum.splits) force
  ultimately show ?thesis by blast
qed

definition nodes_wf :: "cluster \<Rightarrow> bool" where
  "nodes_wf s = (\<forall>n. node_wf (cs_node s n) \<and> rf_node_id (cs_node s n) = n)"

lemma nodes_wf_role: "nodes_wf s \<Longrightarrow> role_wf n (rf_role (cs_node s n))"
  unfolding nodes_wf_def node_wf_def by metis

lemma won_refines:
  assumes run: "candidate_tick (re_role env) (re_send env) (re_arrive env) b c = ((b', c'), res)"
    and "\<not> timer_pending (re_role env) b" and node: "rf_role (cs_node s n) = Base b" "ss_node_id (ro_shared b) = n"
    and "votes_among vs n env c" and "answers_honest env s" and rf': "rf_role rf' = Base b'"
  shows "(election_step vs)\<^sup>*\<^sup>* (votes_of s)
     (votes_of (elect (cx_events c' = cx_events c @ [BecomeLeader]) n (Suc (ro_term b))
        (cast n (GrantTo n (Suc (ro_term b))) (put_node_state n rf' s))))"
proof -
  let ?t = "Suc (ro_term b)"
  let ?s = "cast n (GrantTo n ?t) (put_node_state n rf' s)"
  obtain h1 where h1: "voter_step (hs_of b) (GrantTo n ?t) h1" "voter_step h1 Idle (hs_of b')"
    and won: "cx_events c' = cx_events c @ [BecomeLeader] \<longrightarrow> election_answer (re_send env) (re_arrive env) b c = Inr ()"
    using candidate_tick_vote [OF run assms(2)] node(2) by blast
  let ?v = "(votes_of s)\<lparr>el_hs := (el_hs (votes_of s))(n := h1), el_granted := insert (n, ?t, n) (cs_granted s),
      el_first := first_vote n ?t n (cs_first s)\<rparr>"
  have "election_step vs (votes_of s) ?v"
    using election_step.vote [of "votes_of s" n n ?t h1 vs] h1(1) node(1) by simp
  moreover have "votes_of ?s = ?v\<lparr>el_hs := (el_hs ?v)(n := hs_of b')\<rparr>"
    using rf' by (simp add: votes_of_cast) (simp add: put_node_state_def)
  then have "election_step vs ?v (votes_of ?s)"
    using election_step.idle [of ?v n "hs_of b'" vs] h1(2) by simp
  moreover have "election_step vs (votes_of ?s) (votes_of (elect True n ?t ?s))"
    if ok: "election_answer (re_send env) (re_arrive env) b c = Inr ()"
  proof -
    obtain q where "majority_of vs q" "\<forall>v \<in> q. v = n \<or> (v, ?t, n) \<in> cs_granted s"
      using election_answer_majority [OF ok node(2) assms(5,6)] by blast
    moreover have "cs_granted ?s = insert (n, ?t, n) (cs_granted s)"
      by (simp add: cast_def put_node_state_def)
    ultimately have "majority_of vs q" "\<forall>v \<in> q. (v, ?t, n) \<in> el_granted (votes_of ?s)"
      by auto
    then show ?thesis
      using election_step.win [of vs q ?t n "votes_of ?s"] by (simp add: votes_of_elect)
  qed
  ultimately show ?thesis
    using won by (cases "cx_events c' = cx_events c @ [BecomeLeader]")
      (auto simp: votes_of_elect intro: rtranclp.rtrancl_into_rtrancl)
qed

lemma other_ticks_quiet:
  assumes "role_tick env r c = ((r', c'), res)" and "tick_act env r = Idle"
  shows "quiet r r'"
proof (cases r)
  case (Lead d)
  then show ?thesis
    using assms(1) by (auto simp: role_tick_def on_lead_eq hard_state_frame intro!: quiet_lead)
next
  case (Base b)
  then show ?thesis
    using assms
    by (auto simp: role_tick_def on_base_eq tick_act_def candidate_tick_def follower_tick_def learner_tick_def
        split: node_role.splits if_splits prod.splits intro!: quiet_base)
qed

lemma tick_refines:
  assumes run: "role_tick env (rf_role (cs_node s n)) (rf_ctx (cs_node s n)) = ((r, c), res)"
    and "answers_honest env s" and "votes_among vs n env (rf_ctx (cs_node s n))" and wf: "nodes_wf s"
  shows "(election_step vs)\<^sup>*\<^sup>* (votes_of s)
     (votes_of (elect (wins env (rf_role (cs_node s n)) (rf_ctx (cs_node s n)) c) n
        (Suc (role_term (rf_role (cs_node s n))))
        (cast n (tick_act env (rf_role (cs_node s n)))
          (put_node_state n ((cs_node s n)\<lparr>rf_role := r, rf_ctx := c\<rparr>) s))))"
proof (cases "tick_act env (rf_role (cs_node s n)) = Idle")
  case True
  then show ?thesis
    using quiet_refines [of s n "(cs_node s n)\<lparr>rf_role := r, rf_ctx := c\<rparr>" vs] other_ticks_quiet [OF run]
    by (simp add: wins_def votes_of_elect votes_of_cast r_into_rtranclp del: votes_of_put)
next
  case False
  then obtain b where b: "rf_role (cs_node s n) = Base b" "ro_kind b = NR_Candidate"
      "\<not> timer_pending (re_role env) b"
    by (auto simp: tick_act_def split: raft_role.splits if_splits)
  then obtain b' where b': "r = Base b'"
      "candidate_tick (re_role env) (re_send env) (re_arrive env) b (rf_ctx (cs_node s n)) = ((b', c), res)"
    using run by (auto simp: role_tick_def on_base_eq)
  have me: "ss_node_id (ro_shared b) = n"
    using nodes_wf_role [OF wf, of n] b by (auto dest: base_wf_id)
  then have act: "tick_act env (Base b) = GrantTo n (Suc (ro_term b))"
    using b by (simp add: tick_act_def)
  show ?thesis
    using won_refines [OF b'(2) b(3,1) me assms(3,2), of "(cs_node s n)\<lparr>rf_role := r, rf_ctx := c\<rparr>"] b' b(1) act
    by (simp add: wins_def role_term_def role_shared_def ro_term_def)
qed

lemma become_follower_refines:
  assumes "handle_become_follower env l (cs_node s n) = (rf', res)"
    and may: "may_forget (votes_of s) n (role_term (rf_role (cs_node s n)))"
  shows "(election_step vs)\<^sup>*\<^sup>* (votes_of s) (votes_of (put_node_state n rf' s))"
  using become_follower_role [OF assms(1)]
proof
  assume "role_hs (rf_role rf') = role_hs (rf_role (cs_node s n)) \<and> (leads (rf_role rf') \<longrightarrow> leads (rf_role (cs_node s n)))"
  then have "quiet (rf_role (cs_node s n)) (rf_role rf')"
    by (intro quiet_same) simp_all
  then show ?thesis
    by (intro r_into_rtranclp quiet_refines)
next
  assume "role_hs (rf_role rf') = (role_hs (rf_role (cs_node s n)))\<lparr>hs_voted_for := None\<rparr> \<and> \<not> leads (rf_role rf')"
  moreover have "role_term (rf_role (cs_node s n)) = hs_current_term (el_hs (votes_of s) n)"
    by (simp add: role_term_def ss_term_def)
  ultimately show ?thesis
    using election_step.forget [of "votes_of s" n vs] may by (simp add: r_into_rtranclp)
qed

lemma become_leader_refines:
  assumes "handle_become_leader env (cs_node s n) = (rf', res)" and "nodes_wf s"
    and "(n, role_term (rf_role (cs_node s n))) \<in> cs_elected s"
  shows "(election_step vs)\<^sup>*\<^sup>* (votes_of s) (votes_of (put_node_state n rf' s))"
  using become_leader_role [OF assms(1)]
proof
  assume "rf' = cs_node s n"
  then have "quiet (rf_role (cs_node s n)) (rf_role rf')"
    by (intro quiet_same) simp_all
  then show ?thesis
    by (intro r_into_rtranclp quiet_refines)
next
  let ?t = "role_term (rf_role (cs_node s n))"
  assume "\<exists>d. rf_role rf' = Lead d \<and> ld_hs d = \<lparr>hs_current_term = ?t,
            hs_voted_for = Some (leader_vote (rf_node_id (cs_node s n)) ?t)\<rparr>"
  then have "role_hs (rf_role rf') = \<lparr>hs_current_term = ?t, hs_voted_for = Some (leader_vote n ?t)\<rparr>"
    using assms(2) by (auto simp: nodes_wf_def)
  then have "voter_step (role_hs (rf_role (cs_node s n))) (ContactBy n ?t) (role_hs (rf_role rf'))"
    using voter_step.contact [of "role_hs (rf_role (cs_node s n))" ?t n] by (simp add: role_term_def ss_term_def)
  from voter_step_refines [OF this] show ?thesis
    using assms(3) by (simp add: heard_elected_def votes_of_cast r_into_rtranclp)
qed

lemma contact_same_term:
  "voter_step h (ContactBy l t) h2 \<Longrightarrow> hs_current_term h = hs_current_term h' \<Longrightarrow> voter_step h' (ContactBy l t) h2"
  by (erule voter_contactE) (simp add: voter_step.contact)

lemma replay_refines:
  assumes "handle_become_follower env l (cs_node s n) = (rf1, res1)" and "nodes_wf s"
    and act: "role_act env ev (rf_role rf1) c1 = ContactBy l' t" and "(l', t) \<in> cs_elected s"
    and run: "role_handle_inbound_event env ev (rf_role rf1) c1 = ((r, c), res)"
  shows "election_step vs (votes_of s) (votes_of (put_node_state n (rf1\<lparr>rf_role := r, rf_ctx := c\<rparr>) s))"
proof -
  have "role_wf n (rf_role rf1)"
    using become_follower_node [OF assms(1)] assms(2) unfolding nodes_wf_def keeps_node_def node_wf_def by metis
  from role_inbound_voter_step [OF run this]
  have contact: "voter_step (role_hs (rf_role rf1)) (ContactBy l' t) (role_hs r)"
    unfolding act .
  have "hs_current_term (role_hs (rf_role rf1)) = hs_current_term (role_hs (rf_role (cs_node s n)))"
    using become_follower_role [OF assms(1)] by auto
  then have "voter_step (role_hs (rf_role (cs_node s n))) (ContactBy l' t) (role_hs r)"
    by (rule contact_same_term [OF contact])
  then show ?thesis
    using voter_step_refines [of s n "ContactBy l' t" "rf1\<lparr>rf_role := r, rf_ctx := c\<rparr>" vs] assms(4)
    by (simp add: heard_elected_def votes_of_cast)
qed

lemma restart_refines:
  assumes "cx_disk (rf_ctx (cs_node s n)) = Some (role_hs (rf_role (cs_node s n)))"
  shows "election_step vs (votes_of s) (votes_of (put_node_state n ((cs_node s n)
           \<lparr>rf_role := Base (follower_new env n (cx_disk (rf_ctx (cs_node s n))) applied), rf_ctx := c\<rparr>) s))"
  by (intro quiet_refines quiet_same) (simp_all add: assms follower_new_def shared_new_def)

lemma client_quiet:
  "role_push_client_cmd env cmd r c = (r', c') \<Longrightarrow> quiet r r'"
  "role_flush_cmd_buffers env r c = ((r', c'), res) \<Longrightarrow> quiet r r'"
  by (auto simp: role_push_client_cmd_def role_flush_cmd_buffers_def on_lead_eq case_prod_beta hard_state_frame
      split: raft_role.splits intro!: quiet_same)

lemma cluster_step_refines:
  assumes "cluster_step vs s s'" and "nodes_wf s"
  shows "(election_step vs)\<^sup>*\<^sup>* (votes_of s) (votes_of s')"
  using assms
proof (induction rule: cluster_step.induct)
  case (inbound rf s n a env ev r c res)
  then show ?case
    using voter_step_refines [of s n a "rf\<lparr>rf_role := r, rf_ctx := c\<rparr>" vs]
      role_inbound_voter_step [OF inbound(4) ] nodes_wf_role [OF inbound(5), of n]
    by (intro r_into_rtranclp) (simp del: votes_of_put)
next
  case (tick rf s n env r c res)
  then show ?case
    using tick_refines by blast
next
  case (internal rf s n ev env rf' res)
  consider "ev = BecomeLeader" | l where "ev = BecomeFollower l" | "ev \<noteq> BecomeLeader" "\<forall>l. ev \<noteq> BecomeFollower l"
    by blast
  then show ?case
  proof cases
    case 1
    then show ?thesis
      using internal become_leader_refines by (auto simp: handle_internal_event_def simp del: votes_of_put)
  next
    case 2
    then show ?thesis
      using internal become_follower_refines by (auto simp: handle_internal_event_def simp del: votes_of_put)
  next
    case 3
    then show ?thesis
      using internal internal_event_quiet by (intro r_into_rtranclp quiet_refines) auto
  qed
next
  case (replay rf s n env l rf1 res1 ev c1 l' t r c res)
  then show ?case
    using replay_refines by (auto simp: handle_internal_event_def simp del: votes_of_put)
next
  case (push rf s n env cmd r c)
  then show ?case
    using client_quiet(1) by (intro r_into_rtranclp quiet_refines) auto
next
  case (flush rf s n env r c res)
  then show ?case
    using client_quiet(2) by (intro r_into_rtranclp quiet_refines) auto
next
  case (local rf s n rf')
  then show ?case
    by (intro r_into_rtranclp quiet_refines quiet_same) auto
next
  case (restart rf s n env applied c)
  then show ?case
    using restart_refines by (auto simp del: votes_of_put)
qed

section \<open>The invariant\<close>

lemma nodes_wf_put:
  assumes "nodes_wf s" and "keeps_node (cs_node s n) rf'"
  shows "nodes_wf (put_node_state n rf' s)"
  using assms by (auto simp: nodes_wf_def put_node_state_def keeps_node_def)

lemma nodes_wf_history [simp]:
  "nodes_wf (cast n a s) = nodes_wf s" "nodes_wf (elect won n t s) = nodes_wf s"
  by (simp_all add: nodes_wf_def cast_def elect_def split: voter_act.split)

lemma cluster_step_wf:
  assumes "cluster_step vs s s'" and "nodes_wf s"
  shows "nodes_wf s'"
  using assms
proof (induction rule: cluster_step.induct)
  case (inbound rf s n a env ev r c res)
  then show ?case
    by (auto intro!: nodes_wf_put keeps_node_role dest: role_inbound_wf)
next
  case (tick rf s n env r c res)
  then show ?case
    by (auto intro!: nodes_wf_put keeps_node_role dest: role_tick_wf)
next
  case (internal rf s n ev env rf' res)
  then show ?case
    by (auto intro!: nodes_wf_put dest: internal_event_node)
next
  case (replay rf s n env l rf1 res1 ev c1 l' t r c res)
  have "keeps_node rf rf1"
    by (rule internal_event_node [OF replay(2)])
  moreover have "keeps_node rf1 (rf1\<lparr>rf_role := r, rf_ctx := c\<rparr>)"
    by (rule keeps_node_role) (rule role_inbound_wf [OF replay(5)])
  ultimately show ?case
    using replay(1,6) by (auto intro!: nodes_wf_put dest: keeps_node_trans)
next
  case (push rf s n env cmd r c)
  then show ?case
    by (auto intro!: nodes_wf_put keeps_node_role dest: role_push_wf)
next
  case (flush rf s n env r c res)
  then show ?case
    by (auto intro!: nodes_wf_put keeps_node_role dest: role_flush_wf)
next
  case (local rf s n rf')
  then show ?case
    by (auto intro!: nodes_wf_put keeps_node_same)
next
  case (restart rf s n c env applied)
  have "role_wf n (Base (follower_new env n h applied))" for h
    by (simp add: base_wf_def follower_new_def shared_new_def)
  then show ?case
    using restart
    by (intro nodes_wf_put) (simp_all add: keeps_node_def node_wf_def, simp add: nodes_wf_def)
qed

text \<open>A leader carries its own leader vote for a term it won.\<close>

definition leaders_elected :: "cluster \<Rightarrow> bool" where
  "leaders_elected s =
     (\<forall>n d. rf_role (cs_node s n) = Lead d \<longrightarrow>
        (\<exists>t. hs_voted_for (ld_hs d) = Some (leader_vote n t) \<and> (n, t) \<in> cs_elected s))"

lemma quiet_leader:
  assumes "quiet r (Lead d')"
  shows "\<exists>d. r = Lead d \<and> hs_voted_for (ld_hs d') = hs_voted_for (ld_hs d)"
proof (cases r)
  case (Lead d)
  then show ?thesis
    using assms by (auto simp: quiet_def elim: voter_idleE)
qed (use assms in \<open>simp add: quiet_def\<close>)

lemma leaders_put:
  assumes "leaders_elected s"
    and "\<And>d. rf_role rf' = Lead d \<Longrightarrow> \<exists>t. hs_voted_for (ld_hs d) = Some (leader_vote n t) \<and> (n, t) \<in> cs_elected s"
  shows "leaders_elected (put_node_state n rf' s)"
  using assms by (auto simp: leaders_elected_def put_node_state_def)

lemma leaders_put_quiet:
  assumes "leaders_elected s" and "leads (rf_role rf') \<Longrightarrow> quiet (rf_role (cs_node s n)) (rf_role rf')"
  shows "leaders_elected (put_node_state n rf' s)"
  using assms by (intro leaders_put) (auto simp: leaders_elected_def dest!: quiet_leader)

lemma leaders_history:
  "leaders_elected s \<Longrightarrow> leaders_elected (cast n a s)" "leaders_elected s \<Longrightarrow> leaders_elected (elect won n t s)"
  by (auto simp: leaders_elected_def cast_def elect_def split: voter_act.split)

lemma inbound_leads:
  assumes "role_handle_inbound_event env ev r c = ((r', c'), res)" and "role_wf me r" and "leads r'"
  shows "quiet r r'"
  using assms role_inbound_voter_step [OF assms(1,2)]
  by (auto simp: role_handle_inbound_event_def on_lead_eq on_base_eq role_act_def quiet_def split: raft_role.splits)

lemma tick_leads:
  assumes "role_tick env r c = ((r', c'), res)" and "leads r'"
  shows "quiet r r'"
  using assms by (intro other_ticks_quiet [OF assms(1)])
    (auto simp: role_tick_def on_base_eq tick_act_def split: raft_role.splits)

lemma cluster_step_leaders:
  assumes "cluster_step vs s s'" and "nodes_wf s" and "leaders_elected s"
  shows "leaders_elected s'"
  using assms
proof (induction rule: cluster_step.induct)
  case (inbound rf s n a env ev r c res)
  then show ?case
    using inbound_leads [OF inbound(4)] nodes_wf_role [OF inbound(5), of n]
    by (auto intro!: leaders_history leaders_put_quiet)
next
  case (tick rf s n env r c res)
  then show ?case
    using tick_leads [OF tick(4)]
    by (auto intro!: leaders_history leaders_put_quiet)
next
  case (internal rf s n ev env rf' res)
  consider "ev = BecomeLeader" | l where "ev = BecomeFollower l" | "ev \<noteq> BecomeLeader" "\<forall>l. ev \<noteq> BecomeFollower l"
    by blast
  then show ?case
  proof cases
    case 1
    then have run: "handle_become_leader env (cs_node s n) = (rf', res)" and "rf_node_id (cs_node s n) = n"
      using internal by (simp_all add: handle_internal_event_def nodes_wf_def)
    then show ?thesis
      using become_leader_role [OF run] internal 1 by (intro leaders_put) (auto simp: leaders_elected_def)
  next
    case 2
    then have run: "handle_become_follower env l (cs_node s n) = (rf', res)"
      using internal by (simp add: handle_internal_event_def)
    have "quiet (rf_role (cs_node s n)) (rf_role rf')" if "leads (rf_role rf')"
      using become_follower_role [OF run] that by (auto intro: quiet_same)
    then show ?thesis
      using internal by (auto intro: leaders_put_quiet)
  next
    case 3
    then show ?thesis
      using internal internal_event_quiet by (intro leaders_put_quiet) auto
  qed
next
  case (replay rf s n env l rf1 res1 ev c1 l' t r c res)
  have "\<not> leads (rf_role rf1)"
    using replay(3) by (auto simp: role_act_def leads_def split: raft_role.splits)
  then have "\<not> leads r"
    using replay(5) by (auto simp: role_handle_inbound_event_def on_base_eq leads_def split: raft_role.splits)
  then show ?case
    using replay by (intro leaders_put_quiet) auto
next
  case (push rf s n env cmd r c)
  then show ?case
    using client_quiet(1) by (intro leaders_put_quiet) auto
next
  case (flush rf s n env r c res)
  then show ?case
    using client_quiet(2) by (intro leaders_put_quiet) auto
next
  case (local rf s n rf')
  then show ?case
    by (intro leaders_put_quiet quiet_same) auto
next
  case (restart rf s n c env applied)
  then show ?case
    by (intro leaders_put) auto
qed

lemma cluster_inv_step:
  assumes "(cluster_step vs)\<^sup>*\<^sup>* s s'" and "nodes_wf s" and "leaders_elected s" and "election_inv vs (votes_of s)"
  shows "nodes_wf s' \<and> leaders_elected s' \<and> election_inv vs (votes_of s')"
  using assms
proof (induction rule: rtranclp_induct)
  case (step s1 s2)
  then show ?case
    using cluster_step_wf cluster_step_leaders cluster_step_refines election_steps_inv by blast
qed simp

lemma cluster_init_inv:
  assumes "cluster_init s"
  shows "nodes_wf s" and "leaders_elected s" and "election_inv vs (votes_of s)"
  using assms
  by (simp_all add: cluster_init_def nodes_wf_def leaders_elected_def election_inv_def no_early_votes_def
      vote_recorded_def votes_first_def firsts_granted_def winners_backed_def)

text \<open>The term a leader was elected in: that of its own leader vote.\<close>

definition led_term :: "leader_state \<Rightarrow> u64 option" where
  "led_term d = map_option vf_term (ss_voted_for (ld_shared d))"

text \<open>C2: election safety under the conditions on the steps.  The nodes run the handlers of the
  Raft loop, interleaved freely, from a start without leaders and votes.  If leaders are heard
  only after their election, \<^verbatim>\<open>BecomeLeader\<close> is handled only in a term the node was elected in,
  \<^verbatim>\<open>BecomeFollower\<close> only by a node that gave no vote in its term or was outvoted (or together with
  the event of an elected leader), granted answers are ones the peers gave, all candidates ask
  the same fixed set of voters, and nodes restart from a saved hard state, then two nodes that
  lead with the same election term are the same node.\<close>

theorem election_safety:
  assumes "cluster_init s0" and "(cluster_step vs)\<^sup>*\<^sup>* s0 s"
    and "rf_role (cs_node s a) = Lead d1" and "rf_role (cs_node s b) = Lead d2"
    and "led_term d1 = led_term d2"
  shows "a = b"
proof -
  have inv: "leaders_elected s" "election_inv vs (votes_of s)"
    using cluster_inv_step [OF assms(2) cluster_init_inv [OF assms(1)]] by simp_all
  obtain t u where t: "ss_voted_for (ld_shared d1) = Some (leader_vote a t)" "(a, t) \<in> cs_elected s"
    and u: "ss_voted_for (ld_shared d2) = Some (leader_vote b u)" "(b, u) \<in> cs_elected s"
    using inv(1) assms(3,4) unfolding leaders_elected_def ss_voted_for_def by blast
  have "t = u"
    using assms(5) t(1) u(1) by (simp add: led_term_def leader_vote_def)
  then show ?thesis
    using winners_unique [of vs "votes_of s" a t b] inv(2) t(2) u(2) by (simp add: election_inv_def)
qed

text \<open>Node 2 grants node 1 its vote, node 1 wins the election of term 2 and becomes leader.\<close>

definition ex_cluster_start :: cluster where
  "ex_cluster_start =
     \<lparr>cs_node = (\<lambda>n. ex_node n (Base (if n = 1 then ex_candidate n else ex_follower n))),
      cs_granted = {}, cs_first = (\<lambda>_ _. None), cs_elected = {}\<rparr>"

definition ex_vote_env :: raft_env where
  "ex_vote_env = ex_raft_env\<lparr>re_send := (\<lambda>p q. if p = 2 \<and> vq_term q = 2 \<and> vq_candidate_id q = 1
                                              then ex_grant p q else Inl (NoVotingMemberFound p))\<rparr>"

lemma ex_start_init: "cluster_init ex_cluster_start"
  by (auto simp: cluster_init_def ex_cluster_start_def node_wf_def base_wf_def ex_node_defs)

lemma ex_vote_act:
  "role_act ex_vote_env (ReceiveVoteRequest (vote_request_of 1 2 (mk_lid 1 3)) 7) (Base (ex_follower 2)) (ex_context 2)
   = GrantTo 1 2"
  by (simp add: role_act_def voter_act_of_def ex_node_defs handle_vote_request_def ex_last_log ro_term_def ss_term_def
      ss_voted_for_def vote_request_of_def Let_def lid_or_zero_def is_target_log_more_recent_def)

lemma ex_election_tick:
  "\<exists>b c. role_tick ex_vote_env (Base (ex_candidate 1)) (ex_context 1) = ((Base b, c), Inr ())
     \<and> cx_events c = [BecomeLeader] \<and> ro_kind b = NR_Candidate \<and> ro_term b = 2"
  by (simp add: role_tick_def ex_vote_env_def ex_env_defs ex_node_defs on_base_def candidate_tick_def case_prod_beta
      reset_timer_def ro_term_def ss_term_def commit_hard_state_def set_hard_state_def Let_def own_vote_def
      persist_hard_state_def save_hard_state_def ex_log_fields ex_voters send_event_def)
    (simp add: broadcast_vote_requests_def ex_voter_def ex_last_log lid_or_zero_def vote_request_of_def ex_grant_def
      Let_def bind_result_def is_majority_def persist_hard_state_def save_hard_state_def ex_log_fields send_event_def)

text \<open>After the vote of node 2.\<close>

lemma ex_vote_step:
  "\<exists>s. cluster_step {1, 2, 3} ex_cluster_start s \<and> cs_node s 1 = ex_node 1 (Base (ex_candidate 1))
     \<and> cs_granted s = {(2, 2, 1)}"
proof -
  let ?ev = "ReceiveVoteRequest (vote_request_of 1 2 (mk_lid 1 3)) 7"
  let ?n2 = "ex_node 2 (Base (ex_follower 2))"
  obtain r2 c2 x2 where vote: "role_handle_inbound_event ex_vote_env ?ev (rf_role ?n2) (rf_ctx ?n2) = ((r2, c2), x2)"
    by (metis prod.collapse)
  let ?s = "cast 2 (GrantTo 1 2) (put_node_state 2 (?n2\<lparr>rf_role := r2, rf_ctx := c2\<rparr>) ex_cluster_start)"
  have "cs_node ex_cluster_start 2 = ?n2"
    by (simp add: ex_cluster_start_def)
  then have "cluster_step {1, 2, 3} ex_cluster_start ?s"
    using cluster_step.inbound [OF _ _ _ vote, of ex_cluster_start 2 "GrantTo 1 2"] ex_vote_act
    by (simp add: heard_elected_def ex_node_def)
  moreover have "cs_node ?s 1 = ex_node 1 (Base (ex_candidate 1))" "cs_granted ?s = {(2, 2, 1)}"
    by (simp_all add: cast_def put_node_state_def ex_cluster_start_def)
  ultimately show ?thesis by blast
qed

text \<open>After the tick of node 1.\<close>

lemma ex_tick_step:
  assumes "cs_node s 1 = ex_node 1 (Base (ex_candidate 1))" and "cs_granted s = {(2, 2, 1)}"
  shows "\<exists>s' b c. cluster_step {1, 2, 3} s s' \<and> (1, 2) \<in> cs_elected s' \<and> ro_kind b = NR_Candidate \<and> ro_term b = 2
     \<and> cs_node s' 1 = (ex_node 1 (Base b))\<lparr>rf_ctx := c\<rparr>"
proof -
  let ?n1 = "ex_node 1 (Base (ex_candidate 1))"
  obtain b c where tick: "role_tick ex_vote_env (rf_role ?n1) (rf_ctx ?n1) = ((Base b, c), Inr ())"
    and b: "cx_events c = [BecomeLeader]" "ro_kind b = NR_Candidate" "ro_term b = 2"
    using ex_election_tick by (auto simp: ex_node_def)
  have "answers_honest ex_vote_env s"
    using assms(2) by (simp add: answers_honest_def ex_vote_env_def)
  moreover have "votes_among {1, 2, 3} 1 ex_vote_env (rf_ctx ?n1)"
    by (auto simp: votes_among_def ex_node_def ex_context_def ex_voters ex_voter_def ex_vote_env_def ex_raft_env_def)
  ultimately have "cluster_step {1, 2, 3} s
      (elect (wins ex_vote_env (rf_role ?n1) (rf_ctx ?n1) c) 1 (Suc (role_term (rf_role ?n1)))
        (cast 1 (tick_act ex_vote_env (rf_role ?n1)) (put_node_state 1 (?n1\<lparr>rf_role := Base b, rf_ctx := c\<rparr>) s)))"
    (is "cluster_step _ s ?s") using cluster_step.tick [OF assms(1) [symmetric] _ _ tick] by blast
  moreover have "tick_act ex_vote_env (rf_role ?n1) = GrantTo 1 2" "role_term (rf_role ?n1) = 1"
    by (simp_all add: tick_act_def role_term_def role_shared_def ro_term_def ss_term_def ex_vote_env_def ex_env_defs
        ex_node_defs)
  then have "(1, 2) \<in> cs_elected ?s"
    using b(1) by (simp add: elect_def wins_def ex_node_def ex_context_def)
  moreover have "cs_node ?s 1 = (ex_node 1 (Base b))\<lparr>rf_ctx := c\<rparr>"
    by (simp add: elect_def cast_def put_node_state_def ex_node_def split: voter_act.split)
  ultimately show ?thesis using b by blast
qed

lemma ex_leader_step:
  assumes "cs_node s 1 = (ex_node 1 (Base b))\<lparr>rf_ctx := c\<rparr>" and "ro_kind b = NR_Candidate" and "ro_term b = 2"
    and "(1, 2) \<in> cs_elected s"
  shows "\<exists>s' d. cluster_step {1, 2, 3} s s' \<and> rf_role (cs_node s' 1) = Lead d \<and> led_term d = Some 2"
proof -
  obtain rf' x where run: "handle_become_leader ex_raft_env (cs_node s 1) = (rf', x)" by fastforce
  have t: "role_term (rf_role (cs_node s 1)) = 2"
    using assms(1,3) by (simp add: ex_node_def role_term_def role_shared_def ro_term_def)
  have "role_become_leader ex_raft_env (rf_role (cs_node s 1)) = Inr (leader_of_candidate (re_leader ex_raft_env) b)"
    using assms(1,2) by (simp add: ex_node_def role_become_leader_def)
  from become_leader_shared [OF run this] obtain d where d: "rf_role rf' = Lead d"
    by auto
  then have "rf' \<noteq> cs_node s 1"
    using assms(1) by (auto simp: ex_node_def)
  then have "led_term d = Some 2"
    using become_leader_role [OF run] d t by (auto simp: led_term_def ss_voted_for_def leader_vote_def)
  moreover have "cluster_step {1, 2, 3} s (put_node_state 1 rf' s)"
    using cluster_step.internal [OF refl, of BecomeLeader 1 s ex_raft_env rf' x] run t assms(4)
    by (simp add: handle_internal_event_def)
  ultimately show ?thesis
    using d by (auto simp: put_node_state_def)
qed

theorem election_safety_witness:
  "\<exists>s. cluster_init ex_cluster_start \<and> (cluster_step {1, 2, 3})\<^sup>*\<^sup>* ex_cluster_start s
     \<and> {n. \<exists>d. rf_role (cs_node s n) = Lead d \<and> led_term d = Some 2} = {1}"
proof -
  obtain s1 where s1: "cluster_step {1, 2, 3} ex_cluster_start s1" "cs_granted s1 = {(2, 2, 1)}"
      "cs_node s1 1 = ex_node 1 (Base (ex_candidate 1))"
    using ex_vote_step by blast
  obtain s2 b c where s2: "cluster_step {1, 2, 3} s1 s2" "(1, 2) \<in> cs_elected s2" "ro_kind b = NR_Candidate"
      "ro_term b = 2" "cs_node s2 1 = (ex_node 1 (Base b))\<lparr>rf_ctx := c\<rparr>"
    using ex_tick_step [OF s1(3,2)] by blast
  obtain s3 d where s3: "cluster_step {1, 2, 3} s2 s3" "rf_role (cs_node s3 1) = Lead d" "led_term d = Some 2"
    using ex_leader_step [OF s2(5,3,4,2)] by blast
  have run: "(cluster_step {1, 2, 3})\<^sup>*\<^sup>* ex_cluster_start s3"
    using s1(1) s2(1) s3(1) by (auto intro: rtranclp.rtrancl_into_rtrancl)
  have "n = 1" if "rf_role (cs_node s3 n) = Lead d'" and "led_term d' = Some 2" for n d'
    using election_safety [OF ex_start_init run that(1) s3(2)] that(2) s3(3) by simp
  then show ?thesis
    using ex_start_init run s3(2,3) by blast
qed

end
