(* ===== verification/Election_Properties.thy ===== *)
theory Election_Properties
  imports Raft_Cluster
begin

text \<open>
  The properties of elections: how the handlers of all roles refine the voting rule, that a
  node answers only from a saved hard state, exactly when a broadcast wins, and the cases in
  which the code departs from Raft.
\<close>

section \<open>The voting rule\<close>

text \<open>C10: every inbound event at every role is a step of the voting rule.  Whatever event the
  node handles and whatever the handler returns, its term and vote change as the rule allows:
  the term never falls, a vote is given only when the node's vote of that term is free or
  already the candidate's, and otherwise the vote changes only by hearing a leader of a term
  that is not stale.\<close>

theorem inbound_events_refine_voting_rule:
  assumes "role_handle_inbound_event env ev r c = ((r', c'), res)" and "role_wf me r"
  shows "voter_step (ss_hard_state (role_shared r)) (role_act env ev r c) (ss_hard_state (role_shared r'))"
  using assms by (rule role_inbound_voter_step)

lemma ex_vote_run:
  "\<exists>r c. role_handle_inbound_event ex_raft_env (ReceiveVoteRequest (vote_request_of 1 2 (mk_lid 1 3)) 7)
      (Base (ex_follower 2)) (ex_context 2) = ((r, c), Inr ())
     \<and> cx_sent c = [(7, VoteReply \<lparr>vr_term = 1, vr_granted = True, vr_last_log_index = 3, vr_last_log_term = 1\<rparr>)]"
  by (simp add: role_handle_inbound_event_def on_base_def follower_handle_inbound_event_def follower_vote_request_def
      Let_def handle_vote_request_def ex_env_defs ex_node_defs ex_last_log lid_or_zero_def vote_request_of_def
      ro_term_def ss_term_def ss_voted_for_def is_target_log_more_recent_def commit_hard_state_def set_hard_state_def
      reset_timer_def vote_response_of_def send_reply_def case_prod_beta persist_hard_state_def save_hard_state_def
      ex_log_fields)

theorem inbound_events_refine_voting_rule_witness:
  "\<exists>r' c'. role_handle_inbound_event ex_raft_env (ReceiveVoteRequest (vote_request_of 1 2 (mk_lid 1 3)) 7)
      (Base (ex_follower 2)) (ex_context 2) = ((r', c'), Inr ())
     \<and> voter_step \<lparr>hs_current_term = 1, hs_voted_for = None\<rparr> (GrantTo 1 2) (ss_hard_state (role_shared r'))"
proof -
  have "role_wf 2 (Base (ex_follower 2))"
    by (simp add: base_wf_def ex_node_defs)
  moreover have "role_act ex_raft_env (ReceiveVoteRequest (vote_request_of 1 2 (mk_lid 1 3)) 7) (Base (ex_follower 2))
      (ex_context 2) = GrantTo 1 2"
    using ex_vote_act by (simp add: role_act_def ex_vote_env_def)
  moreover have "ss_hard_state (role_shared (Base (ex_follower 2))) = \<lparr>hs_current_term = 1, hs_voted_for = None\<rparr>"
    by (simp add: ex_node_defs)
  ultimately show ?thesis
    using ex_vote_run inbound_events_refine_voting_rule [where r = "Base (ex_follower 2)" and env = ex_raft_env]
    by metis
qed

section \<open>Durability of votes\<close>

text \<open>C11: a follower, candidate or learner whose hard state is saved answers only from a saved
  hard state: when handling an event sends any reply, the hard state on disk afterwards is the
  one in memory, so no answer depends on a vote or a term that a crash would lose.\<close>

theorem answers_only_when_saved:
  assumes "role_handle_inbound_event env ev (Base b) c = ((Base b', c'), res)" and "base_wf me b"
    and "cx_disk c = Some (ss_hard_state (ro_shared b))" and "cx_sent c' \<noteq> cx_sent c"
  shows "cx_disk c' = Some (ss_hard_state (ro_shared b'))"
proof -
  have "answered_durably c b' c'"
    using assms(1-3)
    by (auto simp: role_handle_inbound_event_def on_base_eq base_wf_def split: node_role.splits
        dest: follower_inbound_durable candidate_inbound_durable learner_inbound_durable)
  then show ?thesis
    using assms(4) by (simp add: answered_durably_def)
qed

theorem answers_only_when_saved_witness:
  "\<exists>b' c'. role_handle_inbound_event ex_raft_env (ReceiveVoteRequest (vote_request_of 1 2 (mk_lid 1 3)) 7)
      (Base (ex_follower 2)) (ex_context 2) = ((Base b', c'), Inr ())
     \<and> cx_sent c' \<noteq> [] \<and> cx_disk c' = Some (ss_hard_state (ro_shared b'))"
proof -
  obtain r c where run: "role_handle_inbound_event ex_raft_env (ReceiveVoteRequest (vote_request_of 1 2 (mk_lid 1 3)) 7)
      (Base (ex_follower 2)) (ex_context 2) = ((r, c), Inr ())" and sent: "cx_sent c \<noteq> []"
    using ex_vote_run by force
  obtain b' where b': "r = Base b'"
    using run by (auto simp: role_handle_inbound_event_def on_base_eq)
  have "base_wf 2 (ex_follower 2)" "cx_disk (ex_context 2) = Some (ss_hard_state (ro_shared (ex_follower 2)))"
    and "cx_sent (ex_context 2) = []"
    by (simp_all add: base_wf_def ex_node_defs)
  then show ?thesis
    using answers_only_when_saved [OF run [unfolded b']] run b' sent by auto
qed

text \<open>a vote can be granted that was never saved.  When saving the vote fails, the follower
  keeps it in memory and returns the error; the candidate's retry then finds the same vote,
  takes the hard state for unchanged and is answered with a granted vote, while the disk still
  has the old hard state.\<close>

theorem vote_granted_without_save:
  assumes "is_target_log_more_recent (lid_index (lid_or_zero (last_log_id (cx_log c))))
           (lid_term (lid_or_zero (last_log_id (cx_log c)))) (vq_last_log_index q) (vq_last_log_term q)"
    and "ro_term r < vq_term q" and "en_save env = (\<lambda>_. Inl e)" and "\<not> rl_poisoned (cx_log c)"
    and "en_listening env ch2"
  shows "\<exists>r1 c1 r2 c2 a. follower_vote_request env q ch r c = ((r1, c1), Inl e)
     \<and> follower_vote_request env q ch2 r1 c1 = ((r2, c2), Inr ())
     \<and> cx_sent c2 = cx_sent c @ [(ch2, VoteReply a)] \<and> vr_granted a \<and> cx_disk c2 = cx_disk c"
proof -
  obtain r1 c1 where r1: "follower_vote_request env q ch r c = ((r1, c1), Inl e)"
      "hs_of r1 = \<lparr>hs_current_term = vq_term q, hs_voted_for = Some (own_vote (vq_candidate_id q) (vq_term q))\<rparr>"
      "cx_disk c1 = cx_disk c" "cx_sent c1 = cx_sent c" "last_log_id (cx_log c1) = last_log_id (cx_log c)"
    using failed_save_keeps_vote [OF assms(1-4)] by blast
  then show ?thesis
    using same_vote_granted_again [of r1 q c1 env ch2] assms(1,5) by force
qed

theorem vote_granted_without_save_witness:
  "\<exists>r1 c1 r2 c2 a.
     follower_vote_request (ex_role_env\<lparr>en_save := \<lambda>_. Inl (Fatal ''disk'')\<rparr>) (vote_request_of 1 2 (mk_lid 1 3)) 7
       (ex_follower 2) (ex_context 2) = ((r1, c1), Inl (Fatal ''disk''))
     \<and> follower_vote_request (ex_role_env\<lparr>en_save := \<lambda>_. Inl (Fatal ''disk'')\<rparr>) (vote_request_of 1 2 (mk_lid 1 3)) 8
         r1 c1 = ((r2, c2), Inr ())
     \<and> cx_sent c2 = [(8, VoteReply a)] \<and> vr_granted a \<and> cx_disk c2 = Some \<lparr>hs_current_term = 1, hs_voted_for = None\<rparr>"
  using vote_granted_without_save [of "ex_context 2" "vote_request_of 1 2 (mk_lid 1 3)" "ex_follower 2"
      "ex_role_env\<lparr>en_save := \<lambda>_. Inl (Fatal ''disk'')\<rparr>" "Fatal ''disk''" 8 7]
  by (simp add: ex_node_defs ex_last_log lid_or_zero_def vote_request_of_def ro_term_def ss_term_def
      is_target_log_more_recent_def ex_role_env_def ex_log_fields)

section \<open>The broadcast\<close>

text \<open>C12: a candidate of a cluster with more than one node wins exactly when no answer ends the
  tally and the nodes that granted their vote, the candidate included, are a majority of the
  voters, at least one of which is another node.  An answer ends the tally when it denies the
  vote with a higher term or from a log at least as recent as the candidate's.\<close>

theorem election_won_iff_majority:
  assumes "distinct (arrive (vote_peers my_id ids []))"
    and "set (arrive (vote_peers my_id ids [])) = set ids - {my_id}"
  shows "broadcast_vote_requests my_id trm False ids l send arrive = Inr ()
     \<longleftrightarrow> set ids - {my_id} \<noteq> {}
        \<and> (\<forall>p \<in> set ids - {my_id}.
              \<not> refuses trm (lid_or_zero (last_log_id l)) (send p (vote_request_of my_id trm (lid_or_zero (last_log_id l)))))
        \<and> majority_of (insert my_id (set ids))
             (insert my_id {p \<in> set ids - {my_id}. grants (send p (vote_request_of my_id trm (lid_or_zero (last_log_id l))))})"
  by (rule broadcast_ok_iff [where arrive = arrive, OF assms])

definition ex_split_vote :: "node_id \<Rightarrow> vote_request \<Rightarrow> vote_response result" where
  "ex_split_vote p q =
     (if p = 2 then Inr \<lparr>vr_term = vq_term q, vr_granted = True, vr_last_log_index = 3, vr_last_log_term = 1\<rparr>
      else Inr \<lparr>vr_term = vq_term q, vr_granted = False, vr_last_log_index = 1, vr_last_log_term = 1\<rparr>)"

theorem election_won_iff_majority_witness:
  "broadcast_vote_requests 1 2 False [2, 3] ex_log ex_split_vote id = Inr ()"
proof -
  have "set [2, 3 :: nat] - {1} = {2, 3}"
    by auto
  moreover have "{p \<in> {2, 3 :: nat}. grants (ex_split_vote p (vote_request_of 1 2 (mk_lid 1 3)))} = {2}"
    by (auto simp: grants_def ex_split_vote_def)
  moreover have "majority_of (insert 1 (set [2, 3])) (insert 1 {2 :: nat})"
    by (simp add: majority_of_def is_majority_def)
  moreover have "\<not> refuses 2 (mk_lid 1 3) (ex_split_vote p (vote_request_of 1 2 (mk_lid 1 3)))" for p
    by (simp add: refuses_def ex_split_vote_def vote_request_of_def is_target_log_more_recent_def)
  ultimately show ?thesis
    using election_won_iff_majority [of id 1 "[2, 3]" 2 ex_log ex_split_vote]
    by (simp add: ex_last_log lid_or_zero_def)
qed

text \<open>one denial from a peer whose log equals the candidate's ends the election, however
  many other peers grant their vote.  The denying peer has merely voted for another candidate
  of the term, and its log is no more recent; the message the code logs says it is.\<close>

theorem equal_log_denial_ends_election:
  assumes "p \<in> set ids" and "p \<noteq> my_id" and "arrive (vote_peers my_id ids []) = pre @ p # post"
    and "\<forall>k \<in> set pre. grants (send k (vote_request_of my_id trm (lid_or_zero (last_log_id l))))"
    and "send p (vote_request_of my_id trm (lid_or_zero (last_log_id l))) = Inr a" and "\<not> vr_granted a" and "vr_term a \<le> trm"
    and "vr_last_log_index a = lid_index (lid_or_zero (last_log_id l))"
    and "vr_last_log_term a = lid_term (lid_or_zero (last_log_id l))"
  shows "broadcast_vote_requests my_id trm False ids l send arrive
     = Inl (LogConflict (vr_last_log_index a) (vr_last_log_term a) (vr_last_log_term a))"
proof -
  let ?lst = "lid_or_zero (last_log_id l)"
  let ?ask = "\<lambda>p. send p (vote_request_of my_id trm ?lst)"
  have "tally_votes trm ?lst n (map ?ask pre @ rs) = tally_votes trm ?lst (n + length pre) rs" for n rs
    using assms(4)
  proof (induction pre arbitrary: n)
    case (Cons k pre)
    then obtain v where "?ask k = Inr v" "vr_granted v"
      by (auto simp: grants_def split: sum.splits)
    then show ?case
      using Cons by simp
  qed simp
  then have "tally_votes trm ?lst 1 (map ?ask (arrive (vote_peers my_id ids [])))
      = Inl (LogConflict (lid_index ?lst) (lid_term ?lst) (vr_last_log_term a))"
    using assms(3,5-) by (simp add: if_higher_term_found_def more_recent_refl)
  then show ?thesis
    using assms(1,8,9) by (auto simp: broadcast_vote_requests_def Let_def bind_result_def)
qed

definition ex_rival_vote :: "node_id \<Rightarrow> vote_request \<Rightarrow> vote_response result" where
  "ex_rival_vote p q =
     Inr \<lparr>vr_term = vq_term q, vr_granted = (p \<noteq> 4), vr_last_log_index = 3, vr_last_log_term = 1\<rparr>"

theorem equal_log_denial_ends_election_witness:
  "broadcast_vote_requests 1 2 False [2, 3, 4, 5] ex_log ex_rival_vote id = Inl (LogConflict 3 1 1)
   \<and> majority_of {1, 2, 3, 4, 5} (insert 1 {p \<in> {2, 3, 5}. grants (ex_rival_vote p (vote_request_of 1 2 (mk_lid 1 3)))})"
proof
  have "vote_peers 1 [2, 3, 4, 5] [] = [2, 3] @ 4 # [5]"
    by simp
  then show "broadcast_vote_requests 1 2 False [2, 3, 4, 5] ex_log ex_rival_vote id = Inl (LogConflict 3 1 1)"
    using equal_log_denial_ends_election [of 4 "[2, 3, 4, 5]" 1 id "[2, 3]" "[5]" ex_rival_vote 2 ex_log]
    by (simp add: ex_rival_vote_def grants_def vote_request_of_def ex_last_log lid_or_zero_def)
  have "{p \<in> {2, 3, 5 :: nat}. grants (ex_rival_vote p (vote_request_of 1 2 (mk_lid 1 3)))} = {2, 3, 5}"
    by (auto simp: grants_def ex_rival_vote_def)
  then show "majority_of {1, 2, 3, 4, 5}
      (insert 1 {p \<in> {2, 3, 5}. grants (ex_rival_vote p (vote_request_of 1 2 (mk_lid 1 3)))})"
    by (simp add: majority_of_def is_majority_def)
qed

section \<open>Votes across terms\<close>

text \<open>C39: a follower that voted in an earlier term and then refuses a candidate of a new term
  because of its log adopts the term but keeps the old vote, and from then on refuses every
  candidate of that term, also the ones whose log is up to date and for whom it could vote.\<close>

theorem refused_candidate_blocks_term:
  assumes "follower_vote_request env q ch r c = ((r', c'), Inr ())" and "ss_voted_for (ro_shared r) = Some v"
    and "vf_term v \<le> ro_term r" and "ro_term r < vq_term q"
    and "\<not> is_target_log_more_recent (lid_index (lid_or_zero (last_log_id (cx_log c))))
           (lid_term (lid_or_zero (last_log_id (cx_log c)))) (vq_last_log_index q) (vq_last_log_term q)"
    and "vq_term q2 = vq_term q"
  shows "ro_term r' = vq_term q
     \<and> su_new_voted_for (handle_vote_request q2 (ro_term r') (ss_voted_for (ro_shared r')) l) = None"
proof -
  have "su_new_voted_for (handle_vote_request q (ro_term r) (ss_voted_for (ro_shared r)) (cx_log c)) = None"
    and "su_term_update (handle_vote_request q (ro_term r) (ss_voted_for (ro_shared r)) (cx_log c)) = Some (vq_term q)"
    using assms(4,5) by (simp_all add: handle_vote_request_def Let_def)
  then have "hs_of r' = \<lparr>hs_current_term = vq_term q, hs_voted_for = Some v\<rparr>"
    using assms(1,2)
    by (auto simp: follower_vote_request_def Let_def split: prod.splits sum.splits dest!: commit_hard_state_hs(1))
  then show ?thesis
    using assms(3,4,6) by (simp add: ro_term_def ss_term_def ss_voted_for_def handle_vote_request_def Let_def)
qed

definition ex_voted :: base_role where
  "ex_voted = follower_new ex_role_env 2 (Some \<lparr>hs_current_term = 1, hs_voted_for = Some (own_vote 3 1)\<rparr>) None"

theorem refused_candidate_blocks_term_witness:
  "\<exists>r' c'. follower_vote_request ex_role_env (vote_request_of 1 2 (mk_lid 1 1)) 7 ex_voted (ex_context 2) = ((r', c'), Inr ())
     \<and> ro_term r' = 2
     \<and> su_new_voted_for (handle_vote_request (vote_request_of 3 2 (mk_lid 1 3)) 2 (ss_voted_for (ro_shared r')) ex_log) = None"
proof -
  have "\<exists>r' c'. follower_vote_request ex_role_env (vote_request_of 1 2 (mk_lid 1 1)) 7 ex_voted (ex_context 2)
      = ((r', c'), Inr ())"
    by (simp add: follower_vote_request_def Let_def handle_vote_request_def ex_role_env_def ex_voted_def follower_new_def
        shared_new_def ex_context_def ex_last_log lid_or_zero_def vote_request_of_def ro_term_def ss_term_def
        ss_voted_for_def is_target_log_more_recent_def commit_hard_state_def set_hard_state_def vote_response_of_def
        send_reply_def case_prod_beta persist_hard_state_def save_hard_state_def ex_log_fields)
  then show ?thesis
    using refused_candidate_blocks_term [of ex_role_env "vote_request_of 1 2 (mk_lid 1 1)" 7 ex_voted "ex_context 2" _ _
        "own_vote 3 1" "vote_request_of 3 2 (mk_lid 1 3)" ex_log]
    by (fastforce simp: ex_voted_def follower_new_def shared_new_def ex_context_def ex_last_log lid_or_zero_def
        vote_request_of_def ro_term_def ss_term_def ss_voted_for_def is_target_log_more_recent_def own_vote_def)
qed

text \<open>C37: stepping down clears the vote without a new term.  A leader that voted for itself and
  then handles the \<^verbatim>\<open>BecomeFollower\<close> it asks for when its no-op cannot be committed or when it
  is removed grants its vote of the same term to the next candidate whose log is up to
  date.\<close>

theorem step_down_votes_twice:
  assumes "rf_role rf = Lead d" and "ss_voted_for (ld_shared d) = Some (leader_vote me (ld_term d))"
    and "handle_internal_event env (BecomeFollower None) rf = (rf', Inr ())"
    and "vq_term q = ld_term d" and "vq_candidate_id q \<noteq> me"
    and "is_target_log_more_recent (lid_index (lid_or_zero (last_log_id l))) (lid_term (lid_or_zero (last_log_id l)))
           (vq_last_log_index q) (vq_last_log_term q)"
  shows "\<exists>b'. rf_role rf' = Base b' \<and> ro_kind b' = NR_Follower \<and> ro_term b' = ld_term d
     \<and> su_new_voted_for (handle_vote_request q (ro_term b') (ss_voted_for (ro_shared b')) l)
         = Some (own_vote (vq_candidate_id q) (ld_term d))"
proof -
  obtain d0 c0 where dr: "drain_read_buffer (re_leader env) d (rf_ctx rf) = (d0, c0)" by fastforce
  then have hs: "ld_hs d0 = ld_hs d"
    using shared_drain_read_buffer [of "re_leader env" d "rf_ctx rf"] by simp
  obtain b' where b': "rf_role rf' = Base b'" "ro_kind b' = NR_Follower" "hs_of b' = (ld_hs d)\<lparr>hs_voted_for := None\<rparr>"
    using assms(1,3) dr hs
    by (auto simp: handle_internal_event_def handle_become_follower_def role_drain_read_buffer_def Let_def
        role_become_follower_def leader_become_follower_def follower_of_leader_def revoke_lease_def
        commit_vote_reset_def clear_voted_for_def with_shared_def role_shared_def split: prod.splits sum.splits)
  moreover have "ro_term b' = ld_term d" "ss_voted_for (ro_shared b') = None"
    using b'(3) by (simp_all add: ro_term_def ss_term_def ss_voted_for_def ld_term_def)
  ultimately show ?thesis
    using assms(4,6) by (auto simp: handle_vote_request_def Let_def own_vote_def)
qed

definition ex_leader :: leader_state where
  "ex_leader =
     (let d = leader_of_candidate ex_leader_env (ex_candidate 1)
      in d\<lparr>ld_shared := (ld_shared d)\<lparr>ss_hard_state := \<lparr>hs_current_term = 2, hs_voted_for = Some (leader_vote 1 2)\<rparr>\<rparr>\<rparr>)"

lemma ex_leader_drained: "drain_read_buffer ex_leader_env ex_leader (ex_context 1) = (d, c) \<Longrightarrow> cx_log c = ex_log"
  by (auto simp: drain_read_buffer_def ex_leader_def leader_of_candidate_def Let_def bf_take_all_def bf_new_def
      pb_flush_def pb_new_def drain_pending_writes_with_error_def ex_context_def split: if_splits)

lemma ex_leader_steps_down:
  "\<exists>rf'. handle_internal_event ex_raft_env (BecomeFollower None) (ex_node 1 (Lead ex_leader)) = (rf', Inr ())"
proof -
  obtain d0 c0 where dr: "drain_read_buffer ex_leader_env ex_leader (ex_context 1) = (d0, c0)" by fastforce
  have "\<not> rl_poisoned (cx_log c0)"
    using ex_leader_drained [OF dr] by (simp add: ex_log_fields)
  then show ?thesis
    using dr
    by (simp add: handle_internal_event_def handle_become_follower_def role_drain_read_buffer_def ex_node_def ex_raft_env_def
        role_become_follower_def commit_vote_reset_def persist_hard_state_def save_hard_state_def ex_env_defs Let_def)
qed

theorem step_down_votes_twice_witness:
  "ss_voted_for (ld_shared ex_leader) = Some (leader_vote 1 2)
   \<and> (\<exists>rf' b'. handle_internal_event ex_raft_env (BecomeFollower None) (ex_node 1 (Lead ex_leader)) = (rf', Inr ())
       \<and> rf_role rf' = Base b' \<and> ro_term b' = 2
       \<and> su_new_voted_for (handle_vote_request (vote_request_of 3 2 (mk_lid 1 3)) (ro_term b')
             (ss_voted_for (ro_shared b')) ex_log) = Some (own_vote 3 2))"
proof -
  have d: "ld_term ex_leader = 2" "ss_voted_for (ld_shared ex_leader) = Some (leader_vote 1 2)"
    by (simp_all add: ex_leader_def Let_def ld_term_def ss_term_def ss_voted_for_def)
  obtain rf' where run: "handle_internal_event ex_raft_env (BecomeFollower None) (ex_node 1 (Lead ex_leader)) = (rf', Inr ())"
    using ex_leader_steps_down by blast
  have "rf_role (ex_node 1 (Lead ex_leader)) = Lead ex_leader"
    by (simp add: ex_node_def)
  from step_down_votes_twice [OF this _ run, of 1 "vote_request_of 3 2 (mk_lid 1 3)" ex_log] show ?thesis
    using d run
    by (auto simp: vote_request_of_def ex_last_log lid_or_zero_def is_target_log_more_recent_def)
qed

text \<open>C38: a \<^verbatim>\<open>BecomeLeader\<close> event carries no term.  A candidate that won the election of its term
  and whose timer fires before the event is handled votes for itself in the next term and asks
  its peers again; whatever they answer short of a higher term, the event still in the queue
  then makes it leader of the next term, in which it may have only its own vote.\<close>

theorem stale_election_makes_leader:
  assumes "rf_role rf = Base b" and "ro_kind b = NR_Candidate" and "\<not> timer_pending (re_role env) b"
    and "role_tick env (Base b) (rf_ctx rf) = ((Base b', c'), Inr ())"
    and "election_answer (re_send env) (re_arrive env) b (rf_ctx rf) = Inl (QuorumFailure n k)"
    and "handle_internal_event env BecomeLeader (rf\<lparr>rf_role := Base b', rf_ctx := c'\<rparr>) = (rf', res)"
  shows "\<exists>d. rf_role rf' = Lead d \<and> ld_term d = Suc (ro_term b)"
proof -
  obtain s2 c2 x where commit: "commit_hard_state (re_role env) (Some (Suc (ro_term b))) (Some (self_vote b))
      (ro_shared b) (rf_ctx rf) = ((s2, c2), x)"
    by (metis prod.collapse)
  have tick: "candidate_tick (re_role env) (re_send env) (re_arrive env) b (rf_ctx rf) = ((b', c'), Inr ())"
    using assms(2,4) by (auto simp: role_tick_def on_base_eq)
  then obtain y where x: "x = Inr y"
    using candidate_tick_save_failed [OF assms(3), of "rf_ctx rf" s2 c2] commit by (cases x) auto
  have b': "b' = (reset_timer (re_role env) b)\<lparr>ro_shared := s2\<rparr>"
    using tick candidate_tick_saved [OF assms(3) commit [unfolded x], of "re_send env" "re_arrive env"] assms(5) by simp
  have t: "ro_term b' = Suc (ro_term b)" "ro_kind b' = NR_Candidate"
    using commit_hard_state_hs(1) [OF commit] b' assms(2) by (simp_all add: ro_term_def ss_term_def)
  let ?rf = "rf\<lparr>rf_role := Base b', rf_ctx := c'\<rparr>"
  have run: "handle_become_leader env ?rf = (rf', res)"
    using assms(6) by (simp add: handle_internal_event_def)
  have "role_become_leader env (rf_role ?rf) = Inr (leader_of_candidate (re_leader env) b')"
    using t(2) by (simp add: role_become_leader_def)
  from become_leader_shared [OF run this] obtain d where d: "rf_role rf' = Lead d"
    by auto
  then have "rf' \<noteq> ?rf"
    by auto
  then have "ld_term d = role_term (rf_role ?rf)"
    using become_leader_role [OF run] d by (auto simp: ld_term_def ss_term_def)
  then show ?thesis
    using d t(1) by (simp add: role_term_def role_shared_def ro_term_def)
qed

definition ex_lonely_env :: raft_env where
  "ex_lonely_env = ex_raft_env\<lparr>re_send := (\<lambda>p q. Inl (NoVotingMemberFound p))\<rparr>"

lemma ex_lost_election:
  "election_answer (re_send ex_lonely_env) (re_arrive ex_lonely_env) (ex_candidate 1) (ex_context 1)
     = Inl (QuorumFailure 3 1)"
  by (simp add: election_answer_def ex_lonely_env_def ex_raft_env_def ex_node_defs ex_voters broadcast_vote_requests_def
      ex_voter_def Let_def bind_result_def is_majority_def)

lemma ex_lost_tick:
  "\<exists>b c. role_tick ex_lonely_env (Base (ex_candidate 1)) (ex_context 1) = ((Base b, c), Inr ())"
proof -
  obtain s2 c2 where commit: "commit_hard_state (re_role ex_lonely_env) (Some (Suc (ro_term (ex_candidate 1))))
      (Some (self_vote (ex_candidate 1))) (ro_shared (ex_candidate 1)) (ex_context 1) = ((s2, c2), Inr False)"
    by (simp add: commit_hard_state_def set_hard_state_def persist_hard_state_def save_hard_state_def ex_lonely_env_def
        ex_env_defs ex_node_defs ro_term_def ss_term_def own_vote_def ex_log_fields Let_def)
  have "\<not> timer_pending (re_role ex_lonely_env) (ex_candidate 1)" "ro_kind (ex_candidate 1) = NR_Candidate"
    by (simp_all add: ex_lonely_env_def ex_env_defs ex_node_defs)
  then show ?thesis
    using candidate_tick_saved [OF _ commit, of "re_send ex_lonely_env" "re_arrive ex_lonely_env"]
    by (simp add: role_tick_def on_base_def ex_lost_election [simplified])
qed

theorem stale_election_makes_leader_witness:
  "\<exists>b' c' rf' res d. role_tick ex_lonely_env (Base (ex_candidate 1)) (ex_context 1) = ((Base b', c'), Inr ())
     \<and> election_answer (re_send ex_lonely_env) (re_arrive ex_lonely_env) (ex_candidate 1) (ex_context 1)
         = Inl (QuorumFailure 3 1)
     \<and> handle_internal_event ex_lonely_env BecomeLeader
         ((ex_node 1 (Base (ex_candidate 1)))\<lparr>rf_role := Base b', rf_ctx := c'\<rparr>) = (rf', res)
     \<and> rf_role rf' = Lead d \<and> ld_term d = 2"
proof -
  let ?rf = "ex_node 1 (Base (ex_candidate 1))"
  have rf: "rf_role ?rf = Base (ex_candidate 1)" "rf_ctx ?rf = ex_context 1"
    by (simp_all add: ex_node_def)
  have b: "\<not> timer_pending (re_role ex_lonely_env) (ex_candidate 1)" "ro_kind (ex_candidate 1) = NR_Candidate"
      "ro_term (ex_candidate 1) = 1"
    by (simp_all add: ex_lonely_env_def ex_env_defs ex_node_defs ro_term_def ss_term_def)
  obtain b' c' where tick: "role_tick ex_lonely_env (Base (ex_candidate 1)) (rf_ctx ?rf) = ((Base b', c'), Inr ())"
    using ex_lost_tick rf by auto
  obtain rf' res where run: "handle_internal_event ex_lonely_env BecomeLeader
      (?rf\<lparr>rf_role := Base b', rf_ctx := c'\<rparr>) = (rf', res)"
    by fastforce
  have "election_answer (re_send ex_lonely_env) (re_arrive ex_lonely_env) (ex_candidate 1) (rf_ctx ?rf)
      = Inl (QuorumFailure 3 1)"
    using ex_lost_election rf by simp
  from stale_election_makes_leader [OF rf(1) b(2,1) tick this run] show ?thesis
    using tick run ex_lost_election rf b(3) by auto
qed

end
