(* ===== verification/Leader_Properties.thy ===== *)
theory Leader_Properties
  imports Election_Properties
begin

text \<open>
  The properties of the leader: what its commit rule guarantees when the match index of every
  voter is known and what happens when it is not, the renewal of the read lease, and the
  promotion of learners in batches.
\<close>

section \<open>Committing\<close>

definition voter_targets :: "leader_state \<Rightarrow> node_id set" where
  "voter_targets d = {k. is_voter_target d k}"

text \<open>The voters whose match index has reached an index.\<close>

definition voters_at :: "leader_state \<Rightarrow> u64 \<Rightarrow> node_id set" where
  "voters_at d n = {k \<in> voter_targets d. \<exists>m. match_index d k = Some m \<and> n \<le> m}"

lemma finite_voter_targets [simp]: "finite (voter_targets d)"
proof -
  have "voter_targets d \<subseteq> nm_id ` set (cl_replication_targets (ld_cluster_metadata d))"
    by (auto simp: voter_targets_def is_voter_target_def)
  then show ?thesis
    by (rule finite_subset) simp
qed

lemma counted_voters:
  assumes "om_wf (ld_match_index d)"
  shows "length (filter (\<lambda>m. n \<le> m) (voter_match_indexes d)) = card (voters_at d n)"
proof -
  let ?P = "\<lambda>b. is_voter_target d (fst b) \<and> n \<le> snd b"
  have "length (filter (\<lambda>m. n \<le> m) (voter_match_indexes d)) = length (map fst (filter ?P (ld_match_index d)))"
    by (simp add: voter_match_indexes_def filter_map filter_filter comp_def case_prod_beta conj_commute)
  also have "distinct (map fst (filter ?P (ld_match_index d)))"
    by (rule om_wf_distinct [OF om_wf_filter [OF assms]])
  then have "length (map fst (filter ?P (ld_match_index d))) = card (set (map fst (filter ?P (ld_match_index d))))"
    by (simp only: distinct_card)
  also have "set (map fst (filter ?P (ld_match_index d))) = voters_at d n"
    using om_get_Some_iff [OF assms] by (force simp: voters_at_def voter_targets_def match_index_def)
  finally show ?thesis .
qed

text \<open>C4: the leader commits only what a majority stores.  When the leader knows a match index
  for every other voter, the index it commits lies above its commit index, holds an entry of
  its term, and the voters whose match index has reached it are, with the leader, a majority of
  the voters.\<close>

theorem commit_needs_majority:
  assumes "calculate_new_commit_index d l = Some n" and "log_inv l" and "om_wf (ld_match_index d)"
    and "\<forall>k \<in> voter_targets d. match_index d k \<noteq> None" and "me \<notin> voter_targets d"
  shows "ld_commit_index d < n \<and> (\<exists>e. entry l n = Some e \<and> e_term e = ld_term d)
     \<and> majority_of (insert me (voter_targets d)) (insert me (voters_at d n))"
proof -
  have calc: "calculate_majority_matched_index l (ld_term d) (ld_commit_index d) (voter_match_indexes d) = Some n"
    and gt: "ld_commit_index d < n"
    using assms(1) by (auto simp: calculate_new_commit_index_def split: option.splits if_splits)
  obtain e where e: "entry l n = Some e" "e_term e = ld_term d"
    and maj: "is_majority (length (filter (\<lambda>m. n \<le> m) (voter_match_indexes d @ [last_entry_id l])))
                (length (voter_match_indexes d) + 1)"
    using calc [unfolded majority_matched_iff] by blast
  have "(n, e) \<in> set (rl_entries l)"
    using e(1) by (auto simp: entry_def om_get_def dest: map_of_SomeD)
  then have "n \<le> last_entry_id l"
    using log_inv_key_range(2) [OF assms(2)] by (force simp: last_entry_id_def)
  moreover have "voters_at d 0 = voter_targets d"
    using assms(4) by (auto simp: voters_at_def)
  then have "length (voter_match_indexes d) = card (voter_targets d)"
    using counted_voters [OF assms(3), of 0] by simp
  moreover have "me \<notin> voters_at d n" "finite (voters_at d n)" "voters_at d n \<subseteq> voter_targets d"
    using assms(5) by (auto simp: voters_at_def intro: finite_subset [OF _ finite_voter_targets])
  ultimately show ?thesis
    using gt e maj assms(5) counted_voters [OF assms(3), of n] by (auto simp: majority_of_def)
qed

text \<open>A leader of three voters in term 1 whose followers 2 and 3 have acknowledged 3 and 1.\<close>

definition ex_tracking :: leader_state where
  "ex_tracking =
     (let d = leader_of_candidate ex_leader_env (ex_candidate 1)
      in d\<lparr>ld_match_index := [(2, 3), (3, 1)],
           ld_cluster_metadata := \<lparr>cl_single_voter = False, cl_total_voters = 3,
                                   cl_replication_targets = map ex_voter [2, 3]\<rparr>\<rparr>)"

lemma ex_tracking_facts:
  "voter_targets ex_tracking = {2, 3}" "match_index ex_tracking = [2 \<mapsto> 3, 3 \<mapsto> 1]"
  "ld_term ex_tracking = 1" "ld_commit_index ex_tracking = 0" "voter_match_indexes ex_tracking = [3, 1]"
proof -
  show "voter_targets ex_tracking = {2, 3}"
    by (auto simp: voter_targets_def is_voter_target_def ex_tracking_def ex_voter_def Let_def)
  show "match_index ex_tracking = [2 \<mapsto> 3, 3 \<mapsto> 1]"
    by (auto simp: match_index_def om_get_def ex_tracking_def Let_def fun_eq_iff)
  show "voter_match_indexes ex_tracking = [3, 1]"
    by (simp add: voter_match_indexes_def is_voter_target_def ex_tracking_def ex_voter_def Let_def)
qed (simp_all add: ex_tracking_def ld_term_def ld_commit_index_def ss_term_def leader_of_candidate_def Let_def
      set_current_leader_def ex_node_defs)

lemma ex_entry: "entry ex_log 3 = Some (mk_entry 3 1 (Command ''b''))"
  by (simp add: entry_def om_get_def ex_log_entries ex_entries_def)

theorem commit_needs_majority_witness:
  "calculate_new_commit_index ex_tracking ex_log = Some 3
   \<and> majority_of (insert 1 (voter_targets ex_tracking)) (insert 1 (voters_at ex_tracking 3))
   \<and> voters_at ex_tracking 3 = {2}"
proof -
  have "sort [3, Suc 0, 3] = [Suc 0, 3, 3]"
    by simp
  then have "calculate_new_commit_index ex_tracking ex_log = Some 3"
    by (simp add: calculate_new_commit_index_def calculate_majority_matched_index_def ex_tracking_facts ex_log_fields
        last_entry_id_def ex_entry)
  moreover have "om_wf (ld_match_index ex_tracking)" "voters_at ex_tracking 3 = {2}"
    using ex_tracking_facts by (auto simp: ex_tracking_def Let_def voters_at_def)
  ultimately show ?thesis
    using commit_needs_majority [OF _ ex_log_inv, of ex_tracking 3 1] ex_tracking_facts by simp
qed

lemma fresh_match_index:
  "ld_match_index (init_peers_next_index_and_match_index i ps d) = ld_match_index d"
  if "ld_match_index d = []"
  using that
proof (induction ps arbitrary: d)
  case (Cons p ps)
  have "ld_match_index (update_match_index p 0 (update_next_index p (i + 1) d)) = []"
    using Cons.prems by (simp add: update_match_index_def update_next_index_def match_index_def or_else_def Let_def)
  then show ?case
    using Cons by simp
qed simp

lemma leader_of_candidate_match: "ld_match_index (leader_of_candidate env b) = []"
  by (simp add: leader_of_candidate_def Let_def)

text \<open>C32: a new leader commits alone.  Initialising the followers records no match index for
  them, and the commit rule counts only the recorded ones.  A leader of a cluster with further
  voters none of which has answered yet therefore commits its whole log as soon as its own log
  is flushed, although no other node need have any of it.\<close>

theorem fresh_leader_commits_alone:
  assumes "ld_match_index d = ld_match_index (init_peers_next_index_and_match_index i ps (leader_of_candidate env b))"
    and "\<not> cl_single_voter (ld_cluster_metadata d)" and "ld_commit_index d < last_entry_id (cx_log c)"
    and "entry (cx_log c) (last_entry_id (cx_log c)) = Some e" and "e_term e = ld_term d"
    and "en_events_open (le_role env)"
  shows "snd (handle_log_flushed env d c) = Inr ()
     \<and> ld_commit_index (fst (fst (handle_log_flushed env d c))) = last_entry_id (cx_log c)"
proof -
  let ?n = "last_entry_id (cx_log c)"
  have "ld_match_index d = []"
    using assms(1) fresh_match_index [OF leader_of_candidate_match] leader_of_candidate_match by simp
  then have "calculate_new_commit_index d (cx_log c) = Some ?n"
    using assms(3-5) by (simp add: calculate_new_commit_index_def calculate_majority_matched_index_def
        voter_match_indexes_def)
  then show ?thesis
    using assms(2,3,6)
    by (simp add: handle_log_flushed_def Let_def leader_update_commit_index_with_signal_def send_event_def
        leader_update_commit_index_def ld_commit_index_def shared_frame case_prod_beta)
qed

theorem fresh_leader_commits_alone_witness:
  "\<exists>d. d = update_cluster_metadata (ex_membership 1)
          (init_peers_next_index_and_match_index 2 [2, 3] (leader_of_candidate ex_leader_env (ex_candidate 1)))
     \<and> cl_total_voters (ld_cluster_metadata d) = 3
     \<and> ld_commit_index (fst (fst (handle_log_flushed ex_leader_env d (ex_context 1)))) = 3"
proof -
  let ?fresh = "init_peers_next_index_and_match_index 2 [2, 3] (leader_of_candidate ex_leader_env (ex_candidate 1))"
  let ?d = "update_cluster_metadata (ex_membership 1) ?fresh"
  have sh: "ld_shared ?d = ld_shared (leader_of_candidate ex_leader_env (ex_candidate 1))"
    by (simp add: shared_frame del: init_peers_next_index_and_match_index.simps)
  have d: "ld_match_index ?d = ld_match_index ?fresh" "\<not> cl_single_voter (ld_cluster_metadata ?d)"
      "cl_total_voters (ld_cluster_metadata ?d) = 3"
    by (simp_all add: update_cluster_metadata_def Let_def ex_voters del: init_peers_next_index_and_match_index.simps)
  have "ld_commit_index ?d = 0" and t: "ld_term ?d = 1"
    unfolding ld_commit_index_def ld_term_def ss_term_def sh
    by (simp_all add: leader_of_candidate_def Let_def set_current_leader_def ex_node_defs)
  moreover have l: "last_entry_id (cx_log (ex_context 1)) = 3" "cx_log (ex_context 1) = ex_log"
      "en_events_open (le_role ex_leader_env)"
    by (simp_all add: ex_context_def last_entry_id_def ex_log_fields ex_env_defs)
  ultimately have "ld_commit_index ?d < last_entry_id (cx_log (ex_context 1))"
    by simp
  from fresh_leader_commits_alone [OF d(1,2) this _ _ l(3)] show ?thesis
    using d(3) t l(1,2) ex_entry by auto
qed

section \<open>The lease\<close>

lemma success_update_keeps_voters:
  assumes "m \<le> or_else (match_index d k) 0"
  shows "voter_match_indexes (update_peer_index k \<lparr>pu_match_index = Some m, pu_next_index = nx, pu_success = True\<rparr> d)
           = voter_match_indexes d"
proof -
  have "ld_match_index (update_peer_index k \<lparr>pu_match_index = Some m, pu_next_index = nx, pu_success = True\<rparr> d)
      = ld_match_index d"
    "ld_cluster_metadata (update_peer_index k \<lparr>pu_match_index = Some m, pu_next_index = nx, pu_success = True\<rparr> d)
      = ld_cluster_metadata d"
    using assms
    by (simp_all add: update_peer_index_def update_match_index_def update_next_index_def set_peer_state_def
        match_index_def Let_def)
  then show ?thesis
    by (simp add: voter_match_indexes_def is_voter_target_def)
qed

lemma peer_index_keeps_heartbeat:
  "ld_last_heartbeat_send_ts (update_peer_index k u d) = ld_last_heartbeat_send_ts d"
  by (simp add: update_peer_index_def update_match_index_def update_next_index_def set_peer_state_def Let_def
      split: option.split)

text \<open>C33: one voter's answer renews the lease.  The test of the quorum reads the match indexes
  the leader has collected since its election, not the answers of the round.  When they still
  single out an index of the leader's term that is not below the commit index, one success
  answer from one voter, even one that acknowledges nothing new, renews the lease from the
  time of the last heartbeat, whether or not any other voter still follows this leader.\<close>

theorem lease_renewed_by_one_ack:
  assumes "is_voter_target d k" and "ar_term a = ld_term d" and "ar_result a = Some (AESuccess (Some m))"
    and "lid_index m \<le> or_else (match_index d k) 0"
    and "calculate_majority_matched_index (cx_log c) (ld_term d) (ld_commit_index d) (voter_match_indexes d)
           = Some (ld_commit_index d)"
    and "0 < ld_last_heartbeat_send_ts d"
    and "renew (ss_lease (ld_shared d)) (word_of_nat (ld_term d))
           (word_of_nat (sat_add (ld_last_heartbeat_send_ts d) (le_lease_duration_ms env))) = Inr w"
  shows "snd (handle_append_result env k (Inr a) d c) = Inr ()
     \<and> ss_lease (ld_shared (fst (fst (handle_append_result env k (Inr a) d c)))) = w"
proof -
  let ?u = "\<lparr>pu_match_index = Some (lid_index m), pu_next_index = lid_index m + 1, pu_success = True\<rparr>"
  let ?d1 = "update_peer_index k ?u d"
  have same: "voter_match_indexes ?d1 = voter_match_indexes d" "ld_shared ?d1 = ld_shared d"
      "ld_last_heartbeat_send_ts ?d1 = ld_last_heartbeat_send_ts d"
    using success_update_keeps_voters [OF assms(4)] by (simp_all add: shared_frame peer_index_keeps_heartbeat)
  then have "calculate_new_commit_index ?d1 (cx_log c) = None" "quorum_confirmed ?d1 (cx_log c)"
    using assms(5) by (simp_all add: calculate_new_commit_index_def quorum_confirmed_def ld_term_def ld_commit_index_def)
  moreover have "handle_append_result env k (Inr a) d c = voter_acknowledged env ?d1 c"
    using assms(1-3) by (simp add: handle_append_result_def Let_def handle_success_response_def
        peer_update_applied_def)
  ultimately show ?thesis
    using assms(6,7) same
    by (simp add: voter_acknowledged_def advance_commit_def refresh_lease_and_serve_def Let_def
        update_lease_timestamp_def ld_term_def case_prod_beta shared_frame)
qed

text \<open>Both followers acknowledged everything long ago; now only follower 2 answers.\<close>

definition ex_settled :: leader_state where
  "ex_settled = ex_tracking\<lparr>ld_match_index := [(2, 3), (3, 3)], ld_last_heartbeat_send_ts := 90,
     ld_shared := (ld_shared ex_tracking)\<lparr>ss_commit_index := 3\<rparr>\<rparr>"

theorem lease_renewed_by_one_ack_witness:
  "\<exists>w. renew (ss_lease (ld_shared ex_settled)) (word_of_nat 1) (word_of_nat 110) = Inr w
     \<and> ss_lease (ld_shared (fst (fst (handle_append_result ex_leader_env 2
           (Inr (ar_success 2 1 (Some (mk_lid 1 3)))) ex_settled (ex_context 1))))) = w"
proof -
  have f: "is_voter_target ex_settled 2" "ld_term ex_settled = 1" "ld_commit_index ex_settled = 3"
      "voter_match_indexes ex_settled = [3, 3]" "or_else (match_index ex_settled 2) 0 = 3"
    using ex_tracking_facts(3)
    by (simp_all add: ex_settled_def ex_tracking_def Let_def is_voter_target_def ex_voter_def ld_term_def
        ld_commit_index_def voter_match_indexes_def match_index_def om_get_def or_else_def ss_term_def)
  have "calculate_majority_matched_index ex_log 1 3 [3, 3] = Some 3"
    by (simp add: calculate_majority_matched_index_def ex_log_fields last_entry_id_def ex_entry)
  moreover obtain w where "renew (ss_lease (ld_shared ex_settled)) (word_of_nat 1) (word_of_nat 110) = Inr w"
    by (simp add: renew_def pack_def DEADLINE_MASK_def)
  moreover have "ld_last_heartbeat_send_ts ex_settled = 90" "sat_add 90 (le_lease_duration_ms ex_leader_env) = 110"
    by (simp_all add: ex_settled_def sat_add_def ex_leader_env_def u64_max_def)
  ultimately show ?thesis
    using lease_renewed_by_one_ack [of ex_settled 2 "ar_success 2 1 (Some (mk_lid 1 3))" "mk_lid 1 3" "ex_context 1"
        ex_leader_env w] f
    by (simp add: ar_success_def ex_context_def)
qed

section \<open>Promotion in batches\<close>

text \<open>C34: promoting several learners at once breaks the overlap of majorities.  With an odd number
  of voters and at least two learners ready, the batch the code calls safe has at least two
  nodes, and there are a majority of the voters before it and a majority of the voters after it
  that have no node in common.\<close>

theorem batch_promotion_disjoint_majorities:
  fixes current available :: nat
  assumes "odd current" and "2 \<le> available"
  defines "n \<equiv> calculate_safe_batch_size current available"
  shows "2 \<le> n \<and> (\<exists>old new a b. finite old \<and> finite new \<and> old \<inter> new = {} \<and> card old = current \<and> card new = n
     \<and> majority_of old a \<and> majority_of (old \<union> new) b \<and> a \<inter> b = {})"
proof -
  obtain k where k: "current = 2 * k + 1"
    using assms(1) by (elim oddE)
  have n: "2 \<le> n"
    using assms(2) k by (cases "available = 2") (simp_all add: n_def calculate_safe_batch_size_def, presburger?)
  define old where "old = {..<current}"
  define new where "new = {current..<current + n}"
  define a where "a = {..k}"
  define b where "b = {Suc k..<current + n}"
  have un: "old \<union> new = {..<current + n}" and "a \<inter> b = {}" and "old \<inter> new = {}"
    by (auto simp: old_def new_def a_def b_def)
  moreover have "majority_of old a"
    unfolding majority_of_def is_majority_def old_def a_def using k by auto
  moreover have "majority_of (old \<union> new) b"
    unfolding un unfolding majority_of_def is_majority_def b_def using k n by auto
  moreover have "finite old" "finite new" "card old = current" "card new = n"
    by (simp_all add: old_def new_def)
  ultimately show ?thesis
    using n by blast
qed

theorem batch_promotion_disjoint_majorities_witness:
  "calculate_safe_batch_size 3 2 = 2
   \<and> (\<exists>old new a b. finite old \<and> finite new \<and> old \<inter> new = {} \<and> card old = 3
       \<and> card new = calculate_safe_batch_size 3 2 \<and> majority_of old a \<and> majority_of (old \<union> new) b \<and> a \<inter> b = {})"
  using batch_promotion_disjoint_majorities [of 3 2] by (simp add: calculate_safe_batch_size_def)

end
