(* ===== verification/Loop_Properties.thy ===== *)
theory Loop_Properties
  imports Leader_Properties
begin

text \<open>
  Properties of the loops around the roles: the learner's search for the leader ends, and the
  Raft loop merges append requests without losing entries or senders.
\<close>

section \<open>The learner's search for the leader\<close>

lemma discovery_returns_at:
  assumes "discovery_result (attempts (k + i)) \<noteq> None"
  shows "\<exists>x. broadcast_discovery p attempts k d slept = Some x"
  using assms
proof (induction i arbitrary: k d slept)
  case 0
  then show ?case
    by (subst broadcast_discovery.simps) (auto split: option.split)
next
  case (Suc i)
  then have "\<exists>x. broadcast_discovery p attempts (k + 1) d' slept' = Some x" for d' slept'
    by simp
  then show ?case
    by (subst broadcast_discovery.simps) (auto split: option.split)
qed

lemma discovery_retries:
  assumes "k < dp_max_retries p"
  shows "\<exists>r ds. broadcast_discovery p attempts k d slept = Some (r, slept @ ds) \<and> k + length ds < dp_max_retries p
     \<and> (\<forall>x \<in> set ds. x \<le> dp_max_delay_ms p)"
  using assms
proof (induction "dp_max_retries p - k" arbitrary: k d slept)
  case (Suc n)
  show ?case
  proof (cases "discovery_result (attempts k) = None \<and> k + 1 < dp_max_retries p")
    case True
    let ?d = "next_delay p d"
    have "\<exists>r ds. broadcast_discovery p attempts (k + 1) ?d (slept @ [?d]) = Some (r, (slept @ [?d]) @ ds)
        \<and> k + 1 + length ds < dp_max_retries p \<and> (\<forall>x \<in> set ds. x \<le> dp_max_delay_ms p)"
      using True Suc.hyps(2) by (intro Suc.hyps(1)) auto
    then obtain r ds where "broadcast_discovery p attempts (k + 1) ?d (slept @ [?d]) = Some (r, slept @ ?d # ds)"
      and ds: "k + length (?d # ds) < dp_max_retries p" "\<forall>x \<in> set (?d # ds). x \<le> dp_max_delay_ms p"
      by (auto simp: next_delay_def)
    then have "broadcast_discovery p attempts k d slept = Some (r, slept @ ?d # ds)"
      using True by (subst broadcast_discovery.simps) simp
    then show ?thesis
      using ds by blast
  next
    case False
    then have "\<exists>r. broadcast_discovery p attempts k d slept = Some (r, slept)"
      using Suc.prems by (subst broadcast_discovery.simps) (auto split: option.split)
    then show ?thesis
      using Suc.prems by (auto intro!: exI [of _ "[]"])
  qed
qed simp

lemma discovery_unbounded_answer:
  assumes "broadcast_discovery p attempts k d slept = Some x"
  shows "dp_max_retries p = 0 \<longrightarrow> (\<exists>i. discovery_result (attempts i) \<noteq> None)"
  by (rule broadcast_discovery.raw_induct [OF _ assms,
        where P = "\<lambda>p attempts k d slept x. dp_max_retries p = 0 \<longrightarrow> (\<exists>i. discovery_result (attempts i) \<noteq> None)"])
    (auto split: option.splits if_splits)

text \<open>C35: the learner's search for the leader returns exactly when it should.  With a positive
  number of retries it always returns; without a limit it returns exactly when some attempt is
  answered with a usable leader or an error.\<close>

theorem discovery_returns_iff:
  "(\<exists>x. broadcast_discovery p attempts 0 d [] = Some x)
   \<longleftrightarrow> 0 < dp_max_retries p \<or> (\<exists>k. discovery_result (attempts k) \<noteq> None)"
proof
  assume "\<exists>x. broadcast_discovery p attempts 0 d [] = Some x"
  then show "0 < dp_max_retries p \<or> (\<exists>k. discovery_result (attempts k) \<noteq> None)"
    using discovery_unbounded_answer by blast
next
  assume "0 < dp_max_retries p \<or> (\<exists>k. discovery_result (attempts k) \<noteq> None)"
  then show "\<exists>x. broadcast_discovery p attempts 0 d [] = Some x"
    using discovery_retries [of 0 p attempts d "[]"] discovery_returns_at [of attempts 0 _ p d "[]"] by auto
qed

section \<open>Merging append requests\<close>

abbreviation as_events :: "(append_request \<times> chan list) list \<Rightarrow> inbound_event list" where
  "as_events qs \<equiv> map (\<lambda>q. AppendEntries (fst q) (snd q)) qs"

text \<open>What a merged request keeps of the requests \<^verbatim>\<open>qs\<close> absorbed into \<^verbatim>\<open>r\<close>.\<close>

definition merged :: "append_request \<Rightarrow> (append_request \<times> chan list) list \<Rightarrow> append_request" where
  "merged r qs = r\<lparr>ae_entries := ae_entries r @ concat (map (ae_entries \<circ> fst) qs),
                   ae_leader_commit := foldl max (ae_leader_commit r) (map (ae_leader_commit \<circ> fst) qs)\<rparr>"

text \<open>Each request starts where the one before it ends.\<close>

fun chained :: "u64 \<Rightarrow> u64 \<Rightarrow> (append_request \<times> chan list) list \<Rightarrow> bool" where
  "chained t n [] = True"
| "chained t n (q # qs) = (ae_term (fst q) = t \<and> ae_prev_log_index (fst q) = n \<and> chained t (n + length (ae_entries (fst q))) qs)"

lemma merged_Nil [simp]: "merged r [] = r"
  by (simp add: merged_def)

lemma absorb_requests_spec:
  assumes "absorb_requests mx r ss n evs = ((r', ss'), rest)"
  shows "\<exists>qs. evs = as_events qs @ rest \<and> r' = merged r qs \<and> ss' = ss @ concat (map snd qs)
     \<and> chained (ae_term r) n qs \<and> (qs \<noteq> [] \<longrightarrow> length (ae_entries r') \<le> mx)"
  using assms
proof (induction mx r ss n evs rule: absorb_requests.induct)
  case (2 mx first senders next_prev req ss evs)
  show ?case
  proof (cases "next_prev = ae_prev_log_index req \<and> ae_term first = ae_term req
      \<and> length (ae_entries first) + length (ae_entries req) \<le> mx")
    case True
    let ?f = "first\<lparr>ae_entries := ae_entries first @ ae_entries req,
                    ae_leader_commit := max (ae_leader_commit first) (ae_leader_commit req)\<rparr>"
    have run: "absorb_requests mx ?f (senders @ ss) (next_prev + length (ae_entries req)) evs = ((r', ss'), rest)"
      using "2.prems" True by simp
    obtain qs where qs: "evs = as_events qs @ rest" "r' = merged ?f qs" "ss' = (senders @ ss) @ concat (map snd qs)"
      "chained (ae_term ?f) (next_prev + length (ae_entries req)) qs" "qs \<noteq> [] \<longrightarrow> length (ae_entries r') \<le> mx"
      using "2.IH" [OF _ _ run] True by auto
    have "merged ?f qs = merged first ((req, ss) # qs)"
      by (simp add: merged_def)
    moreover have "length (ae_entries r') \<le> mx"
      using qs(2,5) True by (cases "qs = []") simp_all
    ultimately show ?thesis
      using qs True by (intro exI [of _ "(req, ss) # qs"]) simp
  next
    case False
    then have "((r', ss'), rest) = ((first, senders), AppendEntries req ss # evs)"
      using "2.prems" by (auto split: if_splits)
    then show ?thesis
      by (auto intro: exI [of _ "[]"])
  qed
qed auto

lemma contig_from_append:
  "contig_from n (es @ fs) \<longleftrightarrow> contig_from n es \<and> contig_from (n + length es) fs"
  by (induction es arbitrary: n) (simp_all add: contig_from_Cons contig_from_def [of _ "[]"])

lemma chained_terms: "chained t n qs \<Longrightarrow> r \<in> fst ` set qs \<Longrightarrow> ae_term r = t"
  by (induction t n qs rule: chained.induct) auto

lemma chained_contig:
  assumes "chained t n qs" and "\<forall>q \<in> set qs. contig_from (Suc (ae_prev_log_index (fst q))) (ae_entries (fst q))"
  shows "contig_from (Suc n) (concat (map (ae_entries \<circ> fst) qs))"
  using assms
proof (induction t n qs rule: chained.induct)
  case (2 t n q qs)
  then show ?case
    by (simp add: contig_from_append)
qed (simp add: contig_from_def)

text \<open>C36: merging append requests loses nothing.  The requests taken together are a prefix of
  the buffered events, each of the first one's term and each starting where the one before it
  ends; the merged request carries all their entries in order as one contiguous run after the
  first one's previous entry, all their senders, and the largest of their commit indexes, and
  it stays within the configured number of entries.\<close>

theorem merged_requests_keep_everything:
  assumes "\<forall>r s. AppendEntries r s \<in> set (AppendEntries q ss # evs)
             \<longrightarrow> contig_from (Suc (ae_prev_log_index r)) (ae_entries r)"
  shows "\<exists>qs rest. evs = as_events qs @ rest
     \<and> merge_append_entries mx (AppendEntries q ss # evs) = AppendEntries (merged q qs) (ss @ concat (map snd qs)) # rest
     \<and> (\<forall>r \<in> fst ` set qs. ae_term r = ae_term q)
     \<and> contig_from (Suc (ae_prev_log_index q)) (ae_entries (merged q qs))
     \<and> (qs \<noteq> [] \<longrightarrow> length (ae_entries (merged q qs)) \<le> mx)"
proof -
  obtain r ss' rest where run: "absorb_requests mx q ss (ae_prev_log_index q + length (ae_entries q)) evs = ((r, ss'), rest)"
    by (metis prod.collapse)
  obtain qs where qs: "evs = as_events qs @ rest" "r = merged q qs" "ss' = ss @ concat (map snd qs)"
    "chained (ae_term q) (ae_prev_log_index q + length (ae_entries q)) qs" "qs \<noteq> [] \<longrightarrow> length (ae_entries r) \<le> mx"
    using absorb_requests_spec [OF run] by blast
  have "contig_from (Suc (ae_prev_log_index (fst x))) (ae_entries (fst x))" if "x \<in> set qs" for x
  proof -
    have "AppendEntries (fst x) (snd x) \<in> set evs"
      using that qs(1) by simp
    then show ?thesis
      using assms by simp
  qed
  then have "contig_from (Suc (ae_prev_log_index q + length (ae_entries q))) (concat (map (ae_entries \<circ> fst) qs))"
    by (intro chained_contig [OF qs(4)]) blast
  moreover have "contig_from (Suc (ae_prev_log_index q)) (ae_entries q)"
    using assms by simp
  ultimately have "contig_from (Suc (ae_prev_log_index q)) (ae_entries (merged q qs))"
    by (simp add: merged_def contig_from_append)
  moreover have "merge_append_entries mx (AppendEntries q ss # evs) = AppendEntries (merged q qs) (ss @ concat (map snd qs)) # rest"
    using run qs(2,3) by simp
  ultimately show ?thesis
    using qs(1,2,5) chained_terms [OF qs(4)] by blast
qed

definition ex_append :: "u64 \<Rightarrow> append_request" where
  "ex_append i = \<lparr>ae_term = 1, ae_leader_id = 1, ae_prev_log_index = i, ae_prev_log_term = 1,
                  ae_entries = [mk_entry (Suc i) 1 Noop], ae_leader_commit = i\<rparr>"

theorem merged_requests_keep_everything_witness:
  "\<exists>m. merge_append_entries 10 [AppendEntries (ex_append 0) [7], AppendEntries (ex_append 1) [8]]
       = [AppendEntries m [7, 8]]
     \<and> contig_from 1 (ae_entries m) \<and> length (ae_entries m) = 2"
proof -
  let ?evs = "[AppendEntries (ex_append 1) [8]]"
  have "\<forall>r s. AppendEntries r s \<in> set (AppendEntries (ex_append 0) [7] # ?evs)
      \<longrightarrow> contig_from (Suc (ae_prev_log_index r)) (ae_entries r)"
    by (simp add: ex_append_def contig_from_def)
  from merged_requests_keep_everything [OF this, of 10] obtain qs rest where
    m: "merge_append_entries 10 (AppendEntries (ex_append 0) [7] # ?evs)
      = AppendEntries (merged (ex_append 0) qs) ([7] @ concat (map snd qs)) # rest"
    and c: "contig_from (Suc (ae_prev_log_index (ex_append 0))) (ae_entries (merged (ex_append 0) qs))"
    by blast
  let ?m = "(ex_append 0)\<lparr>ae_entries := [mk_entry 1 1 Noop, mk_entry 2 1 Noop], ae_leader_commit := 1\<rparr>"
  have run: "merge_append_entries 10 (AppendEntries (ex_append 0) [7] # ?evs) = [AppendEntries ?m [7, 8]]"
    by (simp add: ex_append_def)
  then have "merged (ex_append 0) qs = ?m"
    using m by simp
  then have "contig_from 1 (ae_entries ?m)"
    using c by (simp add: ex_append_def)
  then show ?thesis
    using run by (intro exI [of _ ?m]) simp
qed

end
