(* ===== verification/Kv_Command.thy ===== *)
theory Kv_Command
  imports Raft_Types Byte_Codec "HOL-Library.AList"
begin

text \<open>
  Commands of the key-value state machine (\<^verbatim>\<open>d-engine-core/src/command.rs\<close>): the wire type
  \<^verbatim>\<open>WriteCommand\<close> (\<^verbatim>\<open>client_api.proto\<close>), the decoded \<^verbatim>\<open>Command\<close> every state machine receives, the
  conversion between them and the decoding of log entries.  The protobuf decoder is the
  parameter \<^verbatim>\<open>dec\<close>.  The last section is the abstract key-value machine that the state
  machines of the engine refine: commands applied one at a time to a finite map.
\<close>

section \<open>Wire commands and decoded commands\<close>

datatype wire_batch_op =
    Wire_Batch_Insert bytes bytes u64
  | Wire_Batch_Delete bytes

datatype write_command =
    Wire_Insert bytes bytes u64
  | Wire_Delete bytes
  | Wire_Cas bytes "bytes option" bytes
  | Wire_Batch "wire_batch_op option list"

datatype batch_op =
    Batch_Insert bytes bytes
  | Batch_Delete bytes

datatype command =
    Cmd_Noop
  | Cmd_Insert bytes bytes "u64 option"
  | Cmd_Delete bytes
  | Cmd_Cas bytes "bytes option" bytes
  | Cmd_Batch "batch_op list"

record apply_entry =
  ay_index :: u64
  ay_term :: u64
  ay_command :: command

text \<open>A batch operation carries no time to live; \<^verbatim>\<open>collect\<close> stops at the first failure.\<close>

definition batch_op_try_from :: "wire_batch_op option \<Rightarrow> batch_op result" where
  "batch_op_try_from op =
     (case op of
        Some (Wire_Batch_Insert key val ttl_secs) \<Rightarrow>
          if ttl_secs \<noteq> 0 then Inl (StorageError ''BatchOp does not support TTL'')
          else Inr (Batch_Insert key val)
      | Some (Wire_Batch_Delete key) \<Rightarrow> Inr (Batch_Delete key)
      | None \<Rightarrow> Inl (StorageError ''BatchOp has no operation''))"

fun collect_results :: "('a \<Rightarrow> 'b result) \<Rightarrow> 'a list \<Rightarrow> 'b list result" where
  "collect_results f [] = Inr []"
| "collect_results f (x # xs) =
     bind_result (f x) (\<lambda>y. bind_result (collect_results f xs) (\<lambda>ys. Inr (y # ys)))"

definition command_try_from :: "write_command option \<Rightarrow> command result" where
  "command_try_from wc =
     (case wc of
        Some (Wire_Insert key val ttl_secs) \<Rightarrow>
          Inr (Cmd_Insert key val (if ttl_secs = 0 then None else Some ttl_secs))
      | Some (Wire_Delete key) \<Rightarrow> Inr (Cmd_Delete key)
      | Some (Wire_Cas key expected new_value) \<Rightarrow> Inr (Cmd_Cas key expected new_value)
      | Some (Wire_Batch ops) \<Rightarrow>
          bind_result (collect_results batch_op_try_from ops) (\<lambda>ops'. Inr (Cmd_Batch ops'))
      | None \<Rightarrow> Inl (StorageError ''WriteCommand has no operation''))"

text \<open>The decoder of the wire format returns nothing for bytes that are not a message.\<close>

definition decode_entry ::
    "(string \<Rightarrow> write_command option option) \<Rightarrow> entry \<Rightarrow> apply_entry result" where
  "decode_entry dec e =
     (case e_payload e of
        None \<Rightarrow> Inl (StorageError ''Entry has no payload'')
      | Some Noop \<Rightarrow> Inr \<lparr>ay_index = e_index e, ay_term = e_term e, ay_command = Cmd_Noop\<rparr>
      | Some (Config _) \<Rightarrow> Inr \<lparr>ay_index = e_index e, ay_term = e_term e, ay_command = Cmd_Noop\<rparr>
      | Some (Command payload_bytes) \<Rightarrow>
          (case dec payload_bytes of
             None \<Rightarrow> Inl (StorageError ''Failed to decode WriteCommand'')
           | Some wc \<Rightarrow>
               bind_result (command_try_from wc)
                 (\<lambda>c. Inr \<lparr>ay_index = e_index e, ay_term = e_term e, ay_command = c\<rparr>)))"

definition decode_entries ::
    "(string \<Rightarrow> write_command option option) \<Rightarrow> entry list \<Rightarrow> apply_entry list result" where
  "decode_entries dec es = collect_results (decode_entry dec) es"

section \<open>Decoding keeps positions and indexes\<close>

lemma collect_results_Inr:
  "collect_results f xs = Inr ys \<longleftrightarrow> list_all2 (\<lambda>x y. f x = Inr y) xs ys"
proof (induction xs arbitrary: ys)
  case (Cons x xs)
  then show ?case
    by (cases ys) (auto simp: bind_result_Inr_iff list_all2_Cons1)
qed auto

lemma decode_entry_index:
  "decode_entry dec e = Inr a \<Longrightarrow> ay_index a = e_index e \<and> ay_term a = e_term e"
  by (auto simp: decode_entry_def bind_result_Inr_iff split: option.splits payload.splits)

text \<open>A decoded chunk has one entry for each log entry, in order and with its index and
  term, so that the last applied index advances through no-ops and configuration changes.\<close>

lemma decode_entries_indexes:
  assumes "decode_entries dec es = Inr as"
  shows "map ay_index as = map e_index es" and "map ay_term as = map e_term es"
proof -
  have "list_all2 (\<lambda>e a. decode_entry dec e = Inr a) es as"
    using assms by (simp add: decode_entries_def collect_results_Inr)
  then have "map ay_index as = map e_index es \<and> map ay_term as = map e_term es"
    by induction (auto dest: decode_entry_index)
  then show "map ay_index as = map e_index es" and "map ay_term as = map e_term es"
    by simp_all
qed

section \<open>The abstract key-value machine\<close>

type_synonym kv_table = "bytes \<rightharpoonup> (bytes \<times> u64)"

definition kv_batch_op :: "u64 \<Rightarrow> batch_op \<Rightarrow> kv_table \<Rightarrow> kv_table" where
  "kv_batch_op t op m =
     (case op of Batch_Insert k v \<Rightarrow> m(k \<mapsto> (v, t)) | Batch_Delete k \<Rightarrow> m(k := None))"

definition kv_cas_holds :: "kv_table \<Rightarrow> bytes \<Rightarrow> bytes option \<Rightarrow> bool" where
  "kv_cas_holds m k expected = (map_option fst (m k) = expected)"

definition kv_step :: "apply_entry \<Rightarrow> kv_table \<Rightarrow> kv_table \<times> apply_result" where
  "kv_step e m =
     (let ok = \<lparr>ap_index = ay_index e, ap_succeeded = True\<rparr> in
      case ay_command e of
        Cmd_Noop \<Rightarrow> (m, ok)
      | Cmd_Insert k v _ \<Rightarrow> (m(k \<mapsto> (v, ay_term e)), ok)
      | Cmd_Delete k \<Rightarrow> (m(k := None), ok)
      | Cmd_Cas k expected v \<Rightarrow>
          if kv_cas_holds m k expected then (m(k \<mapsto> (v, ay_term e)), ok)
          else (m, ok\<lparr>ap_succeeded := False\<rparr>)
      | Cmd_Batch ops \<Rightarrow> (fold (kv_batch_op (ay_term e)) ops m, ok))"

fun kv_run :: "apply_entry list \<Rightarrow> kv_table \<Rightarrow> kv_table \<times> apply_result list" where
  "kv_run [] m = (m, [])"
| "kv_run (e # es) m =
     (case kv_step e m of (m', r) \<Rightarrow> case kv_run es m' of (m'', rs) \<Rightarrow> (m'', r # rs))"

lemma kv_run_append:
  "kv_run (xs @ ys) m =
     (case kv_run xs m of (m', rs) \<Rightarrow> case kv_run ys m' of (m'', rs') \<Rightarrow> (m'', rs @ rs'))"
  by (induction xs arbitrary: m) (auto split: prod.splits)

lemma kv_run_indexes: "map ap_index (snd (kv_run es m)) = map ay_index es"
  by (induction es arbitrary: m)
    (auto simp: kv_step_def Let_def case_prod_beta split: command.splits)

end
