(* ===== verification/Ttl_Lease.thy ===== *)
theory Ttl_Lease
  imports Kv_Command
begin

text \<open>
  Expiry of keys: the \<^verbatim>\<open>TtlLease\<close> of \<^verbatim>\<open>d-engine-server/src/storage/lease.rs\<close>, one map from keys to
  absolute expiry times.

  \<^item> A \<^verbatim>\<open>SystemTime\<close> is the number of nanoseconds since the Unix epoch.  Adding seconds panics
    when the seconds of the sum do not fit a signed 64-bit number.
  \<^item> The concurrent hash map is an association list with distinct keys; its order stands for
    the iteration order, which no lemma depends on.
  \<^item> The clock and the binary encoder and decoder (\<^verbatim>\<open>bincode\<close>) are parameters.
\<close>

type_synonym systime = nat

definition nanos_per_sec :: nat where
  "nanos_per_sec = 1000000000"

definition i64_max :: nat where
  "i64_max = 2 ^ 63 - 1"

definition systime_add :: "systime \<Rightarrow> u64 \<Rightarrow> systime result" where
  "systime_add now secs =
     (if now div nanos_per_sec + secs > i64_max
      then Inl (Panic ''overflow when adding duration to instant'')
      else Inr (now + secs * nanos_per_sec))"

definition as_secs :: "nat \<Rightarrow> u64" where
  "as_secs d = d div nanos_per_sec"

type_synonym lease_snapshot = "(bytes \<times> systime) list"

record ttl_lease =
  tl_apply_counter :: u64
  tl_key_to_expiry :: "(bytes \<times> systime) list"
  tl_has_keys :: bool

definition ttl_lease_new :: ttl_lease where
  "ttl_lease_new = \<lparr>tl_apply_counter = 0, tl_key_to_expiry = [], tl_has_keys = False\<rparr>"

text \<open>The index rebuilt from a snapshot: keys that have expired are left out.\<close>

definition live_keys :: "systime \<Rightarrow> lease_snapshot \<Rightarrow> (bytes \<times> systime) list" where
  "live_keys now snapshot =
     fold (\<lambda>(k, expire_at) m. if expire_at > now then AList.update k expire_at m else m) snapshot []"

definition lease_from_snapshot ::
    "(bytes \<Rightarrow> lease_snapshot option) \<Rightarrow> systime \<Rightarrow> bytes \<Rightarrow> ttl_lease" where
  "lease_from_snapshot deser now raw =
     (case deser raw of
        None \<Rightarrow> ttl_lease_new
      | Some snapshot \<Rightarrow>
          let l = ttl_lease_new\<lparr>tl_key_to_expiry := live_keys now snapshot\<rparr>
          in if tl_key_to_expiry l \<noteq> [] then l\<lparr>tl_has_keys := True\<rparr> else l)"

definition lease_register :: "systime \<Rightarrow> bytes \<Rightarrow> u64 \<Rightarrow> ttl_lease \<Rightarrow> ttl_lease result" where
  "lease_register now key ttl_secs l =
     bind_result (systime_add now ttl_secs)
       (\<lambda>expire_at. Inr (l\<lparr>tl_has_keys := True,
                            tl_key_to_expiry := AList.update key expire_at (tl_key_to_expiry l)\<rparr>))"

definition lease_unregister :: "bytes \<Rightarrow> ttl_lease \<Rightarrow> ttl_lease" where
  "lease_unregister key l = l\<lparr>tl_key_to_expiry := AList.delete key (tl_key_to_expiry l)\<rparr>"

definition lease_is_expired :: "systime \<Rightarrow> bytes \<Rightarrow> ttl_lease \<Rightarrow> bool" where
  "lease_is_expired now key l =
     (case map_of (tl_key_to_expiry l) key of Some expire_at \<Rightarrow> expire_at \<le> now | None \<Rightarrow> False)"

text \<open>Both phases of the cleanup: the expired keys are collected, then each is removed if it is
  still expired (\<^verbatim>\<open>remove_if\<close>) and reported.\<close>

fun remove_if_expired ::
    "systime \<Rightarrow> bytes list \<Rightarrow> (bytes \<times> systime) list \<Rightarrow> (bytes \<times> systime) list \<times> bytes list" where
  "remove_if_expired now [] m = (m, [])"
| "remove_if_expired now (k # ks) m =
     (case map_of m k of
        Some v \<Rightarrow>
          if v \<le> now
          then (case remove_if_expired now ks (AList.delete k m) of (m', removed) \<Rightarrow> (m', k # removed))
          else remove_if_expired now ks m
      | None \<Rightarrow> remove_if_expired now ks m)"

definition lease_get_expired_keys :: "systime \<Rightarrow> ttl_lease \<Rightarrow> ttl_lease \<times> bytes list" where
  "lease_get_expired_keys now l =
     (let to_remove = map fst (filter (\<lambda>b. snd b \<le> now) (tl_key_to_expiry l))
      in case remove_if_expired now to_remove (tl_key_to_expiry l) of
           (m, removed) \<Rightarrow> (l\<lparr>tl_key_to_expiry := m\<rparr>, removed))"

definition lease_on_apply :: "ttl_lease \<Rightarrow> bytes list" where
  "lease_on_apply l = []"

definition lease_has_lease_keys :: "ttl_lease \<Rightarrow> bool" where
  "lease_has_lease_keys l = tl_has_keys l"

definition lease_may_have_expired_keys :: "systime \<Rightarrow> ttl_lease \<Rightarrow> bool" where
  "lease_may_have_expired_keys now l =
     (if \<not> lease_has_lease_keys l then False
      else \<exists>b \<in> set (take 10 (tl_key_to_expiry l)). snd b \<le> now)"

definition lease_len :: "ttl_lease \<Rightarrow> nat" where
  "lease_len l = length (tl_key_to_expiry l)"

definition lease_to_snapshot :: "(lease_snapshot \<Rightarrow> bytes) \<Rightarrow> ttl_lease \<Rightarrow> bytes" where
  "lease_to_snapshot ser l = ser (tl_key_to_expiry l)"

definition lease_reload ::
    "(bytes \<Rightarrow> lease_snapshot option) \<Rightarrow> systime \<Rightarrow> bytes \<Rightarrow> ttl_lease \<Rightarrow> ttl_lease result" where
  "lease_reload deser now raw l =
     (case deser raw of
        None \<Rightarrow> Inl (StorageError ''Failed to deserialize lease snapshot'')
      | Some snapshot \<Rightarrow>
          let l' = l\<lparr>tl_key_to_expiry := live_keys now snapshot, tl_apply_counter := 0\<rparr>
          in Inr (if tl_key_to_expiry l' \<noteq> [] then l'\<lparr>tl_has_keys := True\<rparr> else l'))"

section \<open>What the lease promises\<close>

text \<open>The abstract lease: the expiry time of each key.  The invariant: keys are distinct and
  the flag is set whenever a key is registered.\<close>

definition lease_abs :: "ttl_lease \<Rightarrow> bytes \<rightharpoonup> systime" where
  "lease_abs l = map_of (tl_key_to_expiry l)"

definition lease_inv :: "ttl_lease \<Rightarrow> bool" where
  "lease_inv l = (distinct (map fst (tl_key_to_expiry l))
                  \<and> (tl_key_to_expiry l \<noteq> [] \<longrightarrow> tl_has_keys l))"

lemma map_of_remove_if_expired:
  "map_of (fst (remove_if_expired now ks m)) x =
     (if x \<in> set ks \<and> (\<exists>v. map_of m x = Some v \<and> v \<le> now) then None else map_of m x)"
  by (induction now ks m rule: remove_if_expired.induct)
    (auto simp: delete_conv' case_prod_beta split: option.splits)

lemma remove_if_expired_keys:
  "set (snd (remove_if_expired now ks m)) = {k \<in> set ks. \<exists>v. map_of m k = Some v \<and> v \<le> now}"
  by (induction now ks m rule: remove_if_expired.induct)
    (auto simp: delete_conv' case_prod_beta split: option.splits)

lemma distinct_remove_if_expired:
  "distinct (map fst m) \<Longrightarrow> distinct (map fst (fst (remove_if_expired now ks m)))"
  by (induction now ks m rule: remove_if_expired.induct)
    (auto simp: distinct_delete case_prod_beta split: option.splits)

lemma remove_if_expired_subset: "set (fst (remove_if_expired now ks m)) \<subseteq> set m"
  by (induction now ks m rule: remove_if_expired.induct)
    (auto simp: case_prod_beta AList.delete_eq split: option.splits)

lemma live_keys_fold:
  "map_of (fold (\<lambda>(k, v) m. if v > (now::nat) then AList.update k v m else m) ss m) x =
     (case map_of (filter (\<lambda>b. snd b > now) (rev ss)) x of None \<Rightarrow> map_of m x | r \<Rightarrow> r)"
proof (induction ss arbitrary: m)
  case (Cons b ss)
  then show ?case
    by (auto simp: update_conv' map_add_def split: option.splits prod.splits)
qed simp

lemma live_keys_distinct: "distinct (map fst (live_keys now ss))"
proof -
  have "distinct (map fst m) \<Longrightarrow>
      distinct (map fst (fold (\<lambda>(k, v) m. if v > now then AList.update k v m else m) ss m))" for m
    by (induction ss arbitrary: m) (auto simp: distinct_update)
  then show ?thesis
    by (simp add: live_keys_def)
qed

lemma map_of_filter_snd:
  "distinct (map fst m) \<Longrightarrow>
   map_of (filter (\<lambda>b. P (snd b)) m) k = (case map_of m k of Some v \<Rightarrow> if P v then Some v else None | None \<Rightarrow> None)"
  by (induction m) (auto simp: map_of_eq_None_iff image_iff split: option.splits)

lemma map_of_rev_distinct: "distinct (map fst m) \<Longrightarrow> map_of (rev m) = map_of m"
proof (rule map_of_eqI)
  assume "distinct (map fst m)"
  then have "distinct (map fst (rev m))"
    by (metis distinct_rev rev_map)
  then show "\<forall>k \<in> set (map fst (rev m)). map_of (rev m) k = map_of m k"
    using \<open>distinct (map fst m)\<close> by auto
qed simp

lemma map_of_live_keys:
  "distinct (map fst ss) \<Longrightarrow>
   map_of (live_keys now ss) k = (case map_of ss k of Some t \<Rightarrow> if t > now then Some t else None | None \<Rightarrow> None)"
proof -
  assume d: "distinct (map fst ss)"
  then have "distinct (map fst (rev ss))"
    by (metis distinct_rev rev_map)
  from map_of_filter_snd [OF this, of "\<lambda>t. t > now" k]
  have *: "map_of (filter (\<lambda>b. now < snd b) (rev ss)) k =
      (case map_of ss k of Some t \<Rightarrow> if t > now then Some t else None | None \<Rightarrow> None)"
    by (simp only: map_of_rev_distinct [OF d])
  show ?thesis
    by (simp only: live_keys_def live_keys_fold *) (simp split: option.split)
qed

text \<open>Each operation on the abstract lease.\<close>

lemma lease_register_abs:
  "lease_register now k ttl l = Inr l' \<Longrightarrow> lease_abs l' = (lease_abs l)(k \<mapsto> now + ttl * nanos_per_sec)"
  by (auto simp: lease_register_def bind_result_Inr_iff systime_add_def lease_abs_def update_conv'
      split: if_splits)

lemma lease_unregister_abs: "lease_abs (lease_unregister k l) = (lease_abs l)(k := None)"
  by (simp add: lease_abs_def lease_unregister_def delete_conv')

lemma lease_is_expired_abs:
  "lease_is_expired now k l \<longleftrightarrow> (\<exists>t. lease_abs l k = Some t \<and> t \<le> now)"
  by (simp add: lease_is_expired_def lease_abs_def split: option.splits)

lemma lease_get_expired_keys_abs:
  assumes "lease_inv l"
  shows "set (snd (lease_get_expired_keys now l)) = {k. lease_is_expired now k l}"
    and "lease_abs (fst (lease_get_expired_keys now l)) =
           (\<lambda>k. if lease_is_expired now k l then None else lease_abs l k)"
proof -
  have d: "distinct (map fst (tl_key_to_expiry l))"
    using assms by (simp add: lease_inv_def)
  have *: "k \<in> fst ` {b \<in> set (tl_key_to_expiry l). snd b \<le> now} \<longleftrightarrow> lease_is_expired now k l" for k
    using d by (force simp: lease_is_expired_abs lease_abs_def)
  show "set (snd (lease_get_expired_keys now l)) = {k. lease_is_expired now k l}"
    using * by (auto simp: lease_get_expired_keys_def Let_def case_prod_beta remove_if_expired_keys
        lease_is_expired_abs lease_abs_def)
  show "lease_abs (fst (lease_get_expired_keys now l)) =
          (\<lambda>k. if lease_is_expired now k l then None else lease_abs l k)"
    using * by (auto simp: lease_get_expired_keys_def Let_def case_prod_beta lease_abs_def
        map_of_remove_if_expired lease_is_expired_abs fun_eq_iff)
qed

lemma lease_register_inv: "lease_inv l \<Longrightarrow> lease_register now k ttl l = Inr l' \<Longrightarrow> lease_inv l'"
  by (auto simp: lease_inv_def lease_register_def bind_result_Inr_iff distinct_update)

lemma lease_unregister_inv: "lease_inv l \<Longrightarrow> lease_inv (lease_unregister k l)"
  by (auto simp: lease_inv_def lease_unregister_def distinct_delete)

lemma lease_get_expired_keys_inv: "lease_inv l \<Longrightarrow> lease_inv (fst (lease_get_expired_keys now l))"
  using remove_if_expired_subset [of now _ "tl_key_to_expiry l"]
  by (auto simp: lease_inv_def lease_get_expired_keys_def Let_def case_prod_beta distinct_remove_if_expired)

lemma lease_reload_inv: "lease_reload deser now raw l = Inr l' \<Longrightarrow> lease_inv l'"
  by (auto simp: lease_inv_def lease_reload_def Let_def live_keys_distinct split: option.splits if_splits)

text \<open>A snapshot taken by one lease and reloaded by another restores exactly the keys that
  have not expired.\<close>

lemma lease_snapshot_reload:
  assumes "lease_inv l" and "deser (ser (tl_key_to_expiry l)) = Some (tl_key_to_expiry l)"
    and "lease_reload deser now (lease_to_snapshot ser l) l0 = Inr l'"
  shows "lease_abs l' = (\<lambda>k. if lease_is_expired now k l then None else lease_abs l k)"
proof -
  have "tl_key_to_expiry l' = live_keys now (tl_key_to_expiry l)"
    using assms(2,3) by (auto simp: lease_reload_def lease_to_snapshot_def Let_def split: if_splits)
  then show ?thesis
    using assms(1) by (auto simp: lease_inv_def lease_abs_def fun_eq_iff map_of_live_keys
        lease_is_expired_def split: option.splits)
qed

end
