(* ===== verification/Kv_Wal.thy ===== *)
theory Kv_Wal
  imports Ttl_Lease
begin

text \<open>
  The write-ahead log of the file state machine and the codec of its data file
  (\<^verbatim>\<open>d-engine-server/src/storage/adaptors/file/file_state_machine.rs\<close>): \<^verbatim>\<open>WalOpCode\<close>,
  \<^verbatim>\<open>encode_wal_entry\<close>, the parsing loop of \<^verbatim>\<open>replay_wal\<close>, and the loop shared by \<^verbatim>\<open>load_data\<close> and
  \<^verbatim>\<open>apply_snapshot_from_file\<close>.

  The position in a buffer is kept beside the bytes that remain: it matters for the check
  \<^verbatim>\<open>pos + len > buffer.len()\<close>, whose sum can overflow.  (An overflowing sum panics in a debug
  build; in a release build it wraps below \<^verbatim>\<open>pos\<close>, passes the check, and the slice panics.)
\<close>

section \<open>Operation codes\<close>

datatype wal_opcode = Wal_Noop | Wal_Insert | Wal_Delete | Wal_Config | Wal_Cas | Wal_CasFailed

definition opcode_to_u8 :: "wal_opcode \<Rightarrow> nat" where
  "opcode_to_u8 op =
     (case op of Wal_Noop \<Rightarrow> 0 | Wal_Insert \<Rightarrow> 1 | Wal_Delete \<Rightarrow> 2 | Wal_Config \<Rightarrow> 3 | Wal_Cas \<Rightarrow> 4
      | Wal_CasFailed \<Rightarrow> 5)"

definition opcode_from_u8 :: "nat \<Rightarrow> wal_opcode option" where
  "opcode_from_u8 b =
     (if b = 0 then Some Wal_Noop else if b = 1 then Some Wal_Insert
      else if b = 2 then Some Wal_Delete else if b = 3 then Some Wal_Config
      else if b = 4 then Some Wal_Cas else if b = 5 then Some Wal_CasFailed else None)"

definition opcode_from_str :: "string \<Rightarrow> wal_opcode option" where
  "opcode_from_str s =
     (if s = ''NOOP'' then Some Wal_Noop else if s = ''INSERT'' then Some Wal_Insert
      else if s = ''DELETE'' then Some Wal_Delete else if s = ''CONFIG'' then Some Wal_Config
      else if s = ''CAS'' then Some Wal_Cas else if s = ''CAS_FAILED'' then Some Wal_CasFailed
      else None)"

lemma opcode_round_trip [simp]: "opcode_from_u8 (opcode_to_u8 op) = Some op"
  by (cases op) (simp_all add: opcode_from_u8_def opcode_to_u8_def)

section \<open>Encoding\<close>

text \<open>What follows the index and the term of an entry.\<close>

definition wal_fields :: "wal_opcode \<Rightarrow> bytes \<Rightarrow> bytes \<Rightarrow> u64 \<Rightarrow> bytes" where
  "wal_fields op key val expire_at =
     opcode_to_u8 op # u64_to_be_bytes (length key) @ key
       @ u64_to_be_bytes (length val) @ val @ u64_to_be_bytes expire_at"

definition expire_at_secs :: "systime \<Rightarrow> u64 option \<Rightarrow> u64 result" where
  "expire_at_secs now ttl_secs =
     (case ttl_secs of
        Some ttl \<Rightarrow> bind_result (systime_add now ttl) (\<lambda>expire_at. Inr (as_secs expire_at))
      | None \<Rightarrow> Inr 0)"

definition encode_batch_op :: "batch_op \<Rightarrow> bytes" where
  "encode_batch_op op =
     (case op of
        Batch_Insert key val \<Rightarrow> wal_fields Wal_Insert key val 0
      | Batch_Delete key \<Rightarrow> wal_fields Wal_Delete key [] 0)"

text \<open>The bytes one entry appends to the buffer.  The operations of a batch after the first
  get a prefix of their own; a failed comparison is written without its key.\<close>

definition encode_wal_entry :: "systime \<Rightarrow> apply_entry \<Rightarrow> bool \<Rightarrow> bytes result" where
  "encode_wal_entry now e cas_success =
     (let prefix = u64_to_be_bytes (ay_index e) @ u64_to_be_bytes (ay_term e) in
      case ay_command e of
        Cmd_Noop \<Rightarrow> Inr (prefix @ wal_fields Wal_Noop [] [] 0)
      | Cmd_Insert key val ttl_secs \<Rightarrow>
          bind_result (expire_at_secs now ttl_secs)
            (\<lambda>expire_at. Inr (prefix @ wal_fields Wal_Insert key val expire_at))
      | Cmd_Delete key \<Rightarrow> Inr (prefix @ wal_fields Wal_Delete key [] 0)
      | Cmd_Cas key _ val \<Rightarrow>
          Inr (prefix @ (if cas_success then wal_fields Wal_Insert key val 0
                         else wal_fields Wal_CasFailed [] [] 0))
      | Cmd_Batch ops \<Rightarrow>
          Inr (prefix @ concat (map (\<lambda>(i, op). (if i > 0 then prefix else []) @ encode_batch_op op)
                                    (List.enumerate 0 ops))))"

section \<open>Parsing\<close>

definition read_u64 :: "bytes \<Rightarrow> (u64 \<times> bytes) option" where
  "read_u64 bs = (if length bs < 8 then None else Some (u64_from_be_bytes (take 8 bs), drop 8 bs))"

text \<open>A length and as many bytes, with the bytes behind them.  When the buffer ends before, the
  second component is what was not consumed: the length is consumed even if its bytes are
  missing.\<close>

definition read_block :: "nat \<Rightarrow> bytes \<Rightarrow> (bytes option \<times> bytes) result" where
  "read_block pos bs =
     (case read_u64 bs of
        None \<Rightarrow> Inr (None, bs)
      | Some (n, rest) \<Rightarrow>
          if pos + 8 + n > u64_max then Inl (Panic ''attempt to add with overflow'')
          else if length rest < n then Inr (None, rest)
          else Inr (Some (take n rest), drop n rest))"

record wal_op =
  wo_code :: wal_opcode
  wo_key :: bytes
  wo_value :: "bytes option"
  wo_term :: u64
  wo_expire_at :: "u64 option"

text \<open>One record: index, operation and the bytes that remain.  \<^verbatim>\<open>None\<close> is a truncated tail.\<close>

definition parse_record :: "nat \<Rightarrow> bytes \<Rightarrow> (u64 \<times> wal_op \<times> bytes) option result" where
  "parse_record pos bs =
     (let index = u64_from_be_bytes (take 8 bs);
          trm = u64_from_be_bytes (take 8 (drop 8 bs))
      in case opcode_from_u8 (bs ! 16) of
           None \<Rightarrow> Inl (DataCorruption ''WAL opcode'')
         | Some op \<Rightarrow>
             bind_result (read_block (pos + 17) (drop 17 bs)) (\<lambda>k.
             case k of
               (None, _) \<Rightarrow> Inr None
             | (Some key, r1) \<Rightarrow>
                 bind_result (read_block (pos + 25 + length key) r1) (\<lambda>v.
                 case v of
                   (None, _) \<Rightarrow> Inr None
                 | (Some val, r2) \<Rightarrow>
                     (case read_u64 r2 of
                        None \<Rightarrow> Inr None
                      | Some (secs, r3) \<Rightarrow>
                          Inr (Some (index,
                                     \<lparr>wo_code = op, wo_key = key,
                                      wo_value = (if val = [] then None else Some val),
                                      wo_term = trm,
                                      wo_expire_at = (if secs > 0 then Some secs else None)\<rparr>,
                                     r3))))))"

lemma read_u64_SomeD: "read_u64 bs = Some (n, rest) \<Longrightarrow> length bs = 8 + length rest"
  by (auto simp: read_u64_def split: if_splits)

lemma read_block_SomeD:
  "read_block pos bs = Inr (Some block, rest) \<Longrightarrow> length bs = 8 + length block + length rest"
  by (auto simp: read_block_def split: option.splits prod.splits if_splits dest!: read_u64_SomeD)

text \<open>A record that parses has at least forty-one bytes.\<close>

lemma parse_record_SomeD:
  "parse_record pos bs = Inr (Some (i, op, rest)) \<Longrightarrow> 17 < length bs \<Longrightarrow> length rest + 41 \<le> length bs"
  by (auto simp: parse_record_def Let_def elim!: bind_result_InrE
      split: option.split_asm prod.split_asm dest!: read_block_SomeD read_u64_SomeD) arith

text \<open>The loop: records with an index that is already applied are skipped.\<close>

function parse_wal :: "nat \<Rightarrow> u64 \<Rightarrow> bytes \<Rightarrow> wal_op list result" where
  "parse_wal pos last_applied bs =
     (if \<not> 17 < length bs then Inr []
      else case parse_record pos bs of
             Inl e \<Rightarrow> Inl e
           | Inr None \<Rightarrow> Inr []
           | Inr (Some (index, op, rest)) \<Rightarrow>
               bind_result (parse_wal (pos + (length bs - length rest)) last_applied rest)
                 (\<lambda>ops. Inr (if index \<le> last_applied then ops else op # ops)))"
  by pat_completeness auto
termination
  by (relation "measure (\<lambda>(pos, la, bs). length bs)") (auto dest: parse_record_SomeD)

declare parse_wal.simps [simp del]

text \<open>The data file: key, value and term of each binding.\<close>

definition encode_kv :: "bytes \<times> bytes \<times> u64 \<Rightarrow> bytes" where
  "encode_kv b =
     (case b of (key, val, trm) \<Rightarrow>
        u64_to_be_bytes (length key) @ key @ u64_to_be_bytes (length val) @ val @ u64_to_be_bytes trm)"

definition encode_data :: "(bytes \<times> bytes \<times> u64) list \<Rightarrow> bytes" where
  "encode_data m = concat (map encode_kv m)"

text \<open>One binding and the bytes behind it, or nothing and the bytes left when the buffer ended.\<close>

definition parse_kv :: "nat \<Rightarrow> bytes \<Rightarrow> ((bytes \<times> bytes \<times> u64) option \<times> bytes) result" where
  "parse_kv pos bs =
     bind_result (read_block pos bs) (\<lambda>k.
     case k of
       (None, r) \<Rightarrow> Inr (None, r)
     | (Some key, r1) \<Rightarrow>
         bind_result (read_block (pos + 8 + length key) r1) (\<lambda>v.
         case v of
           (None, r) \<Rightarrow> Inr (None, r)
         | (Some val, r2) \<Rightarrow>
             (case read_u64 r2 of
                None \<Rightarrow> Inr (None, r2)
              | Some (trm, r3) \<Rightarrow> Inr (Some (key, val, trm), r3))))"

lemma parse_kv_SomeD: "parse_kv pos bs = Inr (Some b, rest) \<Longrightarrow> length rest + 24 \<le> length bs"
  by (auto simp: parse_kv_def elim!: bind_result_InrE
      split: option.split_asm prod.split_asm dest!: read_block_SomeD read_u64_SomeD)

function parse_data ::
    "nat \<Rightarrow> bytes \<Rightarrow> (bytes \<times> bytes \<times> u64) list \<Rightarrow> ((bytes \<times> bytes \<times> u64) list \<times> bytes) result" where
  "parse_data pos bs m =
     (if bs = [] then Inr (m, [])
      else case parse_kv pos bs of
             Inl e \<Rightarrow> Inl e
           | Inr (None, rest) \<Rightarrow> Inr (m, rest)
           | Inr (Some (key, val, trm), rest) \<Rightarrow>
               parse_data (pos + (length bs - length rest)) rest (AList.update key (val, trm) m))"
  by pat_completeness auto
termination
  by (relation "measure (\<lambda>(pos, bs, m). length bs)") (auto dest: parse_kv_SomeD)

declare parse_data.simps [simp del]

end
