(* ===== verification/Wal_Codec.thy ===== *)
theory Wal_Codec
  imports Kv_Wal
begin

text \<open>
  Round trips of the two file formats of the file state machine.  Whatever chunk of entries was
  encoded, parsing returns its records in order, also when the last record was cut anywhere by
  a crash; the data file parses back to the bindings it was written from.
\<close>

section \<open>Fields and blocks\<close>

lemma u64_max_less: "n \<le> u64_max \<longleftrightarrow> n < 2 ^ 64"
  by (auto simp: u64_max_def)

lemma read_u64_be [simp]: "n < 2 ^ 64 \<Longrightarrow> read_u64 (u64_to_be_bytes n @ bs) = Some (n, bs)"
  by (simp add: read_u64_def be_bytes_round_trip)

lemma read_u64_short [simp]: "length bs < 8 \<Longrightarrow> read_u64 bs = None"
  by (simp add: read_u64_def)

lemma read_block_be:
  "pos + 8 + length b \<le> u64_max \<Longrightarrow>
   read_block pos (u64_to_be_bytes (length b) @ b @ bs) = Inr (Some b, bs)"
  using u64_max_less [of "length b"] by (simp add: read_block_def)

lemma read_block_torn:
  assumes "pos + 8 + length b \<le> u64_max" and "n < 8 + length b"
  shows "\<exists>r. read_block pos (take n (u64_to_be_bytes (length b) @ b @ bs)) = Inr (None, r)"
proof (cases "n < 8")
  case False
  then have "take n (u64_to_be_bytes (length b) @ b @ bs) = u64_to_be_bytes (length b) @ take (n - 8) b"
    using assms(2) by simp
  moreover have "length b < 2 ^ 64"
    using assms(1) by (simp add: u64_max_less)
  ultimately show ?thesis
    using assms False by (simp add: read_block_def)
qed (simp add: read_block_def)

section \<open>Records of the write-ahead log\<close>

type_synonym wal_rec = "wal_opcode \<times> bytes \<times> bytes \<times> u64"

definition wal_record :: "u64 \<Rightarrow> u64 \<Rightarrow> wal_rec \<Rightarrow> bytes" where
  "wal_record i t r =
     (case r of (op, k, v, x) \<Rightarrow> u64_to_be_bytes i @ u64_to_be_bytes t @ wal_fields op k v x)"

definition wal_rec_op :: "u64 \<Rightarrow> wal_rec \<Rightarrow> wal_op" where
  "wal_rec_op t r =
     (case r of (op, k, v, x) \<Rightarrow>
        \<lparr>wo_code = op, wo_key = k, wo_value = (if v = [] then None else Some v), wo_term = t,
         wo_expire_at = (if x > 0 then Some x else None)\<rparr>)"

definition wal_rec_wf :: "u64 \<times> u64 \<times> wal_rec \<Rightarrow> bool" where
  "wal_rec_wf = (\<lambda>(i, t, op, k, v, x). i < 2 ^ 64 \<and> t < 2 ^ 64 \<and> x < 2 ^ 64)"

definition wal_bytes :: "(u64 \<times> u64 \<times> wal_rec) list \<Rightarrow> bytes" where
  "wal_bytes rs = concat (map (\<lambda>(i, t, r). wal_record i t r) rs)"

lemma wal_bytes_simps [simp]:
  "wal_bytes [] = []"
  "wal_bytes ((i, t, r) # rs) = wal_record i t r @ wal_bytes rs"
  "wal_bytes (rs @ rs') = wal_bytes rs @ wal_bytes rs'"
  by (simp_all add: wal_bytes_def)

lemma wal_record_length: "length (wal_record i t (op, k, v, x)) = 41 + length k + length v"
  by (simp add: wal_record_def wal_fields_def)

lemma wal_record_long: "17 < length (wal_record i t r)"
  by (cases r) (simp add: wal_record_length)

lemma wal_bytes_eq_Nil [simp]: "wal_bytes rs = [] \<longleftrightarrow> rs = []"
proof (cases rs)
  case (Cons b rs')
  obtain i t r where "b = (i, t, r)"
    by (cases b) auto
  then show ?thesis
    using wal_record_long [of i t r] by (auto simp: Cons)
qed simp

lemma wal_record_drop_append [simp]: "drop 17 (wal_record i t r @ bs) = drop 17 (wal_record i t r) @ bs"
  using wal_record_long [of i t r] by simp

lemma wal_record_opcode:
  "drop 17 (wal_record i t (op, k, v, x)) =
     u64_to_be_bytes (length k) @ k @ u64_to_be_bytes (length v) @ v @ u64_to_be_bytes x"
  "(wal_record i t (op, k, v, x) @ bs) ! 16 = opcode_to_u8 op"
  by (simp_all add: wal_record_def wal_fields_def nth_append drop_Cons')

lemma wal_record_head:
  "i < 2 ^ 64 \<Longrightarrow> u64_from_be_bytes (take 8 (wal_record i t r @ bs)) = i"
  "t < 2 ^ 64 \<Longrightarrow> u64_from_be_bytes (take 8 (drop 8 (wal_record i t r @ bs))) = t"
  by (simp_all add: wal_record_def be_bytes_round_trip split: prod.split)

lemma parse_record_complete:
  assumes "wal_rec_wf (i, t, r)" and "pos + length (wal_record i t r) \<le> u64_max"
  shows "parse_record pos (wal_record i t r @ bs) = Inr (Some (i, wal_rec_op t r, bs))"
proof -
  obtain op k v x where r: "r = (op, k, v, x)"
    by (cases r) auto
  have "pos + 41 + length k + length v \<le> u64_max"
    using assms(2) by (simp add: r wal_record_length)
  then have "read_block (pos + 17) (drop 17 (wal_record i t r @ bs)) =
      Inr (Some k, u64_to_be_bytes (length v) @ v @ u64_to_be_bytes x @ bs)"
    and "read_block (pos + 25 + length k) (u64_to_be_bytes (length v) @ v @ u64_to_be_bytes x @ bs) =
      Inr (Some v, u64_to_be_bytes x @ bs)"
    using read_block_be [of "pos + 17" k] read_block_be [of "pos + 25 + length k" v]
    by (simp_all add: r wal_record_opcode del: drop_append)
  then show ?thesis
    using assms(1)
    by (simp del: drop_append take_append add: parse_record_def Let_def r wal_record_opcode wal_record_head wal_rec_wf_def wal_rec_op_def)
qed

text \<open>A record that was cut parses as a truncated tail.\<close>

lemma parse_record_torn:
  assumes "wal_rec_wf (i, t, r)" and "pos + length (wal_record i t r) \<le> u64_max"
    and "17 < n" and "n < length (wal_record i t r)"
  shows "parse_record pos (take n (wal_record i t r)) = Inr None"
proof -
  obtain op k v x where r: "r = (op, k, v, x)"
    by (cases r) auto
  have len: "pos + 41 + length k + length v \<le> u64_max" and n: "n < 41 + length k + length v"
    using assms(2,4) by (simp_all add: r wal_record_length)
  define m where "m = n - 17"
  have fields: "drop 17 (take n (wal_record i t r)) =
      take m (u64_to_be_bytes (length k) @ k @ u64_to_be_bytes (length v) @ v @ u64_to_be_bytes x)"
    using wal_record_opcode(1) [of i t op k v x] by (simp add: r m_def drop_take)
  have code: "take n (wal_record i t r) ! 16 = opcode_to_u8 op"
    using wal_record_opcode(2) [of i t op k v x "[]"] assms(3) by (simp add: r)
  consider "m < 8 + length k" | "8 + length k \<le> m" "m < 16 + length k + length v"
    | "16 + length k + length v \<le> m" by linarith
  then show ?thesis
  proof cases
    case 1
    then show ?thesis
      using read_block_torn [of "pos + 17" k m] len by (auto simp: parse_record_def Let_def code fields)
  next
    case 2
    then have e: "take m (u64_to_be_bytes (length k) @ k @ u64_to_be_bytes (length v) @ v @ u64_to_be_bytes x) =
        u64_to_be_bytes (length k) @ k @ take (m - 8 - length k) (u64_to_be_bytes (length v) @ v @ u64_to_be_bytes x)"
      by simp
    have "m - 8 - length k < 8 + length v"
      using 2 by linarith
    then obtain r' where "read_block (pos + 25 + length k)
        (take (m - 8 - length k) (u64_to_be_bytes (length v) @ v @ u64_to_be_bytes x)) = Inr (None, r')"
      using read_block_torn [of "pos + 25 + length k" v "m - 8 - length k" "u64_to_be_bytes x"] len by auto
    then show ?thesis
      using len read_block_be [of "pos + 17" k]
      unfolding parse_record_def Let_def code fields e by (simp del: take_append)
  next
    case 3
    then have e: "take m (u64_to_be_bytes (length k) @ k @ u64_to_be_bytes (length v) @ v @ u64_to_be_bytes x) =
        u64_to_be_bytes (length k) @ k @ u64_to_be_bytes (length v) @ v
          @ take (m - 16 - length k - length v) (u64_to_be_bytes x)"
      by simp
    have "m - 16 - length k - length v < 8"
      using n 3 by (simp add: m_def)
    then show ?thesis
      using len read_block_be [of "pos + 17" k] read_block_be [of "pos + 25 + length k" v]
      unfolding parse_record_def Let_def code fields e by simp
  qed
qed

text \<open>The tail a crash during an append leaves: a proper prefix of a record, or nothing.\<close>

definition torn_record :: "bytes \<Rightarrow> bool" where
  "torn_record bs = (\<exists>i t r n. wal_rec_wf (i, t, r) \<and> n < length (wal_record i t r)
                       \<and> length (wal_record i t r) \<le> 2 ^ 63 \<and> bs = take n (wal_record i t r))"

lemma torn_record_Nil [simp]: "torn_record []"
proof -
  have "wal_rec_wf (0, 0, Wal_Noop, [], [], 0)" and "0 < length (wal_record 0 0 (Wal_Noop, [], [], 0))"
    and "length (wal_record 0 0 (Wal_Noop, [], [], 0)) \<le> 2 ^ 63"
    by (simp_all add: wal_rec_wf_def wal_record_length)
  then show ?thesis
    unfolding torn_record_def by (metis take0)
qed

lemma parse_wal_torn:
  assumes "torn_record tail" and "pos \<le> 2 ^ 62"
  shows "parse_wal pos la tail = Inr []"
proof -
  obtain i t r n where *: "wal_rec_wf (i, t, r)" "n < length (wal_record i t r)"
      "length (wal_record i t r) \<le> 2 ^ 63" "tail = take n (wal_record i t r)"
    using assms(1) by (auto simp: torn_record_def)
  have "pos + length (wal_record i t r) \<le> u64_max"
    using *(3) assms(2) by (simp add: u64_max_less)
  then have "17 < n \<Longrightarrow> parse_record pos tail = Inr None"
    using parse_record_torn * by simp
  then show ?thesis
    using *(2,4) by (subst parse_wal.simps) auto
qed

text \<open>Parsing returns the records that are not yet applied, in order; a torn tail is
  discarded.  The bound stands for the largest file the platform addresses.\<close>

lemma parse_wal_bytes:
  assumes "\<forall>b \<in> set rs. wal_rec_wf b" and "torn_record tail" and "pos + length (wal_bytes rs) \<le> 2 ^ 62"
  shows "parse_wal pos la (wal_bytes rs @ tail) =
           Inr (map (\<lambda>(i, t, r). wal_rec_op t r) (filter (\<lambda>b. la < fst b) rs))"
  using assms(1,3)
proof (induction rs arbitrary: pos)
  case Nil
  then show ?case
    using parse_wal_torn assms(2) by simp
next
  case (Cons b rs)
  obtain i t r where b: "b = (i, t, r)"
    by (cases b) auto
  have "pos + length (wal_record i t r) \<le> u64_max"
    using Cons.prems by (simp add: b u64_max_less)
  then have p: "parse_record pos (wal_record i t r @ wal_bytes rs @ tail) =
      Inr (Some (i, wal_rec_op t r, wal_bytes rs @ tail))"
    using parse_record_complete Cons.prems by (simp add: b)
  have "17 < length (wal_record i t r @ wal_bytes rs @ tail)"
    using wal_record_long [of i t r] by simp
  then show ?case
    using Cons.IH [of "pos + length (wal_record i t r)"] Cons.prems p
    by (subst parse_wal.simps) (simp add: b)
qed

section \<open>The records of an entry\<close>

definition batch_rec :: "batch_op \<Rightarrow> wal_rec" where
  "batch_rec op = (case op of Batch_Insert k v \<Rightarrow> (Wal_Insert, k, v, 0) | Batch_Delete k \<Rightarrow> (Wal_Delete, k, [], 0))"

definition entry_recs :: "systime \<Rightarrow> apply_entry \<Rightarrow> bool \<Rightarrow> wal_rec list" where
  "entry_recs now e cas_success =
     (case ay_command e of
        Cmd_Noop \<Rightarrow> [(Wal_Noop, [], [], 0)]
      | Cmd_Insert k v ttl \<Rightarrow>
          [(Wal_Insert, k, v, case ttl of None \<Rightarrow> 0 | Some s \<Rightarrow> as_secs (now + s * nanos_per_sec))]
      | Cmd_Delete k \<Rightarrow> [(Wal_Delete, k, [], 0)]
      | Cmd_Cas k _ v \<Rightarrow> [if cas_success then (Wal_Insert, k, v, 0) else (Wal_CasFailed, [], [], 0)]
      | Cmd_Batch ops \<Rightarrow> map batch_rec ops)"

definition entry_wal :: "systime \<Rightarrow> apply_entry \<Rightarrow> bool \<Rightarrow> (u64 \<times> u64 \<times> wal_rec) list" where
  "entry_wal now e cas_success = map (\<lambda>r. (ay_index e, ay_term e, r)) (entry_recs now e cas_success)"

lemma concat_enumerate_Suc:
  "concat (map (\<lambda>(i, x). (if i > (0::nat) then p else []) @ f x) (List.enumerate (Suc n) xs)) =
     concat (map (\<lambda>x. p @ f x) xs)"
  by (induction xs arbitrary: n) simp_all

lemma encode_batch_op_rec: "u64_to_be_bytes i @ u64_to_be_bytes t @ encode_batch_op op = wal_record i t (batch_rec op)"
  by (simp add: encode_batch_op_def wal_record_def batch_rec_def split: batch_op.split)

lemma encode_batch_recs:
  "ops \<noteq> [] \<Longrightarrow>
   (u64_to_be_bytes i @ u64_to_be_bytes t) @ concat (map (\<lambda>(j, op). (if j > (0::nat) then u64_to_be_bytes i @ u64_to_be_bytes t else [])
      @ encode_batch_op op) (List.enumerate 0 ops)) =
   wal_bytes (map (\<lambda>op. (i, t, batch_rec op)) ops)"
  by (cases ops)
    (simp_all add: concat_enumerate_Suc [simplified] wal_bytes_def comp_def encode_batch_op_rec)

text \<open>Every entry but an empty batch is written as whole records.\<close>

lemma encode_wal_entry_recs:
  assumes "encode_wal_entry now e cas_success = Inr bs" and "ay_command e \<noteq> Cmd_Batch []"
  shows "bs = wal_bytes (entry_wal now e cas_success)"
proof (cases "ay_command e")
  case (Cmd_Insert k v ttl)
  then show ?thesis
    using assms(1)
    by (auto simp: encode_wal_entry_def Let_def entry_wal_def entry_recs_def wal_record_def expire_at_secs_def
        systime_add_def elim!: bind_result_InrE split: option.splits if_splits)
next
  case (Cmd_Batch ops)
  then show ?thesis
    using assms encode_batch_recs [of ops "ay_index e" "ay_term e"]
    by (simp add: encode_wal_entry_def Let_def entry_wal_def entry_recs_def comp_def)
qed (use assms in \<open>auto simp: encode_wal_entry_def Let_def entry_wal_def entry_recs_def wal_record_def\<close>)

lemma as_secs_add: "as_secs (now + s * nanos_per_sec) = now div nanos_per_sec + s"
  by (simp add: as_secs_def nanos_per_sec_def)

lemma entry_wal_wf:
  assumes "encode_wal_entry now e cas_success = Inr bs" and "ay_index e < 2 ^ 64" and "ay_term e < 2 ^ 64"
  shows "\<forall>b \<in> set (entry_wal now e cas_success). wal_rec_wf b"
proof (cases "ay_command e")
  case (Cmd_Insert k v ttl)
  then show ?thesis
    using assms
    by (auto simp: encode_wal_entry_def entry_wal_def entry_recs_def wal_rec_wf_def expire_at_secs_def
        systime_add_def as_secs_add i64_max_def Let_def elim!: bind_result_InrE split: option.splits if_splits)
qed (use assms in \<open>auto simp: entry_wal_def entry_recs_def wal_rec_wf_def batch_rec_def split: batch_op.splits\<close>)

section \<open>The data file\<close>

lemma encode_kv_nonempty [simp]: "encode_kv b \<noteq> []"
  using be_bytes_length by (cases b) (auto simp: encode_kv_def simp flip: length_0_conv simp del: be_bytes_length)

lemma parse_kv_encode:
  assumes "trm < 2 ^ 64" and "pos + length (encode_kv (key, val, trm)) \<le> u64_max"
  shows "parse_kv pos (encode_kv (key, val, trm) @ bs) = Inr (Some (key, val, trm), bs)"
  using assms read_block_be [of pos key] read_block_be [of "pos + 8 + length key" val]
  by (simp add: parse_kv_def encode_kv_def)

text \<open>A block alone, without a value behind it, is consumed as a key and then dropped.\<close>

lemma parse_kv_block:
  "pos + 8 + length b \<le> u64_max \<Longrightarrow> parse_kv pos (u64_to_be_bytes (length b) @ b) = Inr (None, [])"
  using read_block_be [of pos b "[]"] by (simp add: parse_kv_def read_block_def [of _ "[]"])

abbreviation kv_insert_all :: "(bytes \<times> bytes \<times> u64) list \<Rightarrow> (bytes \<times> bytes \<times> u64) list \<Rightarrow> (bytes \<times> bytes \<times> u64) list" where
  "kv_insert_all m \<equiv> fold (\<lambda>(key, val). AList.update key val) m"

text \<open>The bindings are read back; the loop stops at whatever does not parse as a binding.\<close>

lemma parse_data_encode:
  assumes "\<forall>(k, v, t) \<in> set m. t < 2 ^ 64" and "pos + length (encode_data m) \<le> u64_max"
    and "tail = [] \<and> rest = [] \<or> tail \<noteq> [] \<and> parse_kv (pos + length (encode_data m)) tail = Inr (None, rest)"
  shows "parse_data pos (encode_data m @ tail) acc = Inr (kv_insert_all m acc, rest)"
  using assms
proof (induction m arbitrary: pos acc)
  case Nil
  then show ?case
    by (subst parse_data.simps) (auto simp: encode_data_def)
next
  case (Cons b m)
  obtain k v t where b: "b = (k, v, t)"
    by (cases b) auto
  have "parse_kv pos (encode_kv b @ encode_data m @ tail) = Inr (Some (k, v, t), encode_data m @ tail)"
    using Cons.prems by (auto simp: b encode_data_def intro!: parse_kv_encode)
  then show ?case
    using Cons.IH [of "pos + length (encode_kv b)" "AList.update k (v, t) acc"] Cons.prems
    by (subst parse_data.simps) (simp add: b encode_data_def add.assoc)
qed

lemma map_of_kv_insert_all:
  "map_of (kv_insert_all m acc) = map_of acc ++ map_of (rev m)"
proof (induction m arbitrary: acc)
  case (Cons b m)
  then show ?case
    by (cases b) (auto simp: update_conv' map_add_def fun_eq_iff split: option.split)
qed simp

lemma distinct_kv_insert_all:
  "distinct (map fst acc) \<Longrightarrow> distinct (map fst (kv_insert_all m acc))"
  by (induction m arbitrary: acc) (auto simp: distinct_update)

end
