(* ===== verification/File_Sm.thy ===== *)
theory File_Sm
  imports Wal_Codec "HOL-Library.List_Lexorder" "HOL-Library.Char_ord"
begin

text \<open>
  The file state machine (\<^verbatim>\<open>FileStateMachine\<close> of
  \<^verbatim>\<open>d-engine-server/src/storage/adaptors/file/file_state_machine.rs\<close>): the table in memory, the
  files \<^verbatim>\<open>state.data\<close>, \<^verbatim>\<open>metadata.bin\<close>, \<^verbatim>\<open>wal.log\<close> and \<^verbatim>\<open>ttl_state.bin\<close>, and every operation of the
  state machine on them.

  \<^item> The hash map is an association list with distinct keys; its order is the iteration order.
  \<^item> Each call of the file system has a name (\<^verbatim>\<open>fs_call\<close>).  The environment decides its outcome:
    \<^verbatim>\<open>None\<close> is success, \<^verbatim>\<open>Some n\<close> a failure after \<open>n\<close> bytes have reached the file.  A crash of the
    process is the same outcome followed by a restart on the files as they are.
  \<^item> The clocks, the binary codec of the lease and the digest of a snapshot are parameters.  Every
    entry reads the clock at most once while it is encoded and at most once while its key is
    registered, so these clocks are functions of the entry's index.
\<close>

section \<open>Files and environment\<close>

record sm_disk =
  dk_data :: "bytes option"
  dk_meta :: "bytes option"
  dk_wal :: "bytes option"
  dk_ttl :: "bytes option"

datatype fs_call =
    Open_Data | Write_Data | Open_Meta | Write_Meta_Index | Write_Meta_Term | Clear_Wal
  | Open_Wal | Append_Wal | Write_Ttl | Open_Read_Meta | Read_Data | Read_Wal | Read_Ttl
  | Read_Snapshot | Write_Snapshot | Hash_Snapshot

record sm_env =
  env_io :: "fs_call \<Rightarrow> nat option"
  env_encode_clock :: "u64 \<Rightarrow> systime"
  env_lease_clock :: "u64 \<Rightarrow> systime"
  env_now :: systime
  env_register_now :: systime
  env_instant :: systime
  env_ser :: "lease_snapshot \<Rightarrow> bytes"
  env_deser :: "bytes \<Rightarrow> lease_snapshot option"
  env_sha256 :: "bytes \<Rightarrow> string"

record file_sm =
  fsm_data :: "(bytes \<times> bytes \<times> u64) list"
  fsm_lease :: "ttl_lease option"
  fsm_last_applied_index :: u64
  fsm_last_applied_term :: u64
  fsm_last_snapshot_metadata :: "snapshot_metadata option"
  fsm_running :: bool
  fsm_wal_entries :: u64
  fsm_last_checkpoint :: systime

type_synonym 'a disk_result = "sm_disk \<times> 'a result"

definition disk_then :: "'a disk_result \<Rightarrow> (sm_disk \<Rightarrow> 'b disk_result) \<Rightarrow> 'b disk_result" where
  "disk_then r f = (case r of (d, Inl e) \<Rightarrow> (d, Inl e) | (d, Inr _) \<Rightarrow> f d)"

abbreviation io_failed :: "'a result" where
  "io_failed \<equiv> Inl (StorageError ''IoError'')"

text \<open>A call that changes no file, and one that writes bytes with \<^verbatim>\<open>put\<close>.\<close>

definition fs_check :: "sm_env \<Rightarrow> fs_call \<Rightarrow> sm_disk \<Rightarrow> unit disk_result" where
  "fs_check env call d = (case env_io env call of None \<Rightarrow> (d, Inr ()) | Some _ \<Rightarrow> (d, io_failed))"

definition fs_write ::
    "sm_env \<Rightarrow> fs_call \<Rightarrow> (bytes \<Rightarrow> sm_disk \<Rightarrow> sm_disk) \<Rightarrow> bytes \<Rightarrow> sm_disk \<Rightarrow> unit disk_result" where
  "fs_write env call put bs d =
     (case env_io env call of
        None \<Rightarrow> (put bs d, Inr ())
      | Some n \<Rightarrow> (put (take n bs) d, io_failed))"

definition fs_open_truncate :: "sm_env \<Rightarrow> fs_call \<Rightarrow> (sm_disk \<Rightarrow> sm_disk) \<Rightarrow> sm_disk \<Rightarrow> unit disk_result" where
  "fs_open_truncate env call clear d =
     (case env_io env call of None \<Rightarrow> (clear d, Inr ()) | Some _ \<Rightarrow> (d, io_failed))"

definition append_file :: "bytes option \<Rightarrow> bytes \<Rightarrow> bytes option" where
  "append_file f bs = Some ((case f of None \<Rightarrow> [] | Some old \<Rightarrow> old) @ bs)"

abbreviation put_data :: "bytes \<Rightarrow> sm_disk \<Rightarrow> sm_disk" where
  "put_data bs d \<equiv> d\<lparr>dk_data := append_file (dk_data d) bs\<rparr>"

abbreviation put_meta :: "bytes \<Rightarrow> sm_disk \<Rightarrow> sm_disk" where
  "put_meta bs d \<equiv> d\<lparr>dk_meta := append_file (dk_meta d) bs\<rparr>"

abbreviation put_wal :: "bytes \<Rightarrow> sm_disk \<Rightarrow> sm_disk" where
  "put_wal bs d \<equiv> d\<lparr>dk_wal := append_file (dk_wal d) bs\<rparr>"

section \<open>Persisting\<close>

definition persist_data_async :: "sm_env \<Rightarrow> file_sm \<Rightarrow> sm_disk \<Rightarrow> unit disk_result" where
  "persist_data_async env s d =
     disk_then (fs_open_truncate env Open_Data (\<lambda>d. d\<lparr>dk_data := Some []\<rparr>) d)
       (\<lambda>d. fs_write env Write_Data put_data (encode_data (fsm_data s)) d)"

text \<open>\<^verbatim>\<open>std::fs::write\<close> opens, truncates and writes.\<close>

definition persist_data :: "sm_env \<Rightarrow> file_sm \<Rightarrow> sm_disk \<Rightarrow> unit disk_result" where
  "persist_data env s d =
     (let buf = encode_data (fsm_data s)
      in disk_then (fs_open_truncate env Open_Data (\<lambda>d. d\<lparr>dk_data := Some []\<rparr>) d)
           (\<lambda>d. fs_write env Write_Data put_data buf d))"

definition persist_metadata :: "sm_env \<Rightarrow> file_sm \<Rightarrow> sm_disk \<Rightarrow> unit disk_result" where
  "persist_metadata env s d =
     disk_then (fs_open_truncate env Open_Meta (\<lambda>d. d\<lparr>dk_meta := Some []\<rparr>) d) (\<lambda>d.
     disk_then (fs_write env Write_Meta_Index put_meta (u64_to_be_bytes (fsm_last_applied_index s)) d)
       (\<lambda>d. fs_write env Write_Meta_Term put_meta (u64_to_be_bytes (fsm_last_applied_term s)) d))"

definition persist_metadata_async :: "sm_env \<Rightarrow> file_sm \<Rightarrow> sm_disk \<Rightarrow> unit disk_result" where
  "persist_metadata_async env s d =
     (let index = fsm_last_applied_index s; trm = fsm_last_applied_term s in
      disk_then (fs_open_truncate env Open_Meta (\<lambda>d. d\<lparr>dk_meta := Some []\<rparr>) d) (\<lambda>d.
      disk_then (fs_write env Write_Meta_Index put_meta (u64_to_be_bytes index) d)
        (\<lambda>d. fs_write env Write_Meta_Term put_meta (u64_to_be_bytes trm) d)))"

definition clear_wal_async :: "sm_env \<Rightarrow> sm_disk \<Rightarrow> unit disk_result" where
  "clear_wal_async env d = fs_open_truncate env Clear_Wal (\<lambda>d. d\<lparr>dk_wal := Some []\<rparr>) d"

definition clear_data_file :: "sm_env \<Rightarrow> sm_disk \<Rightarrow> unit disk_result" where
  "clear_data_file env d = fs_open_truncate env Open_Data (\<lambda>d. d\<lparr>dk_data := Some []\<rparr>) d"

definition clear_metadata_file :: "sm_env \<Rightarrow> sm_disk \<Rightarrow> unit disk_result" where
  "clear_metadata_file env d =
     disk_then (fs_open_truncate env Open_Meta (\<lambda>d. d\<lparr>dk_meta := Some []\<rparr>) d) (\<lambda>d.
     disk_then (fs_write env Write_Meta_Index put_meta (u64_to_be_bytes 0) d)
       (\<lambda>d. fs_write env Write_Meta_Term put_meta (u64_to_be_bytes 0) d))"

definition WAL_ENTRY_THRESHOLD :: nat where
  "WAL_ENTRY_THRESHOLD = 1000"

definition TIME_THRESHOLD_SECS :: nat where
  "TIME_THRESHOLD_SECS = 10"

definition should_checkpoint :: "sm_env \<Rightarrow> file_sm \<Rightarrow> bool" where
  "should_checkpoint env s =
     (if fsm_wal_entries s \<ge> WAL_ENTRY_THRESHOLD then True
      else as_secs (env_instant env - fsm_last_checkpoint s) \<ge> TIME_THRESHOLD_SECS)"

definition checkpoint :: "sm_env \<Rightarrow> file_sm \<Rightarrow> sm_disk \<Rightarrow> file_sm \<times> unit disk_result" where
  "checkpoint env s d =
     (case disk_then (persist_data_async env s d) (\<lambda>d.
           disk_then (persist_metadata_async env s d) (clear_wal_async env)) of
        (d', Inl e) \<Rightarrow> (s, d', Inl e)
      | (d', Inr _) \<Rightarrow>
          (s\<lparr>fsm_wal_entries := 0, fsm_last_checkpoint := env_instant env\<rparr>, d', Inr ()))"

definition fsm_reset :: "sm_env \<Rightarrow> file_sm \<Rightarrow> sm_disk \<Rightarrow> file_sm \<times> unit disk_result" where
  "fsm_reset env s d =
     (s\<lparr>fsm_data := [], fsm_last_applied_index := 0, fsm_last_applied_term := 0,
        fsm_last_snapshot_metadata := None\<rparr>,
      disk_then (clear_data_file env d) (\<lambda>d.
      disk_then (clear_metadata_file env d) (clear_wal_async env)))"

section \<open>Start-up\<close>

definition load_metadata :: "sm_env \<Rightarrow> sm_disk \<Rightarrow> file_sm \<Rightarrow> file_sm result" where
  "load_metadata env d s =
     (case dk_meta d of
        None \<Rightarrow> Inr s
      | Some buffer \<Rightarrow>
          if env_io env Open_Read_Meta \<noteq> None then io_failed
          else if length buffer \<ge> 16
          then Inr (s\<lparr>fsm_last_applied_index := u64_from_be_bytes (take 8 buffer),
                      fsm_last_applied_term := u64_from_be_bytes (take 8 (drop 8 buffer))\<rparr>)
          else Inr s)"

definition load_data :: "sm_env \<Rightarrow> sm_disk \<Rightarrow> file_sm \<Rightarrow> file_sm result" where
  "load_data env d s =
     (case dk_data d of
        None \<Rightarrow> Inr s
      | Some buffer \<Rightarrow>
          if env_io env Read_Data \<noteq> None then io_failed
          else bind_result (parse_data 0 buffer (fsm_data s)) (\<lambda>(m, _). Inr (s\<lparr>fsm_data := m\<rparr>)))"

definition load_ttl_data :: "file_sm \<Rightarrow> file_sm result" where
  "load_ttl_data s = Inr s"

definition load_lease_data :: "sm_env \<Rightarrow> sm_disk \<Rightarrow> file_sm \<Rightarrow> file_sm result" where
  "load_lease_data env d s =
     (case fsm_lease s of
        None \<Rightarrow> Inr s
      | Some lease \<Rightarrow>
          (case dk_ttl d of
             None \<Rightarrow> Inr s
           | Some ttl_data \<Rightarrow>
               if env_io env Read_Ttl \<noteq> None then io_failed
               else bind_result (lease_reload (env_deser env) (env_now env) ttl_data lease)
                      (\<lambda>lease'. Inr (s\<lparr>fsm_lease := Some lease'\<rparr>))))"

text \<open>Replay of one operation: an insertion that has expired is skipped, one without a value
  is ignored, a failed comparison changes nothing.\<close>

definition wal_op_expired :: "systime \<Rightarrow> u64 option \<Rightarrow> bool result" where
  "wal_op_expired now expire_at =
     (case expire_at of
        Some secs \<Rightarrow> bind_result (systime_add 0 secs) (\<lambda>t. Inr (now \<ge> t))
      | None \<Rightarrow> Inr False)"

definition restore_ttl :: "systime \<Rightarrow> systime \<Rightarrow> wal_op \<Rightarrow> file_sm \<Rightarrow> file_sm result" where
  "restore_ttl now reg_now op s =
     (case (wo_expire_at op, fsm_lease s) of
        (Some secs, Some lease) \<Rightarrow>
          let remaining = as_secs (secs * nanos_per_sec - now)
          in if remaining > 0
             then bind_result (lease_register reg_now (wo_key op) remaining lease)
                    (\<lambda>lease'. Inr (s\<lparr>fsm_lease := Some lease'\<rparr>))
             else Inr s
      | _ \<Rightarrow> Inr s)"

definition replay_op :: "systime \<Rightarrow> systime \<Rightarrow> wal_op \<Rightarrow> file_sm \<Rightarrow> file_sm result" where
  "replay_op now reg_now op s =
     (case wo_code op of
        Wal_Insert \<Rightarrow>
          (case wo_value op of
             Some val \<Rightarrow>
               bind_result (wal_op_expired now (wo_expire_at op)) (\<lambda>is_expired.
               if is_expired then Inr s
               else restore_ttl now reg_now op
                      (s\<lparr>fsm_data := AList.update (wo_key op) (val, wo_term op) (fsm_data s)\<rparr>))
           | None \<Rightarrow> Inr s)
      | Wal_Delete \<Rightarrow>
          Inr (s\<lparr>fsm_data := AList.delete (wo_key op) (fsm_data s),
                 fsm_lease := map_option (lease_unregister (wo_key op)) (fsm_lease s)\<rparr>)
      | Wal_Cas \<Rightarrow>
          (case wo_value op of
             Some val \<Rightarrow> Inr (s\<lparr>fsm_data := AList.update (wo_key op) (val, wo_term op) (fsm_data s)\<rparr>)
           | None \<Rightarrow> Inr s)
      | Wal_Noop \<Rightarrow> Inr s
      | Wal_Config \<Rightarrow> Inr s
      | Wal_CasFailed \<Rightarrow> Inr s)"

fun replay_ops :: "systime \<Rightarrow> systime \<Rightarrow> wal_op list \<Rightarrow> file_sm \<Rightarrow> file_sm result" where
  "replay_ops now reg_now [] s = Inr s"
| "replay_ops now reg_now (op # ops) s =
     bind_result (replay_op now reg_now op s) (replay_ops now reg_now ops)"

definition replay_wal :: "sm_env \<Rightarrow> file_sm \<Rightarrow> sm_disk \<Rightarrow> file_sm disk_result" where
  "replay_wal env s d =
     (case dk_wal d of
        None \<Rightarrow> (d, Inr s)
      | Some buffer \<Rightarrow>
          if env_io env Read_Wal \<noteq> None then (d, io_failed)
          else if buffer = [] then (d, Inr s)
          else case bind_result (parse_wal 0 (fsm_last_applied_index s) buffer)
                      (\<lambda>operations. replay_ops (env_now env) (env_register_now env) operations s) of
                 Inl e \<Rightarrow> (d, Inl e)
               | Inr s' \<Rightarrow> disk_then (clear_wal_async env d) (\<lambda>d. (d, Inr s')))"

definition load_from_disk :: "sm_env \<Rightarrow> file_sm \<Rightarrow> sm_disk \<Rightarrow> file_sm disk_result" where
  "load_from_disk env s d =
     (case bind_result (load_metadata env d s) (\<lambda>s1. bind_result (load_data env d s1) load_ttl_data) of
        Inl e \<Rightarrow> (d, Inl e)
      | Inr s' \<Rightarrow> replay_wal env s' d)"

definition fsm_new :: "sm_env \<Rightarrow> sm_disk \<Rightarrow> file_sm disk_result" where
  "fsm_new env d =
     load_from_disk env
       \<lparr>fsm_data = [], fsm_lease = None, fsm_last_applied_index = 0, fsm_last_applied_term = 0,
        fsm_last_snapshot_metadata = None, fsm_running = True, fsm_wal_entries = 0,
        fsm_last_checkpoint = env_instant env\<rparr> d"

definition set_lease :: "ttl_lease \<Rightarrow> file_sm \<Rightarrow> file_sm" where
  "set_lease lease s = s\<lparr>fsm_lease := Some lease\<rparr>"

definition fsm_start :: "sm_env \<Rightarrow> sm_disk \<Rightarrow> file_sm \<Rightarrow> file_sm result" where
  "fsm_start env d s =
     (let s' = s\<lparr>fsm_running := True\<rparr>
      in if fsm_lease s' \<noteq> None then load_lease_data env d s' else Inr s')"

definition fsm_close_storage :: "file_sm \<Rightarrow> file_sm" where
  "fsm_close_storage s = s\<lparr>fsm_running := False\<rparr>"

definition fsm_stop :: "sm_env \<Rightarrow> file_sm \<Rightarrow> sm_disk \<Rightarrow> file_sm \<times> unit disk_result" where
  "fsm_stop env s d =
     (s\<lparr>fsm_running := False\<rparr>,
      case fsm_lease s of
        None \<Rightarrow> (d, Inr ())
      | Some lease \<Rightarrow>
          fs_write env Write_Ttl (\<lambda>bs d. d\<lparr>dk_ttl := Some bs\<rparr>) (lease_to_snapshot (env_ser env) lease) d)"

section \<open>Applying entries\<close>

text \<open>The order of a chunk is asserted; the last entry's identifier is the new applied one.\<close>

fun check_order :: "log_id option \<Rightarrow> apply_entry list \<Rightarrow> log_id option result" where
  "check_order highest [] = Inr highest"
| "check_order highest (e # es) =
     (case highest of
        Some prev \<Rightarrow>
          if \<not> ay_index e > lid_index prev then Inl (Panic ''apply_chunk: received unordered entry'')
          else check_order (Some (mk_lid (ay_term e) (ay_index e))) es
      | None \<Rightarrow> check_order (Some (mk_lid (ay_term e) (ay_index e))) es)"

definition cas_keys :: "apply_entry list \<Rightarrow> bytes list" where
  "cas_keys es = List.map_filter (\<lambda>e. case ay_command e of Cmd_Cas key _ _ \<Rightarrow> Some key | _ \<Rightarrow> None) es"

definition cas_base :: "apply_entry list \<Rightarrow> file_sm \<Rightarrow> (bytes \<times> bytes \<times> u64) list" where
  "cas_base chunk s = filter (\<lambda>b. fst b \<in> set (cas_keys chunk)) (fsm_data s)"

type_synonym chunk_delta = "(bytes \<times> (bytes \<times> u64) option) list"

definition delta_batch_op :: "u64 \<Rightarrow> batch_op \<Rightarrow> chunk_delta \<Rightarrow> chunk_delta" where
  "delta_batch_op trm op delta =
     (case op of
        Batch_Insert key val \<Rightarrow> AList.update key (Some (val, trm)) delta
      | Batch_Delete key \<Rightarrow> AList.update key None delta)"

text \<open>The outcome of one entry from the values before the chunk and the changes of its earlier
  entries.\<close>

definition eval_entry ::
    "(bytes \<times> bytes \<times> u64) list \<Rightarrow> apply_entry \<Rightarrow> chunk_delta \<Rightarrow> chunk_delta \<times> bool" where
  "eval_entry base e delta =
     (case ay_command e of
        Cmd_Insert key val _ \<Rightarrow> (AList.update key (Some (val, ay_term e)) delta, False)
      | Cmd_Delete key \<Rightarrow> (AList.update key None delta, False)
      | Cmd_Cas key expected new_value \<Rightarrow>
          let current = (case map_of delta key of Some v \<Rightarrow> v | None \<Rightarrow> map_of base key);
              success = (case (current, expected) of
                           (Some (c, _), Some ex) \<Rightarrow> c = ex
                         | (None, None) \<Rightarrow> True
                         | _ \<Rightarrow> False)
          in (if success then AList.update key (Some (new_value, ay_term e)) delta else delta, success)
      | Cmd_Batch ops \<Rightarrow> (fold (delta_batch_op (ay_term e)) ops delta, False)
      | Cmd_Noop \<Rightarrow> (delta, False))"

fun eval_chunk ::
    "(u64 \<Rightarrow> systime) \<Rightarrow> (bytes \<times> bytes \<times> u64) list \<Rightarrow> apply_entry list \<Rightarrow> chunk_delta
     \<Rightarrow> (bool list \<times> bytes) result" where
  "eval_chunk clock base [] delta = Inr ([], [])"
| "eval_chunk clock base (e # es) delta =
     (case eval_entry base e delta of
        (delta', success) \<Rightarrow>
          bind_result (encode_wal_entry (clock (ay_index e)) e success) (\<lambda>bs.
          bind_result (eval_chunk clock base es delta') (\<lambda>(outcomes, buf).
            Inr (success # outcomes, bs @ buf))))"

definition append_wal :: "sm_env \<Rightarrow> bytes \<Rightarrow> sm_disk \<Rightarrow> unit disk_result" where
  "append_wal env buf d =
     (if buf = [] then (d, Inr ())
      else disk_then (fs_open_truncate env Open_Wal (\<lambda>d. d\<lparr>dk_wal := append_file (dk_wal d) []\<rparr>) d)
             (fs_write env Append_Wal put_wal buf))"

text \<open>The change of the table in memory by one entry.  A time to live needs a lease.\<close>

definition apply_batch_op :: "u64 \<Rightarrow> batch_op \<Rightarrow> file_sm \<Rightarrow> file_sm" where
  "apply_batch_op trm op s =
     (case op of
        Batch_Insert key val \<Rightarrow> s\<lparr>fsm_data := AList.update key (val, trm) (fsm_data s)\<rparr>
      | Batch_Delete key \<Rightarrow>
          s\<lparr>fsm_data := AList.delete key (fsm_data s),
            fsm_lease := map_option (lease_unregister key) (fsm_lease s)\<rparr>)"

definition apply_result_success :: "u64 \<Rightarrow> apply_result" where
  "apply_result_success index = \<lparr>ap_index = index, ap_succeeded = True\<rparr>"

definition apply_result_failure :: "u64 \<Rightarrow> apply_result" where
  "apply_result_failure index = \<lparr>ap_index = index, ap_succeeded = False\<rparr>"

definition apply_memory_entry ::
    "(u64 \<Rightarrow> systime) \<Rightarrow> apply_entry \<Rightarrow> bool \<Rightarrow> file_sm \<Rightarrow> file_sm \<times> apply_result result" where
  "apply_memory_entry clock e cas_success s =
     (case ay_command e of
        Cmd_Noop \<Rightarrow> (s, Inr (apply_result_success (ay_index e)))
      | Cmd_Insert key val ttl_secs \<Rightarrow>
          let s1 = s\<lparr>fsm_data := AList.update key (val, ay_term e) (fsm_data s)\<rparr>
          in (case ttl_secs of
                None \<Rightarrow> (s1, Inr (apply_result_success (ay_index e)))
              | Some ttl \<Rightarrow>
                  (case fsm_lease s1 of
                     None \<Rightarrow> (s1, Inl (Panic ''lease always initialized by NodeBuilder''))
                   | Some lease \<Rightarrow>
                       (case lease_register (clock (ay_index e)) key ttl lease of
                          Inl err \<Rightarrow> (s1, Inl err)
                        | Inr lease' \<Rightarrow>
                            (s1\<lparr>fsm_lease := Some lease'\<rparr>, Inr (apply_result_success (ay_index e))))))
      | Cmd_Delete key \<Rightarrow>
          (s\<lparr>fsm_data := AList.delete key (fsm_data s),
             fsm_lease := map_option (lease_unregister key) (fsm_lease s)\<rparr>,
           Inr (apply_result_success (ay_index e)))
      | Cmd_Cas key _ new_value \<Rightarrow>
          (if cas_success then s\<lparr>fsm_data := AList.update key (new_value, ay_term e) (fsm_data s)\<rparr> else s,
           Inr (if cas_success then apply_result_success (ay_index e) else apply_result_failure (ay_index e)))
      | Cmd_Batch ops \<Rightarrow>
          (fold (apply_batch_op (ay_term e)) ops s, Inr (apply_result_success (ay_index e))))"

fun apply_memory ::
    "(u64 \<Rightarrow> systime) \<Rightarrow> (apply_entry \<times> bool) list \<Rightarrow> file_sm \<Rightarrow> file_sm \<times> apply_result list result" where
  "apply_memory clock [] s = (s, Inr [])"
| "apply_memory clock ((e, cas_success) # es) s =
     (case apply_memory_entry clock e cas_success s of
        (s', Inl err) \<Rightarrow> (s', Inl err)
      | (s', Inr r) \<Rightarrow>
          (case apply_memory clock es s' of
             (s'', Inl err) \<Rightarrow> (s'', Inl err)
           | (s'', Inr rs) \<Rightarrow> (s'', Inr (r # rs))))"

definition update_last_applied :: "log_id \<Rightarrow> file_sm \<Rightarrow> file_sm" where
  "update_last_applied lid s =
     s\<lparr>fsm_last_applied_index := lid_index lid, fsm_last_applied_term := lid_term lid\<rparr>"

definition fsm_apply_chunk ::
    "sm_env \<Rightarrow> apply_entry list \<Rightarrow> file_sm \<Rightarrow> sm_disk \<Rightarrow> file_sm \<times> apply_result list disk_result" where
  "fsm_apply_chunk env chunk s d =
     (case check_order None chunk of
        Inl err \<Rightarrow> (s, d, Inl err)
      | Inr highest \<Rightarrow>
          (case eval_chunk (env_encode_clock env) (cas_base chunk s) chunk [] of
             Inl err \<Rightarrow> (s, d, Inl err)
           | Inr (outcomes, wal_buf) \<Rightarrow>
               (case append_wal env wal_buf d of
                  (d1, Inl err) \<Rightarrow> (s, d1, Inl err)
                | (d1, Inr _) \<Rightarrow>
                    (case apply_memory (env_lease_clock env) (zip chunk outcomes) s of
                       (s1, Inl err) \<Rightarrow> (s1, d1, Inl err)
                     | (s1, Inr results) \<Rightarrow>
                         let s2 = (case highest of Some h \<Rightarrow> update_last_applied h s1 | None \<Rightarrow> s1);
                             s3 = s2\<lparr>fsm_wal_entries := (fsm_wal_entries s2 + length chunk) mod 2 ^ 64\<rparr>
                         in if should_checkpoint env s3
                            then (case checkpoint env s3 d1 of
                                    (s4, d2, Inl err) \<Rightarrow> (s4, d2, Inl err)
                                  | (s4, d2, Inr _) \<Rightarrow> (s4, d2, Inr results))
                            else (s3, d1, Inr results)))))"

section \<open>Reads and shutdown\<close>

definition fsm_get :: "bytes \<Rightarrow> file_sm \<Rightarrow> bytes option" where
  "fsm_get key s = map_option fst (map_of (fsm_data s) key)"

definition fsm_get_multi :: "bytes list \<Rightarrow> file_sm \<Rightarrow> bytes option list" where
  "fsm_get_multi keys s = map (\<lambda>k. map_option fst (map_of (fsm_data s) k)) keys"

definition starts_with :: "bytes \<Rightarrow> bytes \<Rightarrow> bool" where
  "starts_with bs prefix = (take (length prefix) bs = prefix)"

definition fsm_scan_prefix :: "bytes \<Rightarrow> file_sm \<Rightarrow> (bytes \<times> bytes) list \<times> u64" where
  "fsm_scan_prefix prefix s =
     (map (\<lambda>(k, v, _). (k, v)) (filter (\<lambda>b. starts_with (fst b) prefix) (fsm_data s)),
      fsm_last_applied_index s)"

definition fsm_len :: "file_sm \<Rightarrow> nat" where
  "fsm_len s = length (fsm_data s)"

definition fsm_last_applied :: "file_sm \<Rightarrow> log_id" where
  "fsm_last_applied s = mk_lid (fsm_last_applied_term s) (fsm_last_applied_index s)"

definition persist_last_applied :: "sm_env \<Rightarrow> log_id \<Rightarrow> file_sm \<Rightarrow> sm_disk \<Rightarrow> file_sm \<times> unit disk_result" where
  "persist_last_applied env lid s d =
     (let s' = update_last_applied lid s in (s', persist_metadata env s' d))"

definition update_last_snapshot_metadata :: "snapshot_metadata \<Rightarrow> file_sm \<Rightarrow> file_sm" where
  "update_last_snapshot_metadata metadata s = s\<lparr>fsm_last_snapshot_metadata := Some metadata\<rparr>"

definition persist_last_snapshot_metadata :: "snapshot_metadata \<Rightarrow> file_sm \<Rightarrow> file_sm" where
  "persist_last_snapshot_metadata metadata s = update_last_snapshot_metadata metadata s"

definition fsm_flush :: "sm_env \<Rightarrow> file_sm \<Rightarrow> sm_disk \<Rightarrow> unit disk_result" where
  "fsm_flush env s d = disk_then (persist_data env s d) (persist_metadata env s)"

definition fsm_flush_async :: "sm_env \<Rightarrow> file_sm \<Rightarrow> sm_disk \<Rightarrow> file_sm \<times> unit disk_result" where
  "fsm_flush_async env s d = checkpoint env s d"

text \<open>Also what dropping the state machine does; its error is only logged.\<close>

definition fsm_save_hard_state :: "sm_env \<Rightarrow> file_sm \<Rightarrow> sm_disk \<Rightarrow> file_sm \<times> unit disk_result" where
  "fsm_save_hard_state env s d =
     (case persist_last_applied env (fsm_last_applied s) s d of
        (s1, d1, Inl err) \<Rightarrow> (s1, d1, Inl err)
      | (s1, d1, Inr _) \<Rightarrow>
          let s2 = (case fsm_last_snapshot_metadata s1 of
                      Some metadata \<Rightarrow> persist_last_snapshot_metadata metadata s1
                    | None \<Rightarrow> s1)
          in (s2, fsm_flush env s2 d1))"

definition fsm_lease_background_cleanup ::
    "sm_env \<Rightarrow> file_sm \<Rightarrow> sm_disk \<Rightarrow> file_sm \<times> bytes list disk_result" where
  "fsm_lease_background_cleanup env s d =
     (case fsm_lease s of
        None \<Rightarrow> (s, d, Inr [])
      | Some lease \<Rightarrow>
          if \<not> lease_has_lease_keys lease then (s, d, Inr [])
          else if \<not> lease_may_have_expired_keys (env_now env) lease then (s, d, Inr [])
          else (case lease_get_expired_keys (env_now env) lease of
                  (lease', expired_keys) \<Rightarrow>
                    let s1 = s\<lparr>fsm_lease := Some lease'\<rparr>
                    in if expired_keys = [] then (s1, d, Inr [])
                       else let s2 = s1\<lparr>fsm_data := fold AList.delete expired_keys (fsm_data s1)\<rparr>
                            in case persist_data_async env s2 d of
                                 (d', Inl err) \<Rightarrow> (s2, d', Inl err)
                               | (d', Inr _) \<Rightarrow> (s2, d', Inr expired_keys)))"

section \<open>Snapshots\<close>

text \<open>A snapshot directory is its files; their digest is taken in the order of their names
  (\<^verbatim>\<open>compute_checksum_from_folder_path\<close>).\<close>

type_synonym snapshot_dir = "(string \<times> bytes) list"

definition folder_checksum :: "sm_env \<Rightarrow> snapshot_dir \<Rightarrow> string result" where
  "folder_checksum env dir =
     (case env_io env Hash_Snapshot of
        None \<Rightarrow> Inr (env_sha256 env (concat (map snd (sort_key fst dir))))
      | Some _ \<Rightarrow> io_failed)"

definition fsm_generate_snapshot_data ::
    "sm_env \<Rightarrow> file_sm \<Rightarrow> snapshot_dir \<times> string result" where
  "fsm_generate_snapshot_data env s =
     (let lease_snapshot = (case fsm_lease s of Some lease \<Rightarrow> lease_to_snapshot (env_ser env) lease | None \<Rightarrow> []);
          buf = encode_data (fsm_data s) @ u64_to_be_bytes (length lease_snapshot) @ lease_snapshot
      in case env_io env Write_Snapshot of
           Some n \<Rightarrow> ([(''snapshot.bin'', take n buf)], io_failed)
         | None \<Rightarrow>
             let dir = [(''snapshot.bin'', buf)] in (dir, folder_checksum env dir))"

text \<open>The lease behind the bindings: read only if at least a length is left.\<close>

definition reload_trailing_lease :: "sm_env \<Rightarrow> nat \<Rightarrow> bytes \<Rightarrow> file_sm \<Rightarrow> file_sm result" where
  "reload_trailing_lease env pos rest s =
     (case read_u64 rest of
        None \<Rightarrow> Inr s
      | Some (ttl_len, r) \<Rightarrow>
          if pos + 8 + ttl_len > u64_max then Inl (Panic ''attempt to add with overflow'')
          else if ttl_len \<le> length r
          then (case fsm_lease s of
                  None \<Rightarrow> Inr s
                | Some lease \<Rightarrow>
                    bind_result (lease_reload (env_deser env) (env_now env) (take ttl_len r) lease)
                      (\<lambda>lease'. Inr (s\<lparr>fsm_lease := Some lease'\<rparr>)))
          else Inr s)"

definition install_snapshot_bytes :: "sm_env \<Rightarrow> bytes \<Rightarrow> file_sm \<Rightarrow> file_sm result" where
  "install_snapshot_bytes env buffer s =
     bind_result (parse_data 0 buffer []) (\<lambda>(new_data, rest).
     bind_result (reload_trailing_lease env (length buffer - length rest) rest s) (\<lambda>s1.
       Inr (s1\<lparr>fsm_data := new_data\<rparr>)))"

definition fsm_apply_snapshot_from_file ::
    "sm_env \<Rightarrow> snapshot_metadata \<Rightarrow> snapshot_dir \<Rightarrow> file_sm \<Rightarrow> sm_disk
     \<Rightarrow> file_sm \<times> snapshot_apply_result disk_result" where
  "fsm_apply_snapshot_from_file env metadata dir s d =
     (case sm_last_included metadata of
        None \<Rightarrow> (s, d, Inl (SnapshotError ''Missing last_included in snapshot metadata''))
      | Some incoming \<Rightarrow>
          let current = fsm_last_applied s in
          if lid_index incoming < lid_index current then (s, d, Inr (IgnoredStale current))
          else if lid_index incoming = lid_index current \<and> lid_term incoming = lid_term current
          then (s, d, Inr (IgnoredDuplicate current))
          else if lid_index incoming = lid_index current
          then (s, d, Inl (BoundaryConflict ''local and incoming term differ''))
          else (case folder_checksum env dir of
                  Inl err \<Rightarrow> (s, d, Inl err)
                | Inr computed \<Rightarrow>
                    if sm_checksum metadata \<noteq> computed then (s, d, Inl (SnapshotError ''ChecksumMismatch''))
                    else (case (env_io env Read_Snapshot, map_of dir ''snapshot.bin'') of
                            (None, Some buffer) \<Rightarrow>
                              (case install_snapshot_bytes env buffer s of
                                 Inl err \<Rightarrow> (s, d, Inl err)
                               | Inr s1 \<Rightarrow>
                                   let s2 = update_last_applied incoming
                                              (s1\<lparr>fsm_last_snapshot_metadata := Some metadata\<rparr>)
                                   in case disk_then (persist_data_async env s2 d) (\<lambda>d.
                                           disk_then (clear_wal_async env d) (persist_metadata_async env s2)) of
                                        (d', Inl err) \<Rightarrow> (s2, d', Inl err)
                                      | (d', Inr _) \<Rightarrow> (s2, d', Inr (Applied incoming)))
                          | _ \<Rightarrow> (s, d, io_failed))))"

end
