(* ===== verification/Kv_Refinement.thy ===== *)
theory Kv_Refinement
  imports File_Sm
begin

text \<open>
  The file state machine refines the abstract key-value machine.  A chunk is evaluated in two
  passes, one over the changes of the chunk that records outcomes and one over the table; both
  agree with applying the entries one at a time.
\<close>

definition fsm_abs :: "file_sm \<Rightarrow> kv_table" where
  "fsm_abs s = map_of (fsm_data s)"

section \<open>The pass over the changes\<close>

definition delta_view :: "kv_table \<Rightarrow> chunk_delta \<Rightarrow> kv_table" where
  "delta_view m delta = (\<lambda>k. case map_of delta k of Some v \<Rightarrow> v | None \<Rightarrow> m k)"

lemma delta_view_Nil [simp]: "delta_view m [] = m"
  by (simp add: delta_view_def)

lemma delta_view_update [simp]: "delta_view m (AList.update k v delta) = (delta_view m delta)(k := v)"
  by (auto simp: delta_view_def update_conv' fun_eq_iff)

lemma delta_view_batch:
  "delta_view m (fold (delta_batch_op t) ops delta) = fold (kv_batch_op t) ops (delta_view m delta)"
  by (induction ops arbitrary: delta) (simp_all add: delta_batch_op_def kv_batch_op_def split: batch_op.split)

definition cas_outcome :: "apply_entry \<Rightarrow> kv_table \<Rightarrow> bool" where
  "cas_outcome e m = (case ay_command e of Cmd_Cas k expected _ \<Rightarrow> kv_cas_holds m k expected | _ \<Rightarrow> False)"

lemma cas_test:
  "(case cur of None \<Rightarrow> (case expected of None \<Rightarrow> True | Some _ \<Rightarrow> False)
    | Some (c, _) \<Rightarrow> (case expected of None \<Rightarrow> False | Some ex \<Rightarrow> c = ex)) = (map_option fst cur = expected)"
  by (cases cur; cases expected) auto

lemma map_of_cas_base: "k \<in> set (cas_keys chunk) \<Longrightarrow> map_of (cas_base chunk s) k = fsm_abs s k"
  using map_of_filter_fst [of "\<lambda>x. x \<in> set (cas_keys chunk)" "fsm_data s" k]
  by (simp add: cas_base_def fsm_abs_def)

text \<open>One entry: the changes stay those of the abstract machine, the outcome is its outcome.\<close>

lemma eval_entry_refines:
  assumes "\<And>k. k \<in> set (cas_keys [e]) \<Longrightarrow> map_of base k = m k"
  shows "delta_view m (fst (eval_entry base e delta)) = fst (kv_step e (delta_view m delta))"
    and "snd (eval_entry base e delta) = cas_outcome e (delta_view m delta)"
proof -
  have cur: "(case map_of delta k of Some v \<Rightarrow> v | None \<Rightarrow> map_of base k) = delta_view m delta k"
    if "ay_command e = Cmd_Cas k x v" for k x v
    using assms that by (simp add: delta_view_def cas_keys_def List.map_filter_def split: option.split)
  show "delta_view m (fst (eval_entry base e delta)) = fst (kv_step e (delta_view m delta))"
    by (cases "ay_command e")
      (simp_all add: eval_entry_def kv_step_def Let_def delta_view_batch cur cas_test kv_cas_holds_def)
  show "snd (eval_entry base e delta) = cas_outcome e (delta_view m delta)"
    by (cases "ay_command e")
      (simp_all add: eval_entry_def cas_outcome_def Let_def cur cas_test kv_cas_holds_def)
qed

text \<open>The outcomes and the records of a run of the abstract machine.\<close>

fun run_outcomes :: "apply_entry list \<Rightarrow> kv_table \<Rightarrow> bool list" where
  "run_outcomes [] m = []"
| "run_outcomes (e # es) m = cas_outcome e m # run_outcomes es (fst (kv_step e m))"

text \<open>An entry is stamped with the time at which it was encoded.\<close>

type_synonym stamped = "apply_entry \<times> systime"

definition stamp :: "(u64 \<Rightarrow> systime) \<Rightarrow> apply_entry list \<Rightarrow> stamped list" where
  "stamp clock es = map (\<lambda>e. (e, clock (ay_index e))) es"

lemma stamp_simps [simp]:
  "stamp clock [] = []"
  "stamp clock (e # es) = (e, clock (ay_index e)) # stamp clock es"
  "map fst (stamp clock es) = es"
  by (simp_all add: stamp_def comp_def)

fun run_wal :: "stamped list \<Rightarrow> kv_table \<Rightarrow> (u64 \<times> u64 \<times> wal_rec) list" where
  "run_wal [] m = []"
| "run_wal ((e, now) # es) m = entry_wal now e (cas_outcome e m) @ run_wal es (fst (kv_step e m))"

lemma run_outcomes_length [simp]: "length (run_outcomes es m) = length es"
  by (induction es arbitrary: m) simp_all

lemma run_wal_append:
  "run_wal (xs @ ys) m = run_wal xs m @ run_wal ys (fst (kv_run (map fst xs) m))"
  by (induction xs m rule: run_wal.induct) (simp_all add: case_prod_beta)

lemma cas_keys_Cons: "set (cas_keys (e # es)) = set (cas_keys [e]) \<union> set (cas_keys es)"
  by (auto simp: cas_keys_def List.map_filter_def)

lemma eval_chunk_outcomes:
  assumes "\<And>k. k \<in> set (cas_keys es) \<Longrightarrow> map_of base k = m k"
    and "eval_chunk clock base es delta = Inr (outcomes, buf)"
  shows "outcomes = run_outcomes es (delta_view m delta)"
  using assms
proof (induction es arbitrary: delta outcomes buf)
  case (Cons e es)
  have "\<And>k. k \<in> set (cas_keys [e]) \<Longrightarrow> map_of base k = m k"
    and rest: "\<And>k. k \<in> set (cas_keys es) \<Longrightarrow> map_of base k = m k"
    using Cons.prems(1) by (auto simp: cas_keys_Cons [of e es])
  note step = eval_entry_refines [of e base m delta, OF this(1)]
  from Cons.prems(2) obtain outcomes' buf'
    where more: "eval_chunk clock base es (fst (eval_entry base e delta)) = Inr (outcomes', buf')"
      and "outcomes = snd (eval_entry base e delta) # outcomes'"
    by (auto simp: case_prod_beta elim!: bind_result_InrE)
  then show ?case
    using Cons.IH [OF rest more] step by simp
qed simp

lemma eval_chunk_wal:
  assumes "\<And>k. k \<in> set (cas_keys es) \<Longrightarrow> map_of base k = m k"
    and "eval_chunk clock base es delta = Inr (outcomes, buf)"
    and "\<forall>e \<in> set es. ay_command e \<noteq> Cmd_Batch []"
  shows "buf = wal_bytes (run_wal (stamp clock es) (delta_view m delta))"
  using assms
proof (induction es arbitrary: delta outcomes buf)
  case (Cons e es)
  have "\<And>k. k \<in> set (cas_keys [e]) \<Longrightarrow> map_of base k = m k"
    and rest: "\<And>k. k \<in> set (cas_keys es) \<Longrightarrow> map_of base k = m k"
    using Cons.prems(1) by (auto simp: cas_keys_Cons [of e es])
  note step = eval_entry_refines [of e base m delta, OF this(1)]
  from Cons.prems(2) obtain bs outcomes' buf'
    where enc: "encode_wal_entry (clock (ay_index e)) e (snd (eval_entry base e delta)) = Inr bs"
      and more: "eval_chunk clock base es (fst (eval_entry base e delta)) = Inr (outcomes', buf')"
      and "buf = bs @ buf'"
    by (auto simp: case_prod_beta elim!: bind_result_InrE)
  moreover have "bs = wal_bytes (entry_wal (clock (ay_index e)) e (cas_outcome e (delta_view m delta)))"
    using encode_wal_entry_recs enc Cons.prems(3) step(2) by simp
  ultimately show ?case
    using Cons.IH [OF rest more] Cons.prems(3) step by simp
qed simp

section \<open>The pass over the table\<close>

lemma apply_batch_abs: "fsm_abs (fold (apply_batch_op t) ops s) = fold (kv_batch_op t) ops (fsm_abs s)"
  by (induction ops arbitrary: s)
    (simp_all add: apply_batch_op_def kv_batch_op_def fsm_abs_def update_conv' delete_conv' split: batch_op.split)

lemma apply_memory_entry_refines:
  assumes "apply_memory_entry clock e (cas_outcome e (fsm_abs s)) s = (s', r)"
  shows "fsm_abs s' = fst (kv_step e (fsm_abs s))"
    and "is_ok r \<Longrightarrow> r = Inr (snd (kv_step e (fsm_abs s)))"
  using assms apply_batch_abs [of "ay_term e"]
  by (auto simp: apply_memory_entry_def kv_step_def Let_def cas_outcome_def fsm_abs_def update_conv' delete_conv'
      apply_result_success_def apply_result_failure_def split: command.splits option.splits sum.splits if_splits)

lemma apply_memory_refines:
  assumes "apply_memory clock (zip es (run_outcomes es (fsm_abs s))) s = (s', Inr rs)"
  shows "kv_run es (fsm_abs s) = (fsm_abs s', rs)"
  using assms
proof (induction es arbitrary: s s' rs)
  case (Cons e es)
  obtain s1 r where one: "apply_memory_entry clock e (cas_outcome e (fsm_abs s)) s = (s1, r)"
    by (cases "apply_memory_entry clock e (cas_outcome e (fsm_abs s)) s") auto
  have abs: "fsm_abs s1 = fst (kv_step e (fsm_abs s))"
    using apply_memory_entry_refines(1) [OF one] .
  from Cons.prems one abs obtain r' rs' where "r = Inr r'" and "rs = r' # rs'"
      and more: "apply_memory clock (zip es (run_outcomes es (fsm_abs s1))) s1 = (s', Inr rs')"
    by (auto split: sum.splits prod.splits)
  moreover have "r' = snd (kv_step e (fsm_abs s))"
    using apply_memory_entry_refines(2) [OF one] \<open>r = Inr r'\<close> by simp
  ultimately show ?case
    using Cons.IH [OF more] abs by (simp add: case_prod_beta)
qed simp

text \<open>The second pass touches only the table and the lease.\<close>

definition same_frame :: "file_sm \<Rightarrow> file_sm \<Rightarrow> bool" where
  "same_frame s s' = (s'\<lparr>fsm_data := [], fsm_lease := None\<rparr> = s\<lparr>fsm_data := [], fsm_lease := None\<rparr>)"

lemma same_frame_simps [simp]:
  "same_frame s s"
  "same_frame s (s\<lparr>fsm_data := m\<rparr>)" "same_frame s (s\<lparr>fsm_lease := l\<rparr>)"
  "same_frame s (s\<lparr>fsm_data := m, fsm_lease := l\<rparr>)"
  by (simp_all add: same_frame_def)

lemma same_frame_trans: "same_frame s s' \<Longrightarrow> same_frame s' s'' \<Longrightarrow> same_frame s s''"
  by (simp add: same_frame_def)

lemma same_frame_batch: "same_frame s (fold (apply_batch_op t) ops s)"
proof (induction ops arbitrary: s)
  case (Cons op ops)
  have "same_frame s (apply_batch_op t op s)"
    by (simp add: apply_batch_op_def split: batch_op.split)
  then show ?case
    using Cons.IH same_frame_trans by (fastforce simp: comp_def)
qed simp

lemma same_frame_entry: "same_frame s (fst (apply_memory_entry clock e ok s))"
  by (simp add: apply_memory_entry_def Let_def same_frame_batch split: command.split option.split sum.split)

lemma same_frame_memory: "same_frame s (fst (apply_memory clock es s))"
proof (induction clock es s rule: apply_memory.induct)
  case (2 clock e ok es s)
  have "same_frame s (fst (apply_memory_entry clock e ok s))"
    by (rule same_frame_entry)
  then show ?case
    using 2 same_frame_trans by (fastforce split: sum.splits prod.splits)
qed simp

lemma same_frame_fields:
  "same_frame s s' \<Longrightarrow> fsm_last_applied_index s' = fsm_last_applied_index s
     \<and> fsm_last_applied_term s' = fsm_last_applied_term s \<and> fsm_wal_entries s' = fsm_wal_entries s
     \<and> fsm_last_snapshot_metadata s' = fsm_last_snapshot_metadata s \<and> fsm_running s' = fsm_running s"
  by (cases s; cases s') (simp add: same_frame_def)

section \<open>Whole chunks\<close>

lemma check_order_Some:
  "check_order highest es = Inr h \<Longrightarrow>
   h = (if es = [] then highest else Some (mk_lid (ay_term (last es)) (ay_index (last es))))"
  by (induction es arbitrary: highest) (auto split: option.splits if_splits)

lemma check_order_iff:
  "is_ok (check_order highest es) \<longleftrightarrow>
     sorted_wrt (<) ((case highest of None \<Rightarrow> [] | Some h \<Rightarrow> [lid_index h]) @ map ay_index es)"
proof (induction es arbitrary: highest)
  case (Cons e es)
  show ?case
    by (cases highest) (auto simp: Cons.IH)
qed (simp split: option.split)

lemma checkpoint_fields:
  "checkpoint env s d = (s', d', r) \<Longrightarrow> fsm_data s' = fsm_data s \<and> fsm_lease s' = fsm_lease s
     \<and> fsm_last_applied s' = fsm_last_applied s"
  by (auto simp: checkpoint_def fsm_last_applied_def split: prod.splits sum.splits)

lemma apply_chunk_refines_run:
  assumes "fsm_apply_chunk env chunk s d = (s', d', Inr results)"
  shows "kv_run chunk (fsm_abs s) = (fsm_abs s', results)"
    and "fsm_last_applied s' = (if chunk = [] then fsm_last_applied s
                                else mk_lid (ay_term (last chunk)) (ay_index (last chunk)))"
proof -
  from assms obtain h outcomes buf d1 s1
    where ord: "check_order None chunk = Inr h"
      and ev: "eval_chunk (env_encode_clock env) (cas_base chunk s) chunk [] = Inr (outcomes, buf)"
      and mem: "apply_memory (env_lease_clock env) (zip chunk outcomes) s = (s1, Inr results)"
      and fin: "fsm_data s' = fsm_data s1"
        "fsm_last_applied s' = (case h of Some h \<Rightarrow> mk_lid (lid_term h) (lid_index h) | None \<Rightarrow> fsm_last_applied s1)"
    by (auto simp: fsm_apply_chunk_def Let_def update_last_applied_def fsm_last_applied_def
        split: sum.splits prod.splits option.splits if_splits dest!: checkpoint_fields)
  have "outcomes = run_outcomes chunk (fsm_abs s)"
    using eval_chunk_outcomes [OF _ ev, of "fsm_abs s"] map_of_cas_base by simp
  then show "kv_run chunk (fsm_abs s) = (fsm_abs s', results)"
    using apply_memory_refines [of "env_lease_clock env" chunk s s1 results] mem fin(1)
    by (simp add: fsm_abs_def)
  show "fsm_last_applied s' = (if chunk = [] then fsm_last_applied s
          else mk_lid (ay_term (last chunk)) (ay_index (last chunk)))"
    using check_order_Some [OF ord] fin(2) same_frame_fields [OF same_frame_memory [of s "env_lease_clock env" "zip chunk outcomes"]] mem
    by (simp add: fsm_last_applied_def)
qed

end
