(* ===== verification/Kv_Recovery.thy ===== *)
theory Kv_Recovery
  imports Kv_Refinement
begin

text \<open>
  Recovery of the file state machine after a crash.  The files represent a table (the data
  file), the index up to which it is applied (the metadata file) and the records behind it (the
  write-ahead log).  A history of applied chunks and checkpoints keeps this representation, and
  a restart on the files computes the table of the history.
\<close>

section \<open>Replaying records\<close>

definition secs_expired :: "systime \<Rightarrow> u64 option \<Rightarrow> bool" where
  "secs_expired now x = (case x of Some secs \<Rightarrow> now \<ge> secs * nanos_per_sec | None \<Rightarrow> False)"

text \<open>The key an operation sets and its new content.\<close>

definition wal_write :: "systime \<Rightarrow> wal_op \<Rightarrow> (bytes \<times> (bytes \<times> u64) option) option" where
  "wal_write now op =
     (case (wo_code op, wo_value op) of
        (Wal_Insert, Some v) \<Rightarrow>
          if secs_expired now (wo_expire_at op) then None else Some (wo_key op, Some (v, wo_term op))
      | (Wal_Cas, Some v) \<Rightarrow> Some (wo_key op, Some (v, wo_term op))
      | (Wal_Delete, _) \<Rightarrow> Some (wo_key op, None)
      | _ \<Rightarrow> None)"

definition wal_effect :: "systime \<Rightarrow> wal_op \<Rightarrow> kv_table \<Rightarrow> kv_table" where
  "wal_effect now op m = (case wal_write now op of Some (k, v) \<Rightarrow> m(k := v) | None \<Rightarrow> m)"

definition expiry_fits :: "wal_op \<Rightarrow> bool" where
  "expiry_fits op = (case wo_expire_at op of Some secs \<Rightarrow> secs \<le> i64_max | None \<Rightarrow> True)"

lemma wal_op_expired_eq: "expiry_fits op \<Longrightarrow> wal_op_expired now (wo_expire_at op) = Inr (secs_expired now (wo_expire_at op))"
  by (simp add: wal_op_expired_def expiry_fits_def secs_expired_def systime_add_def split: option.splits)

lemma replay_op_abs:
  assumes "fsm_lease s = None" and "expiry_fits op"
  shows "\<exists>s'. replay_op now reg_now op s = Inr s' \<and> fsm_abs s' = wal_effect now op (fsm_abs s)
           \<and> fsm_lease s' = None \<and> same_frame s s'"
proof (cases "wo_code op")
  case Wal_Insert
  then show ?thesis
    using assms
    by (auto simp: replay_op_def wal_effect_def wal_write_def wal_op_expired_eq restore_ttl_def fsm_abs_def
        update_conv' split: option.splits)
qed (use assms in \<open>auto simp: replay_op_def wal_effect_def wal_write_def fsm_abs_def update_conv' delete_conv'
      split: option.splits\<close>)

lemma replay_ops_abs:
  assumes "fsm_lease s = None" and "\<forall>op \<in> set ops. expiry_fits op"
  shows "\<exists>s'. replay_ops now reg_now ops s = Inr s' \<and> fsm_abs s' = fold (wal_effect now) ops (fsm_abs s)
           \<and> fsm_lease s' = None \<and> same_frame s s'"
  using assms
proof (induction ops arbitrary: s)
  case (Cons op ops)
  obtain s1 where s1: "replay_op now reg_now op s = Inr s1" "fsm_abs s1 = wal_effect now op (fsm_abs s)"
      "fsm_lease s1 = None" "same_frame s s1"
    using replay_op_abs [of s op now reg_now] Cons.prems by auto
  moreover obtain s' where "replay_ops now reg_now ops s1 = Inr s'" "fsm_lease s' = None" "same_frame s1 s'"
      "fsm_abs s' = fold (wal_effect now) ops (fsm_abs s1)"
    using Cons.IH [of s1] Cons.prems s1(3) by auto
  ultimately show ?case
    using same_frame_trans [of s s1 s'] by (intro exI [of _ s']) simp
qed simp

text \<open>Replay is idempotent: a record sets a key to a content that does not depend on the table.\<close>

definition wal_touched :: "systime \<Rightarrow> wal_op list \<Rightarrow> bytes set" where
  "wal_touched now ops = {k. \<exists>op \<in> set ops. \<exists>v. wal_write now op = Some (k, v)}"

lemma wal_touched_simps [simp]:
  "wal_touched now [] = {}"
  "wal_touched now (op # ops) =
     (case wal_write now op of Some (k, v) \<Rightarrow> insert k (wal_touched now ops) | None \<Rightarrow> wal_touched now ops)"
  by (auto simp: wal_touched_def split: option.splits)

lemma replay_untouched: "k \<notin> wal_touched now ops \<Longrightarrow> fold (wal_effect now) ops m k = m k"
  by (induction ops arbitrary: m) (auto simp: wal_effect_def split: option.splits if_splits)

lemma replay_determined:
  "(\<forall>k. k \<notin> wal_touched now ops \<longrightarrow> m k = m' k) \<Longrightarrow> fold (wal_effect now) ops m = fold (wal_effect now) ops m'"
proof (induction ops arbitrary: m m')
  case Nil
  then show ?case
    by (simp add: fun_eq_iff)
next
  case (Cons op ops)
  have "\<forall>k. k \<notin> wal_touched now ops \<longrightarrow> wal_effect now op m k = wal_effect now op m' k"
    using Cons.prems by (auto simp: wal_effect_def split: option.splits)
  then show ?case
    using Cons.IH by simp
qed

lemma replay_idempotent:
  "fold (wal_effect now) ops (fold (wal_effect now) ops m) = fold (wal_effect now) ops m"
  by (rule replay_determined) (simp add: replay_untouched)

section \<open>Records of a history\<close>

definition wal_ops :: "(u64 \<times> u64 \<times> wal_rec) list \<Rightarrow> wal_op list" where
  "wal_ops rs = map (\<lambda>(i, t, r). wal_rec_op t r) rs"

lemma wal_ops_simps [simp]:
  "wal_ops [] = []" "wal_ops ((i, t, r) # rs) = wal_rec_op t r # wal_ops rs"
  "wal_ops (rs @ rs') = wal_ops rs @ wal_ops rs'"
  by (simp_all add: wal_ops_def)

text \<open>What a restart at a time can restore: values are not empty and have not expired.\<close>

definition batch_recoverable :: "batch_op \<Rightarrow> bool" where
  "batch_recoverable op = (case op of Batch_Insert _ v \<Rightarrow> v \<noteq> [] | Batch_Delete _ \<Rightarrow> True)"

definition recoverable :: "systime \<Rightarrow> stamped \<Rightarrow> bool" where
  "recoverable now b =
     (case ay_command (fst b) of
        Cmd_Noop \<Rightarrow> True
      | Cmd_Insert _ v ttl \<Rightarrow>
          v \<noteq> [] \<and> (case ttl of None \<Rightarrow> True
                    | Some s \<Rightarrow> now < as_secs (snd b + s * nanos_per_sec) * nanos_per_sec)
      | Cmd_Delete _ \<Rightarrow> True
      | Cmd_Cas _ _ v \<Rightarrow> v \<noteq> []
      | Cmd_Batch ops \<Rightarrow> list_all batch_recoverable ops)"

lemma replay_batch:
  "list_all batch_recoverable ops \<Longrightarrow>
   fold (wal_effect now) (map (\<lambda>op. wal_rec_op t (batch_rec op)) ops) m = fold (kv_batch_op t) ops m"
  by (induction ops arbitrary: m)
    (auto simp: wal_effect_def wal_write_def wal_rec_op_def batch_rec_def kv_batch_op_def batch_recoverable_def
      secs_expired_def split: batch_op.splits)

lemma replay_entry:
  "recoverable now (e, c) \<Longrightarrow>
   fold (wal_effect now) (wal_ops (entry_wal c e (cas_outcome e m))) m = fst (kv_step e m)"
proof (cases "ay_command e")
  case (Cmd_Batch ops)
  moreover assume "recoverable now (e, c)"
  ultimately show ?thesis
    using replay_batch [of ops now "ay_term e" m]
    by (simp add: recoverable_def entry_wal_def entry_recs_def wal_ops_def kv_step_def Let_def comp_def)
qed (auto simp: recoverable_def entry_wal_def entry_recs_def kv_step_def Let_def cas_outcome_def
    wal_effect_def wal_write_def wal_rec_op_def secs_expired_def split: option.splits)

lemma replay_run:
  "\<forall>b \<in> set es. recoverable now b \<Longrightarrow>
   fold (wal_effect now) (wal_ops (run_wal es m)) m = fst (kv_run (map fst es) m)"
  by (induction es m rule: run_wal.induct) (simp_all add: replay_entry case_prod_beta)

section \<open>The files\<close>

definition files_fit :: "sm_disk \<Rightarrow> bool" where
  "files_fit d = (\<forall>f \<in> {dk_data d, dk_meta d, dk_wal d}. \<forall>bs. f = Some bs \<longrightarrow> length bs \<le> 2 ^ 62)"

definition table_wf :: "(bytes \<times> bytes \<times> u64) list \<Rightarrow> bool" where
  "table_wf m = (distinct (map fst m) \<and> (\<forall>(k, v, t) \<in> set m. t < 2 ^ 64))"

definition data_rep :: "(bytes \<times> bytes \<times> u64) list \<Rightarrow> sm_disk \<Rightarrow> bool" where
  "data_rep m d = (table_wf m \<and> (dk_data d = Some (encode_data m) \<or> dk_data d = None \<and> m = []))"

text \<open>The metadata file: complete, or absent or torn, which reads as nothing applied.\<close>

definition meta_rep :: "u64 \<Rightarrow> u64 \<Rightarrow> sm_disk \<Rightarrow> bool" where
  "meta_rep i t d = (i < 2 ^ 64 \<and> t < 2 ^ 64 \<and>
     (dk_meta d = Some (u64_to_be_bytes i @ u64_to_be_bytes t)
      \<or> (dk_meta d = None \<or> (\<exists>bs. dk_meta d = Some bs \<and> length bs < 16)) \<and> i = 0 \<and> t = 0))"

definition wal_rep :: "(u64 \<times> u64 \<times> wal_rec) list \<Rightarrow> sm_disk \<Rightarrow> bool" where
  "wal_rep rs d = ((\<forall>b \<in> set rs. wal_rec_wf b \<and> expiry_fits (wal_rec_op (fst (snd b)) (snd (snd b))))
     \<and> (dk_wal d = None \<and> rs = [] \<or> (\<exists>tail. torn_record tail \<and> dk_wal d = Some (wal_bytes rs @ tail))))"

lemma load_metadata_rep:
  assumes "meta_rep i t d" and "env_io env Open_Read_Meta = None"
    and "fsm_last_applied_index s = 0" and "fsm_last_applied_term s = 0"
  shows "load_metadata env d s = Inr (s\<lparr>fsm_last_applied_index := i, fsm_last_applied_term := t\<rparr>)"
proof -
  have "s = s\<lparr>fsm_last_applied_index := 0, fsm_last_applied_term := 0\<rparr>"
    using assms(3,4) by simp
  then show ?thesis
    using assms(1,2) by (auto simp: load_metadata_def meta_rep_def be_bytes_round_trip)
qed

lemma map_of_insert_all_distinct:
  "distinct (map fst m) \<Longrightarrow> map_of (kv_insert_all m []) = map_of m"
  by (simp add: map_of_kv_insert_all map_of_rev_distinct)

lemma load_data_rep:
  assumes "data_rep m d" and "files_fit d" and "env_io env Read_Data = None" and "fsm_data s = []"
  shows "\<exists>m'. load_data env d s = Inr (s\<lparr>fsm_data := m'\<rparr>) \<and> map_of m' = map_of m \<and> distinct (map fst m')"
proof (cases "dk_data d")
  case None
  then show ?thesis
    using assms by (auto simp: load_data_def data_rep_def intro!: exI [of _ "[]"])
next
  case (Some buffer)
  then have buf: "buffer = encode_data m" and "length (encode_data m) \<le> 2 ^ 62"
    using assms(1,2) by (auto simp: data_rep_def files_fit_def)
  then have "0 + length (encode_data m) \<le> u64_max"
    by (simp add: u64_max_less)
  then have "parse_data 0 (encode_data m @ []) [] = Inr (kv_insert_all m [], [])"
    using parse_data_encode [of m 0 "[]" "[]" "[]"] assms(1) by (auto simp: data_rep_def table_wf_def)
  then show ?thesis
    using assms Some buf map_of_insert_all_distinct [of m] distinct_kv_insert_all [of "[]" m]
    by (intro exI [of _ "kv_insert_all m []"]) (auto simp: load_data_def data_rep_def table_wf_def)
qed

text \<open>A restart replays the records behind the applied index on the table of the data file.\<close>

text \<open>A restart on files without a write-ahead log loads the data file and changes nothing.\<close>

lemma fsm_new_clean:
  assumes "data_rep m d" and "meta_rep i t d" and "dk_wal d = Some []" and "files_fit d"
    and "\<And>c. env_io env c = None"
  shows "\<exists>s'. fsm_new env d = (d, Inr s') \<and> fsm_abs s' = map_of m \<and> table_wf (fsm_data s')
           \<and> fsm_last_applied s' = mk_lid t i"
proof -
  let ?s0 = "\<lparr>fsm_data = [], fsm_lease = None, fsm_last_applied_index = 0, fsm_last_applied_term = 0,
        fsm_last_snapshot_metadata = None, fsm_running = True, fsm_wal_entries = 0,
        fsm_last_checkpoint = env_instant env\<rparr>"
  let ?s1 = "?s0\<lparr>fsm_last_applied_index := i, fsm_last_applied_term := t\<rparr>"
  have "load_metadata env d ?s0 = Inr ?s1"
    using load_metadata_rep assms(2,5) by simp
  moreover obtain m' where "load_data env d ?s1 = Inr (?s1\<lparr>fsm_data := m'\<rparr>)" "map_of m' = map_of m" "distinct (map fst m')"
    using load_data_rep [OF assms(1,4), of env ?s1] assms(5) by auto
  moreover from this(2,3) have "set m' = set m"
    using assms(1) by (metis data_rep_def map_of_eqI map_of_inject_set table_wf_def)
  ultimately show ?thesis
    using assms(1,3,5)
    by (simp add: fsm_new_def load_from_disk_def load_ttl_data_def replay_wal_def fsm_abs_def fsm_last_applied_def
        table_wf_def data_rep_def)
qed

lemma fsm_new_rep:
  assumes "data_rep m d" and "meta_rep i t d" and "wal_rep rs d" and "files_fit d"
    and "\<And>c. env_io env c = None"
  shows "\<exists>s'. snd (fsm_new env d) = Inr s'
           \<and> fsm_abs s' = fold (wal_effect (env_now env)) (wal_ops (filter (\<lambda>b. i < fst b) rs)) (map_of m)
           \<and> fsm_last_applied s' = mk_lid t i \<and> fsm_lease s' = None"
proof -
  let ?s0 = "\<lparr>fsm_data = [], fsm_lease = None, fsm_last_applied_index = 0, fsm_last_applied_term = 0,
        fsm_last_snapshot_metadata = None, fsm_running = True, fsm_wal_entries = 0,
        fsm_last_checkpoint = env_instant env\<rparr>"
  let ?s1 = "?s0\<lparr>fsm_last_applied_index := i, fsm_last_applied_term := t\<rparr>"
  have meta: "load_metadata env d ?s0 = Inr ?s1"
    using load_metadata_rep assms(2,5) by simp
  obtain m' where dat: "load_data env d ?s1 = Inr (?s1\<lparr>fsm_data := m'\<rparr>)" and m': "map_of m' = map_of m"
    using load_data_rep [OF assms(1,4), of env ?s1] assms(5) by auto
  let ?s2 = "?s1\<lparr>fsm_data := m'\<rparr>"
  let ?ops = "wal_ops (filter (\<lambda>b. i < fst b) rs)"
  have new: "fsm_new env d = replay_wal env ?s2 d"
    using meta dat by (simp add: fsm_new_def load_from_disk_def load_ttl_data_def)
  show ?thesis
  proof (cases "dk_wal d = None \<or> dk_wal d = Some []")
    case True
    then have "rs = []"
      using assms(3) by (auto simp: wal_rep_def)
    then show ?thesis
      using True new m' assms(5) by (auto simp: replay_wal_def fsm_abs_def fsm_last_applied_def)
  next
    case False
    then obtain tail where wal: "torn_record tail" "dk_wal d = Some (wal_bytes rs @ tail)"
      using assms(3) by (auto simp: wal_rep_def)
    then have "0 + length (wal_bytes rs) \<le> 2 ^ 62"
      using assms(4) by (auto simp: files_fit_def)
    then have parse: "parse_wal 0 i (wal_bytes rs @ tail) = Inr ?ops"
      using parse_wal_bytes [of rs tail 0 i] assms(3) wal(1) by (simp add: wal_rep_def wal_ops_def)
    have "\<forall>op \<in> set ?ops. expiry_fits op"
      using assms(3) by (auto simp: wal_rep_def wal_ops_def)
    then obtain s' where "replay_ops (env_now env) (env_register_now env) ?ops ?s2 = Inr s'"
        "fsm_abs s' = fold (wal_effect (env_now env)) ?ops (fsm_abs ?s2)" "fsm_lease s' = None" "same_frame ?s2 s'"
      using replay_ops_abs [of ?s2 ?ops "env_now env" "env_register_now env"] by auto
    then show ?thesis
      using False new wal parse m' assms(5) same_frame_fields [of ?s2 s']
      by (auto simp: replay_wal_def clear_wal_async_def fs_open_truncate_def disk_then_def fsm_abs_def fsm_last_applied_def)
  qed
qed

end
