(* ===== verification/Kv_Crash.thy ===== *)
theory Kv_Crash
  imports Kv_Recovery
begin

text \<open>
  Histories of the file state machine and crashes.  A history starts with no files and consists
  of applied chunks, checkpoints, the injection of the lease and restarts right after a
  checkpoint.  A crash can hit any call of the file system during the next chunk.
\<close>

section \<open>Histories\<close>

definition entry_wf :: "apply_entry \<Rightarrow> bool" where
  "entry_wf e = (0 < ay_index e \<and> ay_index e < 2 ^ 64 \<and> ay_term e < 2 ^ 64 \<and> ay_command e \<noteq> Cmd_Batch [])"

definition fresh_chunk :: "stamped list \<Rightarrow> apply_entry list \<Rightarrow> bool" where
  "fresh_chunk h chunk = ((\<forall>e \<in> set chunk. entry_wf e) \<and> (\<forall>b \<in> set h. \<forall>e \<in> set chunk. ay_index (fst b) < ay_index e))"

inductive fsm_history :: "stamped list \<Rightarrow> file_sm \<Rightarrow> sm_disk \<Rightarrow> bool" where
  fresh: "fsm_data s = [] \<Longrightarrow> fsm_last_applied s = mk_lid 0 0
          \<Longrightarrow> fsm_history [] s \<lparr>dk_data = None, dk_meta = None, dk_wal = None, dk_ttl = None\<rparr>"
| chunk: "fsm_history h s d \<Longrightarrow> fresh_chunk h es \<Longrightarrow> fsm_apply_chunk env es s d = (s', d', Inr results)
          \<Longrightarrow> files_fit d' \<Longrightarrow> fsm_history (h @ stamp (env_encode_clock env) es) s' d'"
| flush: "fsm_history h s d \<Longrightarrow> fsm_flush_async env s d = (s', d', Inr ()) \<Longrightarrow> files_fit d'
          \<Longrightarrow> fsm_history h s' d'"
| restart: "fsm_history h s d \<Longrightarrow> fsm_flush_async env s d = (s1, d1, Inr ()) \<Longrightarrow> files_fit d1
          \<Longrightarrow> \<forall>c. env_io env' c = None \<Longrightarrow> fsm_new env' d1 = (d2, Inr s2) \<Longrightarrow> fsm_history h s2 d2"
| lease: "fsm_history h s d \<Longrightarrow> fsm_history h (set_lease l s) d"

section \<open>Representation of a history by the files\<close>

definition wal_exact :: "(u64 \<times> u64 \<times> wal_rec) list \<Rightarrow> sm_disk \<Rightarrow> bool" where
  "wal_exact rs d = (wal_rep rs d \<and> (dk_wal d = None \<and> rs = [] \<or> dk_wal d = Some (wal_bytes rs)))"

text \<open>The first part of the history is in the data file, the rest in the write-ahead log.\<close>

definition hist_rep ::
    "stamped list \<Rightarrow> stamped list \<Rightarrow> (bytes \<times> bytes \<times> u64) list \<Rightarrow> u64 \<Rightarrow> u64 \<Rightarrow> sm_disk \<Rightarrow> bool" where
  "hist_rep g es m i t d = (data_rep m d \<and> meta_rep i t d \<and> wal_exact (run_wal es (map_of m)) d
     \<and> map_of m = fst (kv_run (map fst g) Map.empty)
     \<and> (\<forall>b \<in> set es. i < ay_index (fst b)) \<and> (i = 0 \<or> i \<in> (ay_index \<circ> fst) ` set g))"

definition state_rep :: "stamped list \<Rightarrow> file_sm \<Rightarrow> bool" where
  "state_rep h s = (fsm_abs s = fst (kv_run (map fst h) Map.empty) \<and> table_wf (fsm_data s)
     \<and> fsm_last_applied s = (if h = [] then mk_lid 0 0
                             else mk_lid (ay_term (fst (last h))) (ay_index (fst (last h))))
     \<and> sorted_wrt (<) (map (ay_index \<circ> fst) h) \<and> (\<forall>b \<in> set h. entry_wf (fst b)))"

lemma table_wf_update: "table_wf m \<Longrightarrow> t < 2 ^ 64 \<Longrightarrow> table_wf (AList.update k (v, t) m)"
proof -
  assume "table_wf m" and "t < 2 ^ 64"
  moreover have "set (AList.update k (v, t) m) \<subseteq> insert (k, v, t) (set m)"
    by (induction m) auto
  ultimately show ?thesis
    by (auto simp: table_wf_def distinct_update)
qed

lemma table_wf_delete: "table_wf m \<Longrightarrow> table_wf (AList.delete k m)"
  using distinct_delete [of m k] by (auto simp: table_wf_def AList.delete_eq)

lemma table_wf_batch:
  "table_wf (fsm_data s) \<Longrightarrow> t < 2 ^ 64 \<Longrightarrow> table_wf (fsm_data (fold (apply_batch_op t) ops s))"
  by (induction ops arbitrary: s) (auto simp: apply_batch_op_def table_wf_update table_wf_delete split: batch_op.split)

lemma table_wf_entry:
  "table_wf (fsm_data s) \<Longrightarrow> entry_wf e \<Longrightarrow> table_wf (fsm_data (fst (apply_memory_entry clock e ok s)))"
  by (simp add: apply_memory_entry_def Let_def entry_wf_def table_wf_update table_wf_delete table_wf_batch
      split: command.split option.split sum.split)

lemma table_wf_memory:
  "table_wf (fsm_data s) \<Longrightarrow> \<forall>b \<in> set bs. entry_wf (fst b) \<Longrightarrow> table_wf (fsm_data (fst (apply_memory clock bs s)))"
proof (induction clock bs s rule: apply_memory.induct)
  case (2 clock e ok es s)
  have "table_wf (fsm_data (fst (apply_memory_entry clock e ok s)))"
    using 2 table_wf_entry by simp
  then show ?case
    using 2 by (auto split: sum.splits prod.splits)
qed simp

section \<open>Effects on the files\<close>

lemma disk_then_simps [simp]:
  "disk_then (d, Inl e) f = (d, Inl e)"
  "disk_then (d, Inr x) f = f d"
  by (simp_all add: disk_then_def)

text \<open>What a failing or successful append leaves in the write-ahead log.\<close>

lemma append_wal_cases:
  assumes "append_wal env buf d = (d', r)"
  shows "\<exists>n. (d' = d \<and> n = 0 \<or> d' = put_wal (take n buf) d) \<and> (is_ok r \<longrightarrow> take n buf = buf)"
proof (cases "buf = []")
  case True
  then show ?thesis
    using assms by (auto simp: append_wal_def)
next
  case False
  have nest: "append_file (append_file f []) bs = append_file f bs" for f bs
    by (simp add: append_file_def split: option.split)
  show ?thesis
  proof (cases "env_io env Open_Wal")
    case None
    show ?thesis
    proof (cases "env_io env Append_Wal")
      case None
      then show ?thesis
        using assms False \<open>env_io env Open_Wal = None\<close>
        by (auto simp: append_wal_def fs_open_truncate_def fs_write_def nest intro!: exI [of _ "length buf"])
    next
      case (Some n)
      then show ?thesis
        using assms False None
        by (auto simp: append_wal_def fs_open_truncate_def fs_write_def nest intro!: exI [of _ n])
    qed
  next
    case (Some n)
    then show ?thesis
      using assms False by (auto simp: append_wal_def fs_open_truncate_def intro!: exI [of _ 0])
  qed
qed

lemma persist_metadata_cases:
  assumes "persist_metadata_async env s d = (d', r)"
  defines "meta \<equiv> u64_to_be_bytes (fsm_last_applied_index s) @ u64_to_be_bytes (fsm_last_applied_term s)"
  shows "d' = d \<and> \<not> is_ok r \<or> (\<exists>bs. length bs < 16 \<and> d' = d\<lparr>dk_meta := Some bs\<rparr> \<and> \<not> is_ok r)
    \<or> d' = d\<lparr>dk_meta := Some meta\<rparr>"
proof -
  let ?i = "u64_to_be_bytes (fsm_last_applied_index s)" and ?t = "u64_to_be_bytes (fsm_last_applied_term s)"
  note defs = persist_metadata_async_def fs_open_truncate_def fs_write_def append_file_def meta_def Let_def
  consider n where "env_io env Open_Meta = Some n"
    | n where "env_io env Open_Meta = None" "env_io env Write_Meta_Index = Some n"
    | n where "env_io env Open_Meta = None" "env_io env Write_Meta_Index = None" "env_io env Write_Meta_Term = Some n"
    | "env_io env Open_Meta = None" "env_io env Write_Meta_Index = None" "env_io env Write_Meta_Term = None"
    by (metis not_None_eq)
  then show ?thesis
  proof cases
    case (2 n)
    then have "d' = d\<lparr>dk_meta := Some (take n ?i)\<rparr> \<and> \<not> is_ok r"
      using assms(1) by (auto simp: defs)
    moreover have "length (take n ?i) < 16"
      by simp
    ultimately show ?thesis
      by blast
  next
    case (3 n)
    then have "d' = d\<lparr>dk_meta := Some (?i @ take n ?t)\<rparr> \<and> \<not> is_ok r"
      using assms(1) by (auto simp: defs)
    moreover have "length (?i @ take n ?t) < 16 \<or> ?i @ take n ?t = meta"
      by (auto simp: meta_def)
    ultimately show ?thesis
      by metis
  qed (use assms(1) in \<open>auto simp: defs\<close>)
qed

text \<open>The states in which a checkpoint can stop, if a write of the data file that has begun
  completes.\<close>

lemma checkpoint_disk_cases:
  assumes "checkpoint env s d = (s', d', r)" and "env_io env Write_Data = None"
  defines "data \<equiv> Some (encode_data (fsm_data s))"
    and "meta \<equiv> u64_to_be_bytes (fsm_last_applied_index s) @ u64_to_be_bytes (fsm_last_applied_term s)"
  shows "d' = d \<and> \<not> is_ok r \<or> d' = d\<lparr>dk_data := data\<rparr> \<and> \<not> is_ok r
    \<or> (\<exists>bs. length bs < 16 \<and> d' = d\<lparr>dk_data := data, dk_meta := Some bs\<rparr> \<and> \<not> is_ok r)
    \<or> d' = d\<lparr>dk_data := data, dk_meta := Some meta\<rparr> \<and> \<not> is_ok r
    \<or> d' = d\<lparr>dk_data := data, dk_meta := Some meta, dk_wal := Some []\<rparr> \<and> is_ok r"
proof -
  note meta_cases = persist_metadata_cases [of env s, folded meta_def]
  show ?thesis
  proof (cases "env_io env Open_Data")
    case None
    then have dat: "persist_data_async env s d = (d\<lparr>dk_data := data\<rparr>, Inr ())"
      using assms(2) by (simp add: persist_data_async_def fs_open_truncate_def fs_write_def append_file_def data_def)
    obtain e' r' where m: "persist_metadata_async env s (d\<lparr>dk_data := data\<rparr>) = (e', r')"
      by fastforce
    show ?thesis
      using assms(1) dat m meta_cases [OF m]
      by (cases r'; cases "env_io env Clear_Wal")
        (auto simp: checkpoint_def clear_wal_async_def fs_open_truncate_def)
  next
    case (Some n)
    then show ?thesis
      using assms(1) by (auto simp: checkpoint_def persist_data_async_def fs_open_truncate_def)
  qed
qed

section \<open>Records in the write-ahead log\<close>

lemma take_wal_bytes:
  assumes "\<forall>b \<in> set rs. wal_rec_wf b" and "length (wal_bytes rs) \<le> 2 ^ 62"
  shows "\<exists>j tail. take n (wal_bytes rs) = wal_bytes (take j rs) @ tail \<and> torn_record tail"
  using assms
proof (induction rs arbitrary: n)
  case Nil
  then show ?case
    by (auto intro: exI [of _ "[]"])
next
  case (Cons b rs)
  obtain i t r where b: "b = (i, t, r)"
    by (cases b) auto
  show ?case
  proof (cases "n < length (wal_record i t r)")
    case True
    have "torn_record (take n (wal_record i t r))"
      unfolding torn_record_def
      by (rule exI [of _ i], rule exI [of _ t], rule exI [of _ r], rule exI [of _ n]) (use True Cons.prems in \<open>simp add: b\<close>)
    then show ?thesis
      using True by (auto simp: b intro!: exI [of _ 0])
  next
    case False
    obtain j tail where "take (n - length (wal_record i t r)) (wal_bytes rs) = wal_bytes (take j rs) @ tail"
        "torn_record tail"
      using Cons.IH [of "n - length (wal_record i t r)"] Cons.prems by (auto simp: b)
    then show ?thesis
      using False by (auto simp: b intro!: exI [of _ "Suc j"])
  qed
qed

definition recs_ok :: "(u64 \<times> u64 \<times> wal_rec) list \<Rightarrow> bool" where
  "recs_ok rs = (\<forall>b \<in> set rs. wal_rec_wf b \<and> expiry_fits (wal_rec_op (fst (snd b)) (snd (snd b))))"

lemma recs_ok_simps [simp]:
  "recs_ok []" "recs_ok (rs @ rs') \<longleftrightarrow> recs_ok rs \<and> recs_ok rs'"
  by (auto simp: recs_ok_def)

lemma recs_ok_take: "recs_ok rs \<Longrightarrow> recs_ok (take n rs)"
  by (auto simp: recs_ok_def dest: in_set_takeD)

lemma entry_wal_expiry:
  assumes "encode_wal_entry now e ok = Inr bs"
  shows "\<forall>b \<in> set (entry_wal now e ok). expiry_fits (wal_rec_op (fst (snd b)) (snd (snd b)))"
proof (cases "ay_command e")
  case (Cmd_Insert k v ttl)
  then show ?thesis
    using assms
    by (auto simp: encode_wal_entry_def entry_wal_def entry_recs_def expiry_fits_def wal_rec_op_def expire_at_secs_def
        systime_add_def as_secs_add Let_def elim!: bind_result_InrE split: option.splits if_splits)
qed (auto simp: entry_wal_def entry_recs_def expiry_fits_def wal_rec_op_def batch_rec_def split: batch_op.splits)

lemma eval_chunk_recs_ok:
  assumes "\<And>k. k \<in> set (cas_keys es) \<Longrightarrow> map_of base k = m k"
    and "eval_chunk clock base es delta = Inr (outcomes, buf)" and "\<forall>e \<in> set es. entry_wf e"
  shows "recs_ok (run_wal (stamp clock es) (delta_view m delta))"
  using assms
proof (induction es arbitrary: delta outcomes buf)
  case (Cons e es)
  have "\<And>k. k \<in> set (cas_keys [e]) \<Longrightarrow> map_of base k = m k"
    and rest: "\<And>k. k \<in> set (cas_keys es) \<Longrightarrow> map_of base k = m k"
    using Cons.prems(1) by (auto simp: cas_keys_Cons [of e es])
  note step = eval_entry_refines [of e base m delta, OF this(1)]
  from Cons.prems(2) obtain bs outcomes' buf'
    where enc: "encode_wal_entry (clock (ay_index e)) e (snd (eval_entry base e delta)) = Inr bs"
      and more: "eval_chunk clock base es (fst (eval_entry base e delta)) = Inr (outcomes', buf')"
    by (auto simp: case_prod_beta elim!: bind_result_InrE)
  have "recs_ok (entry_wal (clock (ay_index e)) e (snd (eval_entry base e delta)))"
    using entry_wal_wf [OF enc] entry_wal_expiry [OF enc] Cons.prems(3) by (auto simp: recs_ok_def entry_wf_def)
  then show ?case
    using Cons.IH [OF rest more] Cons.prems(3) step by simp
qed simp

lemma run_wal_indexes: "b \<in> set (run_wal es m) \<Longrightarrow> \<exists>c \<in> set es. fst b = ay_index (fst c)"
  by (induction es m rule: run_wal.induct) (auto simp: entry_wal_def)

lemma wal_rep_take:
  assumes "wal_exact rs d" and "recs_ok new" and "length (wal_bytes new) \<le> 2 ^ 62"
    and "d' = d \<and> n = 0 \<or> d' = put_wal (take n (wal_bytes new)) d"
  shows "\<exists>j. wal_rep (rs @ take j new) d' \<and> (take n (wal_bytes new) = wal_bytes new \<longrightarrow> take j new = new)"
proof -
  have rs: "recs_ok rs"
    using assms(1) by (simp add: wal_exact_def wal_rep_def recs_ok_def)
  obtain j tail where j: "take n (wal_bytes new) = wal_bytes (take j new) @ tail" "torn_record tail"
    using take_wal_bytes [of new n] assms(2,3) by (auto simp: recs_ok_def)
  consider "take n (wal_bytes new) = wal_bytes new" "d' = put_wal (wal_bytes new) d"
    | "n = 0" "d' = d" | "take n (wal_bytes new) \<noteq> wal_bytes new" "d' = put_wal (take n (wal_bytes new)) d"
    using assms(4) by fastforce
  then show ?thesis
  proof cases
    case 1
    then have "wal_rep (rs @ new) d'"
      using assms(1,2) rs by (auto simp: wal_exact_def wal_rep_def append_file_def recs_ok_def intro!: exI [of _ "[]"])
    then show ?thesis
      by (auto intro!: exI [of _ "length new"])
  next
    case 2
    then show ?thesis
      using assms(1) wal_bytes_eq_Nil [of new] by (auto simp: wal_exact_def simp del: wal_bytes_eq_Nil intro!: exI [of _ 0])
  next
    case 3
    then have "wal_rep (rs @ take j new) d'"
      using assms(1) j rs recs_ok_take [OF assms(2)]
      by (auto simp: wal_exact_def wal_rep_def append_file_def recs_ok_def)
    then show ?thesis
      using 3(1) by blast
  qed
qed

section \<open>One chunk\<close>

definition chunk_end :: "apply_entry list \<Rightarrow> file_sm \<Rightarrow> log_id" where
  "chunk_end es s =
     (if es = [] then fsm_last_applied s else mk_lid (ay_term (last es)) (ay_index (last es)))"

text \<open>A chunk leaves the files alone, or appends to the log and stops, or appends to the log
  and goes on to a checkpoint.\<close>

lemma apply_chunk_disk_cases:
  assumes "fsm_apply_chunk env es s d = (s1, d1, r)"
  obtains "d1 = d" "\<not> is_ok r"
  | outcomes buf rW where "eval_chunk (env_encode_clock env) (cas_base es s) es [] = Inr (outcomes, buf)"
      "append_wal env buf d = (d1, rW)" "is_ok r \<longrightarrow> is_ok rW"
  | outcomes buf dW sM rs s3 rc where "eval_chunk (env_encode_clock env) (cas_base es s) es [] = Inr (outcomes, buf)"
      "append_wal env buf d = (dW, Inr ())" "apply_memory (env_lease_clock env) (zip es outcomes) s = (sM, Inr rs)"
      "fsm_data s3 = fsm_data sM" "fsm_last_applied s3 = chunk_end es s"
      "checkpoint env s3 dW = (s1, d1, rc)" "is_ok r = is_ok rc" "sorted_wrt (<) (map ay_index es)"
proof -
  show thesis
  proof (cases "check_order None es")
    case (Inl e)
    then show ?thesis
      using assms that(1) by (auto simp: fsm_apply_chunk_def)
  next
    case (Inr h)
    note ord = Inr
    show ?thesis
    proof (cases "eval_chunk (env_encode_clock env) (cas_base es s) es []")
      case (Inl e)
      then show ?thesis
        using assms ord that(1) by (auto simp: fsm_apply_chunk_def)
    next
      case (Inr a)
      obtain outcomes buf dW rW where ev: "eval_chunk (env_encode_clock env) (cas_base es s) es [] = Inr (outcomes, buf)"
          and ap: "append_wal env buf d = (dW, rW)"
        using Inr by (metis surj_pair)
      obtain sM rM where mem: "apply_memory (env_lease_clock env) (zip es outcomes) s = (sM, rM)"
        by fastforce
      show ?thesis
      proof (cases "is_ok rW \<and> is_ok rM")
        case False
        then have "d1 = dW \<and> \<not> is_ok r"
          using assms ord ev ap mem by (auto simp: fsm_apply_chunk_def is_ok_def split: sum.splits)
        then show ?thesis
          using that(2) [OF ev] ap by simp
      next
        case True
        then obtain rs where ok: "rW = Inr ()" "rM = Inr rs"
          by (auto simp: is_ok_def split: sum.splits)
        let ?s2 = "case h of Some h \<Rightarrow> update_last_applied h sM | None \<Rightarrow> sM"
        let ?s3 = "?s2\<lparr>fsm_wal_entries := (fsm_wal_entries ?s2 + length es) mod 2 ^ 64\<rparr>"
        have s3: "fsm_data ?s3 = fsm_data sM" "fsm_last_applied ?s3 = chunk_end es s"
          using check_order_Some [OF ord] mem
            same_frame_fields [OF same_frame_memory [of s "env_lease_clock env" "zip es outcomes"]]
          by (auto simp: update_last_applied_def fsm_last_applied_def chunk_end_def split: option.splits)
        show ?thesis
        proof (cases "should_checkpoint env ?s3")
          case True
          obtain s4 d4 rc where cp: "checkpoint env ?s3 dW = (s4, d4, rc)"
            by (metis surj_pair)
          have "s1 = s4 \<and> d1 = d4 \<and> is_ok r = is_ok rc"
            using assms ord ev ap mem ok True cp
            by (simp add: fsm_apply_chunk_def Let_def is_ok_def split: sum.splits) (use assms in auto)
          moreover have "sorted_wrt (<) (map ay_index es)"
            using check_order_iff [of None es] ord by simp
          ultimately show ?thesis
            using that(3) [OF ev, of dW sM rs ?s3 rc] ap ok mem s3 cp by simp
        next
          case False
          then have "d1 = dW"
            using assms ord ev ap mem ok by (simp add: fsm_apply_chunk_def Let_def)
          then show ?thesis
            using that(2) [OF ev] ap ok by simp
        qed
      qed
    qed
  qed
qed

section \<open>The files after a crash\<close>

lemma rep_put_wal [simp]:
  "data_rep m (d\<lparr>dk_wal := w\<rparr>) = data_rep m d" "meta_rep i t (d\<lparr>dk_wal := w\<rparr>) = meta_rep i t d"
  by (simp_all add: data_rep_def meta_rep_def)

lemma rep_put_data [simp]:
  "meta_rep i t (d\<lparr>dk_data := x\<rparr>) = meta_rep i t d" "wal_rep rs (d\<lparr>dk_data := x\<rparr>) = wal_rep rs d"
  "wal_rep rs (d\<lparr>dk_meta := y\<rparr>) = wal_rep rs d" "data_rep m (d\<lparr>dk_meta := y\<rparr>) = data_rep m d"
  by (simp_all add: data_rep_def meta_rep_def wal_rep_def)

lemma filter_indexes_all:
  "\<forall>b \<in> set rs. i < fst b \<Longrightarrow> filter (\<lambda>b. i < fst b) rs = rs"
  by simp

lemma hist_last_bounds:
  assumes "state_rep h s" and "b \<in> set h"
  shows "ay_index (fst b) \<le> fsm_last_applied_index s"
proof -
  have "h \<noteq> []"
    using assms(2) by auto
  then have last: "fsm_last_applied_index s = ay_index (fst (last h))"
    using assms(1) by (simp add: state_rep_def fsm_last_applied_def)
  have "sorted_wrt (<) (map (ay_index \<circ> fst) (butlast h @ [last h]))"
    using assms(1) \<open>h \<noteq> []\<close> by (simp add: state_rep_def)
  moreover have "b \<in> set (butlast h @ [last h])"
    using assms(2) \<open>h \<noteq> []\<close> by simp
  ultimately show ?thesis
    using last by (fastforce simp: sorted_wrt_append)
qed

text \<open>A chunk ends at or above every index of the history and of itself.\<close>

lemma chunk_end_bounds:
  assumes "state_rep h s" and "fresh_chunk h es" and "sorted_wrt (<) (map ay_index es)"
  shows "\<forall>b \<in> set (h @ stamp clock es). ay_index (fst b) \<le> lid_index (chunk_end es s)"
    and "lid_index (chunk_end es s) < 2 ^ 64 \<and> lid_term (chunk_end es s) < 2 ^ 64"
proof -
  have le: "ay_index e \<le> ay_index (last es)" if "e \<in> set es" for e
  proof -
    have "es \<noteq> []"
      using that by auto
    then have "sorted_wrt (<) (map ay_index (butlast es @ [last es]))" and "e \<in> set (butlast es @ [last es])"
      using assms(3) that by simp_all
    then show ?thesis
      by (fastforce simp: sorted_wrt_append)
  qed
  show "\<forall>b \<in> set (h @ stamp clock es). ay_index (fst b) \<le> lid_index (chunk_end es s)"
  proof (cases "es = []")
    case True
    then show ?thesis
      using hist_last_bounds [OF assms(1)] by (simp add: chunk_end_def fsm_last_applied_def)
  next
    case False
    then have "\<forall>b \<in> set h. ay_index (fst b) \<le> ay_index (last es)"
      using assms(2) last_in_set [OF False] by (simp add: fresh_chunk_def less_imp_le)
    then show ?thesis
      using False le by (auto simp: chunk_end_def stamp_def)
  qed
  have "fsm_last_applied_index s < 2 ^ 64 \<and> fsm_last_applied_term s < 2 ^ 64"
    using assms(1) last_in_set [of h]
    by (cases "h = []") (auto simp: state_rep_def fsm_last_applied_def entry_wf_def)
  then show "lid_index (chunk_end es s) < 2 ^ 64 \<and> lid_term (chunk_end es s) < 2 ^ 64"
    using assms(2) last_in_set [of es] by (auto simp: chunk_end_def fsm_last_applied_def fresh_chunk_def entry_wf_def)
qed

text \<open>The files represent, at every crash point, the table before the chunk and some of the
  chunk's records in order.\<close>

definition crash_rep :: "systime \<Rightarrow> kv_table \<Rightarrow> (u64 \<times> u64 \<times> wal_rec) list \<Rightarrow> bool \<Rightarrow> sm_disk \<Rightarrow> bool" where
  "crash_rep now before new complete d =
     (\<exists>m i t rs j. data_rep m d \<and> meta_rep i t d \<and> wal_rep rs d
        \<and> fold (wal_effect now) (wal_ops (filter (\<lambda>b. i < fst b) rs)) (map_of m) =
            fold (wal_effect now) (wal_ops (take j new)) before
        \<and> (complete \<longrightarrow> take j new = new))"

lemma crash_repI:
  "data_rep m d \<Longrightarrow> meta_rep i t d \<Longrightarrow> wal_rep rs d \<Longrightarrow>
   fold (wal_effect now) (wal_ops (filter (\<lambda>b. i < fst b) rs)) (map_of m) =
     fold (wal_effect now) (wal_ops (take j new)) before \<Longrightarrow> (complete \<longrightarrow> take j new = new) \<Longrightarrow>
   crash_rep now before new complete d"
  unfolding crash_rep_def by blast

lemma crash_rep_mono: "crash_rep now before new c d \<Longrightarrow> (c' \<longrightarrow> c) \<Longrightarrow> crash_rep now before new c' d"
  unfolding crash_rep_def by blast

text \<open>The setting of one chunk: the files represent the history, the state agrees with it.\<close>

lemma state_of_hist:
  assumes "state_rep (g @ es2) s" and "hist_rep g es2 m i t d"
  shows "fsm_abs s = fst (kv_run (map fst es2) (map_of m))"
  using assms by (simp add: state_rep_def hist_rep_def kv_run_append case_prod_beta)

lemma chunk_indexes_above:
  assumes "hist_rep g es2 m i t d" and "fresh_chunk (g @ es2) es"
  shows "\<forall>b \<in> set (run_wal es2 (map_of m) @ run_wal (stamp clock es) m'). i < fst b"
proof -
  have "\<forall>e \<in> set es. i < ay_index e"
    using assms by (auto simp: hist_rep_def fresh_chunk_def entry_wf_def)
  moreover have "\<forall>b \<in> set es2. i < ay_index (fst b)"
    using assms(1) by (simp add: hist_rep_def)
  ultimately show ?thesis
    using run_wal_indexes by (fastforce simp: stamp_def)
qed

text \<open>Stopping after the log was extended by part of the records.\<close>

lemma crash_rep_append:
  assumes hist: "hist_rep g es2 m i t d" "state_rep (g @ es2) s" "fresh_chunk (g @ es2) es"
    and new: "new = run_wal (stamp clock es) (fsm_abs s)" "recs_ok new" "length (wal_bytes new) \<le> 2 ^ 62"
    and rec: "\<forall>b \<in> set es2. recoverable now b"
    and disk: "append_wal env (wal_bytes new) d = (d', rW)"
  shows "crash_rep now (fsm_abs s) new (is_ok rW) d'"
    and "is_ok rW \<Longrightarrow> wal_rep (run_wal es2 (map_of m) @ new) d'"
proof -
  let ?R = "run_wal es2 (map_of m)"
  obtain n where n: "d' = d \<and> n = 0 \<or> d' = put_wal (take n (wal_bytes new)) d"
      and ok: "is_ok rW \<longrightarrow> take n (wal_bytes new) = wal_bytes new"
    using append_wal_cases [OF disk] by auto
  have exact: "wal_exact ?R d" and dat: "data_rep m d'" "meta_rep i t d'"
    using hist(1) n by (auto simp: hist_rep_def)
  obtain j where j: "wal_rep (?R @ take j new) d'" "take n (wal_bytes new) = wal_bytes new \<longrightarrow> take j new = new"
    using wal_rep_take [OF exact new(2,3) n] by auto
  have "\<forall>b \<in> set (?R @ take j new). i < fst b"
    using chunk_indexes_above [OF hist(1,3), of clock "fsm_abs s"] new(1) by (auto dest: in_set_takeD)
  then have "fold (wal_effect now) (wal_ops (filter (\<lambda>b. i < fst b) (?R @ take j new))) (map_of m) =
      fold (wal_effect now) (wal_ops (take j new)) (fsm_abs s)"
    using replay_run [OF rec, of "map_of m"] state_of_hist [OF hist(2,1)]
    by (simp only: filter_indexes_all) simp
  then show "crash_rep now (fsm_abs s) new (is_ok rW) d'"
    using crash_repI [OF dat j(1)] j(2) ok by blast
  show "is_ok rW \<Longrightarrow> wal_rep (?R @ new) d'"
    using j ok by simp
qed

text \<open>Stopping in the checkpoint that follows.\<close>

lemma crash_rep_checkpoint:
  assumes hist: "hist_rep g es2 m i t d" "state_rep (g @ es2) s" "fresh_chunk (g @ es2) es"
    and new: "new = run_wal (stamp clock es) (fsm_abs s)"
    and rec: "\<forall>b \<in> set (es2 @ stamp clock es). recoverable now b"
    and wal: "wal_rep (run_wal es2 (map_of m) @ new) dW" "data_rep m dW" "meta_rep i t dW"
    and s3: "fsm_abs s3 = fst (kv_run es (fsm_abs s))" "table_wf (fsm_data s3)"
      "fsm_last_applied s3 = chunk_end es s" "sorted_wrt (<) (map ay_index es)"
    and cp: "checkpoint env s3 dW = (s4, d', rc)" "env_io env Write_Data = None"
  shows "crash_rep now (fsm_abs s) new (is_ok rc) d'"
proof -
  let ?R = "run_wal es2 (map_of m)" and ?data = "Some (encode_data (fsm_data s3))"
  let ?k = "lid_index (chunk_end es s)" and ?l = "lid_term (chunk_end es s)"
  have above: "\<forall>b \<in> set (?R @ new). i < fst b"
    using chunk_indexes_above [OF hist(1,3), of clock "fsm_abs s"] new by simp
  have after: "fold (wal_effect now) (wal_ops (?R @ new)) (map_of m) = fsm_abs s3"
    and after': "fold (wal_effect now) (wal_ops new) (fsm_abs s) = fsm_abs s3"
    using replay_run [of es2 now "map_of m"] replay_run [of "stamp clock es" now "fsm_abs s"] rec
      state_of_hist [OF hist(2,1)] new s3(1) by simp_all
  have again: "fold (wal_effect now) (wal_ops (?R @ new)) (fsm_abs s3) = fsm_abs s3"
    using replay_idempotent [of now "wal_ops (?R @ new)" "map_of m"] after by simp
  have full: "take (length new) new = new"
    by simp
  have dat: "data_rep (fsm_data s3) (dd\<lparr>dk_data := ?data\<rparr>)" for dd
    using s3(2) by (simp add: data_rep_def)
  have met: "meta_rep ?k ?l (dd\<lparr>dk_meta := Some (u64_to_be_bytes (fsm_last_applied_index s3) @ u64_to_be_bytes (fsm_last_applied_term s3))\<rparr>)" for dd
    using chunk_end_bounds(2) [OF hist(2,3) s3(4)] by (simp add: meta_rep_def fsm_last_applied_def flip: s3(3))
  have none: "filter (\<lambda>b. ?k < fst b) (?R @ new) = []"
  proof -
    have "\<exists>c \<in> set (g @ es2 @ stamp clock es). fst b = ay_index (fst c)" if "b \<in> set (?R @ new)" for b
      using that run_wal_indexes new by (metis Un_iff set_append)
    then have "\<forall>b \<in> set (?R @ new). fst b \<le> ?k"
      using chunk_end_bounds(1) [OF hist(2,3) s3(4), of clock] by fastforce
    then show ?thesis
      by (simp only: filter_empty_conv not_less)
  qed
  have abs: "map_of (fsm_data s3) = fsm_abs s3"
    by (simp add: fsm_abs_def)
  have pos: "\<forall>b \<in> set (?R @ new). 0 < fst b"
    using above by fastforce
  note goal = crash_repI [where now = now and before = "fsm_abs s" and new = new and j = "length new"
      and complete = "is_ok rc"]
  note simps = filter_indexes_all [OF above] filter_indexes_all [OF pos] none after after' again full abs wal_ops_simps(1) fold_simps(1)
  from checkpoint_disk_cases [OF cp] show ?thesis
  proof (elim disjE exE conjE)
    assume "d' = dW"
    then show ?thesis
      using wal by (auto simp only: simps intro!: goal [of m _ i t "?R @ new"])
  next
    assume "d' = dW\<lparr>dk_data := ?data\<rparr>"
    then show ?thesis
      using wal dat by (auto simp only: simps rep_put_data intro!: goal [of "fsm_data s3" _ i t "?R @ new"])
  next
    fix bs :: bytes
    assume bs: "length bs < 16" "d' = dW\<lparr>dk_data := ?data, dk_meta := Some bs\<rparr>"
    have "meta_rep 0 0 (dd\<lparr>dk_meta := Some bs\<rparr>)" for dd
      using bs(1) by (auto simp: meta_rep_def)
    then show ?thesis
      using wal dat bs(2) by (auto simp only: simps rep_put_data intro!: goal [of "fsm_data s3" _ 0 0 "?R @ new"])
  next
    assume "d' = dW\<lparr>dk_data := ?data, dk_meta := Some (u64_to_be_bytes (fsm_last_applied_index s3) @ u64_to_be_bytes (fsm_last_applied_term s3))\<rparr>"
    then show ?thesis
      using wal dat met by (auto simp only: simps rep_put_data intro!: goal [of "fsm_data s3" _ ?k ?l "?R @ new"])
  next
    assume d': "d' = dW\<lparr>dk_data := ?data, dk_meta := Some (u64_to_be_bytes (fsm_last_applied_index s3) @ u64_to_be_bytes (fsm_last_applied_term s3)), dk_wal := Some []\<rparr>"
    have "wal_rep [] (dd\<lparr>dk_wal := Some []\<rparr>)" for dd
      by (simp add: wal_rep_def)
    then show ?thesis
      using dat met d' by (auto simp only: simps rep_put_data rep_put_wal filter.simps intro!: goal [of "fsm_data s3" _ ?k ?l "[]"])
  qed
qed

section \<open>Histories keep the representation\<close>

lemma apply_chunk_memory:
  assumes "fsm_apply_chunk env es s d = (s', d', Inr results)"
  obtains outcomes sM where "apply_memory (env_lease_clock env) (zip es outcomes) s = (sM, Inr results)"
    "fsm_data s' = fsm_data sM"
  using assms
  by (auto simp: fsm_apply_chunk_def Let_def update_last_applied_def
      split: sum.splits prod.splits option.splits if_splits dest!: checkpoint_fields)

lemma apply_chunk_sorted:
  "fsm_apply_chunk env es s d = (s', d', Inr results) \<Longrightarrow> sorted_wrt (<) (map ay_index es)"
  using check_order_iff [of None es] by (auto simp: fsm_apply_chunk_def is_ok_def split: sum.splits)

lemma state_rep_chunk:
  assumes "state_rep h s" and "fresh_chunk h es" and "fsm_apply_chunk env es s d = (s', d', Inr results)"
  shows "state_rep (h @ stamp clock es) s'"
proof -
  obtain outcomes sM where mem: "apply_memory (env_lease_clock env) (zip es outcomes) s = (sM, Inr results)"
      "fsm_data s' = fsm_data sM"
    using apply_chunk_memory [OF assms(3)] .
  have "\<forall>b \<in> set (zip es outcomes). entry_wf (fst b)"
    using assms(2) by (auto simp: fresh_chunk_def dest: set_zip_leftD)
  then have "table_wf (fsm_data s')"
    using table_wf_memory [of s "zip es outcomes" "env_lease_clock env"] mem assms(1) by (simp add: state_rep_def)
  moreover have "fsm_abs s' = fst (kv_run (map fst (h @ stamp clock es)) Map.empty)"
    using apply_chunk_refines_run(1) [OF assms(3)] assms(1) by (simp add: state_rep_def kv_run_append case_prod_beta)
  moreover have "sorted_wrt (<) (map (ay_index \<circ> fst) (h @ stamp clock es))"
    using assms(1,2) apply_chunk_sorted [OF assms(3)]
    by (auto simp: state_rep_def fresh_chunk_def sorted_wrt_append sorted_wrt_map stamp_def comp_def)
  ultimately show ?thesis
    using apply_chunk_refines_run(2) [OF assms(3)] assms(1,2)
    by (auto simp: state_rep_def fresh_chunk_def stamp_def last_map)
qed

text \<open>A completed checkpoint moves the whole history into the data file.\<close>

lemma hist_rep_checkpoint:
  assumes "state_rep h s" and "checkpoint env s d = (s', d', Inr ())"
  shows "hist_rep h [] (fsm_data s) (fsm_last_applied_index s) (fsm_last_applied_term s) d'" and "state_rep h s'"
proof -
  let ?i = "fsm_last_applied_index s" and ?t = "fsm_last_applied_term s"
  have "env_io env Open_Data = None" and "env_io env Write_Data = None"
    using assms(2) by (auto simp: checkpoint_def persist_data_async_def fs_open_truncate_def fs_write_def
        split: option.splits)
  then have d': "d' = d\<lparr>dk_data := Some (encode_data (fsm_data s)),
      dk_meta := Some (u64_to_be_bytes ?i @ u64_to_be_bytes ?t), dk_wal := Some []\<rparr>"
    using checkpoint_disk_cases [OF assms(2)] by auto
  have "?i < 2 ^ 64 \<and> ?t < 2 ^ 64 \<and> (?i = 0 \<or> ?i \<in> (ay_index \<circ> fst) ` set h)"
    using assms(1) last_in_set [of h]
    by (cases "h = []") (auto simp: state_rep_def fsm_last_applied_def entry_wf_def image_iff intro!: bexI [of _ "last h"])
  then show "hist_rep h [] (fsm_data s) ?i ?t d'"
    using assms(1) by (auto simp: d' hist_rep_def data_rep_def meta_rep_def wal_exact_def wal_rep_def state_rep_def fsm_abs_def)
  show "state_rep h s'"
    using checkpoint_fields [OF assms(2)] assms(1) by (simp add: state_rep_def fsm_abs_def)
qed

lemma chunk_records:
  assumes "eval_chunk clock (cas_base es s) es [] = Inr (outcomes, buf)" and "fresh_chunk h es"
  shows "buf = wal_bytes (run_wal (stamp clock es) (fsm_abs s))" and "recs_ok (run_wal (stamp clock es) (fsm_abs s))"
    and "outcomes = run_outcomes es (fsm_abs s)"
  using eval_chunk_wal [OF _ assms(1), of "fsm_abs s"] eval_chunk_recs_ok [OF _ assms(1), of "fsm_abs s"]
    eval_chunk_outcomes [OF _ assms(1), of "fsm_abs s"] map_of_cas_base assms(2)
  by (auto simp: fresh_chunk_def entry_wf_def)

text \<open>A chunk without a checkpoint extends the log by all its records.\<close>

lemma hist_rep_append:
  assumes "hist_rep g es2 m i t d" and "state_rep (g @ es2) s" and "fresh_chunk (g @ es2) es"
    and "eval_chunk clock (cas_base es s) es [] = Inr (outcomes, buf)" and "append_wal env buf d = (d', rW)" "is_ok rW"
  shows "hist_rep g (es2 @ stamp clock es) m i t d'"
proof -
  let ?new = "run_wal (stamp clock es) (fsm_abs s)"
  note recs = chunk_records [OF assms(4,3)]
  have run: "run_wal (es2 @ stamp clock es) (map_of m) = run_wal es2 (map_of m) @ ?new"
    using state_of_hist [OF assms(2,1)] by (simp add: run_wal_append)
  obtain n where n: "d' = d \<and> n = 0 \<or> d' = put_wal (take n buf) d" and full: "take n buf = buf"
    using append_wal_cases [OF assms(5)] assms(6) by auto
  then have d': "d' = d \<and> ?new = [] \<or> d' = put_wal (wal_bytes ?new) d"
    using recs(1) wal_bytes_eq_Nil [of ?new] by auto
  have "wal_exact (run_wal es2 (map_of m) @ ?new) d'"
    using d' assms(1) recs(2)
    by (auto simp: hist_rep_def wal_exact_def wal_rep_def recs_ok_def append_file_def intro!: exI [of _ "[]"])
  moreover have "\<forall>e \<in> set es. i < ay_index e"
    using assms(1,3) by (auto simp: hist_rep_def fresh_chunk_def entry_wf_def)
  moreover have "data_rep m d'" "meta_rep i t d'"
    using d' assms(1) by (auto simp: hist_rep_def)
  ultimately show ?thesis
    using assms(1) run by (auto simp: hist_rep_def stamp_def)
qed

lemma history_rep:
  assumes "fsm_history h s d"
  shows "\<exists>g es2 m i t. h = g @ es2 \<and> hist_rep g es2 m i t d \<and> state_rep h s"
  using assms
proof induction
  case (fresh s)
  then show ?case
    by (auto simp: hist_rep_def state_rep_def data_rep_def meta_rep_def wal_exact_def wal_rep_def table_wf_def
        fsm_abs_def intro!: exI [of _ "[]"] exI [of _ 0])
next
  case (chunk h s d es env s' d' results)
  then obtain g es2 m i t where h: "h = g @ es2" "hist_rep g es2 m i t d" "state_rep h s"
    by blast
  have st: "state_rep (h @ stamp (env_encode_clock env) es) s'"
    using state_rep_chunk [OF h(3) chunk.hyps(2,3)] .
  from chunk.hyps(3) show ?case
  proof (cases rule: apply_chunk_disk_cases)
    case (2 outcomes buf rW)
    then have "hist_rep g (es2 @ stamp (env_encode_clock env) es) m i t d'"
      using hist_rep_append [of g es2 m i t d s es] h chunk.hyps(2) by simp
    then show ?thesis
      using h(1) st by (metis append.assoc)
  next
    case (3 outcomes buf dW sM rs s3 rc)
    then have "rc = Inr ()"
      by (cases rc) simp_all
    moreover have "state_rep (h @ stamp (env_encode_clock env) es) s3"
      using st 3(4,5,6) checkpoint_fields [of env s3 dW s' d' rc] by (simp add: state_rep_def fsm_abs_def)
    ultimately show ?thesis
      using hist_rep_checkpoint(1) [of _ s3 env dW s' d'] 3(6) st by blast
  qed simp
next
  case (flush h s d env s' d')
  then have "hist_rep h [] (fsm_data s) (fsm_last_applied_index s) (fsm_last_applied_term s) d'" and "state_rep h s'"
    using hist_rep_checkpoint [of h s env d s' d'] by (auto simp: fsm_flush_async_def)
  then show ?case
    by blast
next
  case (restart h s d env s1 d1 env' d2 s2)
  let ?i = "fsm_last_applied_index s" and ?t = "fsm_last_applied_term s"
  have st: "state_rep h s" and hist: "hist_rep h [] (fsm_data s) ?i ?t d1"
    using restart.IH hist_rep_checkpoint [of h s env d s1 d1] restart.hyps(2) by (auto simp: fsm_flush_async_def)
  have wal: "dk_wal d1 = Some []"
    using restart.hyps(2) by (auto simp: fsm_flush_async_def checkpoint_def clear_wal_async_def fs_open_truncate_def
        disk_then_def split: prod.splits sum.splits option.splits)
  have "fsm_new env' d1 = (d1, Inr s2)" "fsm_abs s2 = fsm_abs s" "table_wf (fsm_data s2)" "fsm_last_applied s2 = mk_lid ?t ?i"
    using fsm_new_clean [of "fsm_data s" d1 ?i ?t env'] hist wal restart.hyps(3-5)
    by (auto simp: hist_rep_def fsm_abs_def)
  then have "state_rep h s2" and "d2 = d1"
    using st restart.hyps(5) by (auto simp: state_rep_def fsm_last_applied_def)
  then show ?case
    using hist by blast
next
  case (lease h s d l)
  then show ?case
    by (auto simp: state_rep_def set_lease_def fsm_abs_def fsm_last_applied_def)
qed

section \<open>Recovery\<close>

lemma crash_rep_chunk:
  assumes "fsm_history h s d" and "fresh_chunk h es" and "fsm_apply_chunk env es s d = (s1, d1, r)"
    and "env_io env Write_Data = None" and "\<forall>b \<in> set (h @ stamp (env_encode_clock env) es). recoverable now b"
    and "length (wal_bytes (run_wal (stamp (env_encode_clock env) es) (fsm_abs s))) \<le> 2 ^ 62"
  shows "crash_rep now (fsm_abs s) (run_wal (stamp (env_encode_clock env) es) (fsm_abs s)) (is_ok r) d1"
proof -
  obtain g es2 m i t where h: "h = g @ es2" "hist_rep g es2 m i t d" "state_rep h s"
    using history_rep [OF assms(1)] by blast
  note hist = h(2) h(3) [unfolded h(1)] assms(2) [unfolded h(1)]
  from assms(3) show ?thesis
  proof (cases rule: apply_chunk_disk_cases)
    case 1
    have "fold (wal_effect now) (wal_ops (filter (\<lambda>b. i < fst b) (run_wal es2 (map_of m)))) (map_of m) = fsm_abs s"
      using chunk_indexes_above [OF hist(1,3), of undefined Map.empty] replay_run [of es2 now "map_of m"]
        assms(5) state_of_hist [OF hist(2,1)] by (simp add: h(1))
    moreover have "data_rep m d" "meta_rep i t d" "wal_rep (run_wal es2 (map_of m)) d"
      using h(2) by (auto simp: hist_rep_def wal_exact_def)
    ultimately show ?thesis
      using 1 crash_repI [of m d i t "run_wal es2 (map_of m)" now 0 _ "fsm_abs s" False] by simp
  next
    case (2 outcomes buf rW)
    note recs = chunk_records [OF 2(1) assms(2)]
    have "\<forall>b \<in> set es2. recoverable now b"
      using assms(5) by (simp add: h(1))
    then show ?thesis
      using crash_rep_append(1) [OF hist refl recs(2) assms(6) _ 2(2) [unfolded recs(1)]] 2(3) crash_rep_mono by blast
  next
    case (3 outcomes buf dW sM rs s3 rc)
    note recs = chunk_records [OF 3(1) assms(2)]
    have wal: "wal_rep (run_wal es2 (map_of m) @ run_wal (stamp (env_encode_clock env) es) (fsm_abs s)) dW"
      using crash_rep_append(2) [OF hist refl recs(2) assms(6), of now env dW "Inr ()"] 3(2) recs(1) assms(5)
      by (simp add: h(1))
    have "dW = d \<or> (\<exists>w. dW = d\<lparr>dk_wal := w\<rparr>)"
      using append_wal_cases [OF 3(2)] by auto
    then have dat: "data_rep m dW" "meta_rep i t dW"
      using h(2) by (auto simp: hist_rep_def)
    have "\<forall>b \<in> set (zip es outcomes). entry_wf (fst b)"
      using assms(2) by (auto simp: fresh_chunk_def dest: set_zip_leftD)
    then have tab: "table_wf (fsm_data s3)"
      using table_wf_memory [of s "zip es outcomes" "env_lease_clock env"] 3(3,4) h(3) by (simp add: state_rep_def)
    have abs: "fsm_abs s3 = fst (kv_run es (fsm_abs s))"
      using apply_memory_refines [of "env_lease_clock env" es s sM rs] 3(3,4) recs(3) by (simp add: fsm_abs_def)
    show ?thesis
      using crash_rep_checkpoint [OF hist refl _ wal dat abs tab 3(5,8,6) assms(4)] assms(5) 3(7) by (simp add: h(1))
  qed
qed

text \<open>A restart after a crash finds the table of the history and some of the chunk's records;
  after a chunk that was acknowledged it finds the table of the running machine.\<close>

lemma crash_rep_restart:
  assumes "crash_rep (env_now env) before new complete d" and "files_fit d" and "\<And>c. env_io env c = None"
  shows "\<exists>s' j. snd (fsm_new env d) = Inr s'
           \<and> fsm_abs s' = fold (wal_effect (env_now env)) (wal_ops (take j new)) before
           \<and> (complete \<longrightarrow> take j new = new)"
proof -
  from assms(1) obtain m i t rs j where rep: "data_rep m d" "meta_rep i t d" "wal_rep rs d"
      and eq: "fold (wal_effect (env_now env)) (wal_ops (filter (\<lambda>b. i < fst b) rs)) (map_of m) =
        fold (wal_effect (env_now env)) (wal_ops (take j new)) before" "complete \<longrightarrow> take j new = new"
    unfolding crash_rep_def by blast
  show ?thesis
    using fsm_new_rep [OF rep assms(2,3)] eq by auto
qed

end
