(* ===== verification/Kv_Properties.thy ===== *)
theory Kv_Properties
  imports Kv_Crash
begin

text \<open>
  Properties of the file state machine: chunks are applied serially, acknowledged chunks survive
  a crash, a snapshot carries the table, and the cases in which recovery or a snapshot loses
  something.
\<close>

section \<open>Chunks return\<close>

definition ttl_accepted :: "sm_env \<Rightarrow> file_sm \<Rightarrow> apply_entry \<Rightarrow> bool" where
  "ttl_accepted env s e =
     (case ay_command e of
        Cmd_Insert _ _ (Some ttl) \<Rightarrow>
          fsm_lease s \<noteq> None \<and> is_ok (systime_add (env_encode_clock env (ay_index e)) ttl)
          \<and> is_ok (systime_add (env_lease_clock env (ay_index e)) ttl)
      | _ \<Rightarrow> True)"

lemma is_ok_iff: "is_ok r \<longleftrightarrow> (\<exists>x. r = Inr x)"
  by (cases r) simp_all

lemma encode_wal_entry_ok: "ttl_accepted env s e \<Longrightarrow> is_ok (encode_wal_entry (env_encode_clock env (ay_index e)) e ok)"
  by (auto simp: ttl_accepted_def encode_wal_entry_def expire_at_secs_def Let_def is_ok_iff
      split: command.splits option.splits)

lemma eval_chunk_ok:
  "\<forall>e \<in> set es. ttl_accepted env s e \<Longrightarrow> is_ok (eval_chunk (env_encode_clock env) base es delta)"
proof (induction es arbitrary: delta)
  case (Cons e es)
  obtain bs where "encode_wal_entry (env_encode_clock env (ay_index e)) e (snd (eval_entry base e delta)) = Inr bs"
    using encode_wal_entry_ok [of env s e] Cons.prems by (auto simp: is_ok_iff)
  moreover obtain x where "eval_chunk (env_encode_clock env) base es (fst (eval_entry base e delta)) = Inr x"
    using Cons.IH [of "fst (eval_entry base e delta)"] Cons.prems
    unfolding is_ok_iff by (metis list.set_intros(2))
  ultimately show ?case
    by (simp add: case_prod_beta)
qed simp

lemma batch_keeps_lease: "fsm_lease s \<noteq> None \<Longrightarrow> fsm_lease (fold (apply_batch_op t) ops s) \<noteq> None"
  by (induction ops arbitrary: s) (auto simp: apply_batch_op_def split: batch_op.splits)

lemma apply_memory_entry_ok:
  assumes "ttl_accepted env s e"
  shows "is_ok (snd (apply_memory_entry (env_lease_clock env) e ok s))"
    and "fsm_lease s \<noteq> None \<Longrightarrow> fsm_lease (fst (apply_memory_entry (env_lease_clock env) e ok s)) \<noteq> None"
  using assms batch_keeps_lease [of s "ay_term e"]
  by (auto simp: apply_memory_entry_def ttl_accepted_def Let_def lease_register_def is_ok_iff
      split: command.splits option.splits sum.splits)

lemma apply_memory_ok:
  "\<forall>b \<in> set bs. ttl_accepted env s (fst b) \<Longrightarrow> is_ok (snd (apply_memory (env_lease_clock env) bs s))"
proof (induction bs arbitrary: s)
  case (Cons b bs)
  obtain e ok where b: "b = (e, ok)"
    by (cases b)
  let ?one = "apply_memory_entry (env_lease_clock env) e ok s"
  obtain r where r: "snd ?one = Inr r"
    using apply_memory_entry_ok(1) [of env s e ok] Cons.prems by (auto simp: b is_ok_iff)
  have "\<forall>b \<in> set bs. ttl_accepted env (fst ?one) (fst b)"
    using Cons.prems apply_memory_entry_ok(2) [of env s e ok]
    by (auto simp: b ttl_accepted_def split: command.splits option.splits)
  then obtain rs where "snd (apply_memory (env_lease_clock env) bs (fst ?one)) = Inr rs"
    using Cons.IH by (auto simp: is_ok_iff)
  then show ?case
    using r by (auto simp: b split: prod.splits sum.splits)
qed simp

lemma checkpoint_ok: "(\<And>c. env_io env c = None) \<Longrightarrow> is_ok (snd (snd (checkpoint env s d)))"
  by (simp add: checkpoint_def persist_data_async_def persist_metadata_async_def clear_wal_async_def Let_def
      fs_open_truncate_def fs_write_def)

lemma append_wal_ok: "(\<And>c. env_io env c = None) \<Longrightarrow> is_ok (snd (append_wal env buf d))"
  by (simp add: append_wal_def fs_open_truncate_def fs_write_def)

lemma apply_chunk_ok:
  assumes io: "\<And>c. env_io env c = None" and "sorted_wrt (<) (map ay_index es)"
    and "\<forall>e \<in> set es. ttl_accepted env s e"
  shows "is_ok (snd (snd (fsm_apply_chunk env es s d)))"
proof -
  obtain h where "check_order None es = Inr h"
    using check_order_iff [of None es] assms(2) by (auto simp: is_ok_iff)
  moreover obtain outcomes buf where "eval_chunk (env_encode_clock env) (cas_base es s) es [] = Inr (outcomes, buf)"
    using eval_chunk_ok [OF assms(3)] by (metis is_ok_iff surj_pair)
  moreover obtain d1 where "append_wal env buf d = (d1, Inr ())"
    using append_wal_ok [OF io, of buf d] by (metis is_ok_iff prod.collapse unit.exhaust)
  moreover obtain s1 rs where "apply_memory (env_lease_clock env) (zip es outcomes) s = (s1, Inr rs)"
  proof -
    have "\<forall>b \<in> set (zip es outcomes). ttl_accepted env s (fst b)"
      using assms(3) by (auto dest: set_zip_leftD)
    then show thesis
      using apply_memory_ok that by (metis is_ok_iff prod.collapse)
  qed
  ultimately show ?thesis
    using checkpoint_ok [OF io] by (auto simp: fsm_apply_chunk_def Let_def is_ok_iff split: prod.splits sum.splits)
      (metis is_ok_iff is_ok_simps(1) snd_conv)
qed

section \<open>Sample machine\<close>

definition ex_sm_env :: sm_env where
  "ex_sm_env =
     \<lparr>env_io = (\<lambda>_. None), env_encode_clock = (\<lambda>_. 0), env_lease_clock = (\<lambda>_. 0), env_now = 0,
      env_register_now = 0, env_instant = 0, env_ser = (\<lambda>_. []), env_deser = (\<lambda>_. Some []),
      env_sha256 = (\<lambda>_. [])\<rparr>"

definition ex_sm :: file_sm where
  "ex_sm =
     \<lparr>fsm_data = [], fsm_lease = Some ttl_lease_new, fsm_last_applied_index = 0, fsm_last_applied_term = 0,
      fsm_last_snapshot_metadata = None, fsm_running = True, fsm_wal_entries = 0, fsm_last_checkpoint = 0\<rparr>"

definition ex_disk :: sm_disk where
  "ex_disk = \<lparr>dk_data = None, dk_meta = None, dk_wal = None, dk_ttl = None\<rparr>"

abbreviation ex_entry :: "u64 \<Rightarrow> command \<Rightarrow> apply_entry" where
  "ex_entry i c \<equiv> \<lparr>ay_index = i, ay_term = 1, ay_command = c\<rparr>"

lemmas ex_sm_defs = ex_sm_env_def ex_sm_def ex_disk_def

lemma ex_sm_history: "fsm_history [] ex_sm ex_disk"
  unfolding ex_disk_def by (rule fsm_history.fresh) (simp_all add: ex_sm_def fsm_last_applied_def)

section \<open>Properties\<close>

text \<open>C5: A chunk of entries with increasing indexes, whose times to live do not overflow the
  clock, is applied when the file system works: the table and the results are those of the
  abstract key-value machine that applies the entries one at a time, and the last applied
  identifier is that of the chunk's last entry.\<close>

theorem chunk_applied_serially:
  assumes "\<forall>c. env_io env c = None" and "sorted_wrt (<) (map ay_index es)"
    and "\<forall>e \<in> set es. ttl_accepted env s e"
  shows "\<exists>s' d'. fsm_apply_chunk env es s d = (s', d', Inr (snd (kv_run es (fsm_abs s))))
           \<and> fsm_abs s' = fst (kv_run es (fsm_abs s)) \<and> fsm_last_applied s' = chunk_end es s"
proof -
  obtain s' d' rs where run: "fsm_apply_chunk env es s d = (s', d', Inr rs)"
    using apply_chunk_ok [OF _ assms(2,3), of d] assms(1) by (metis is_ok_iff prod.collapse)
  then show ?thesis
    using apply_chunk_refines_run [OF run] by (simp add: chunk_end_def)
qed

theorem chunk_applied_serially_witness:
  "\<exists>s' d'. fsm_apply_chunk ex_sm_env
      [ex_entry 1 (Cmd_Insert [7] [1] (Some 5)), ex_entry 2 (Cmd_Cas [7] (Some [1]) [2]), ex_entry 3 (Cmd_Cas [7] None [3])]
      ex_sm ex_disk =
    (s', d', Inr [\<lparr>ap_index = 1, ap_succeeded = True\<rparr>, \<lparr>ap_index = 2, ap_succeeded = True\<rparr>,
                  \<lparr>ap_index = 3, ap_succeeded = False\<rparr>])"
proof -
  let ?es = "[ex_entry 1 (Cmd_Insert [7] [1] (Some 5)), ex_entry 2 (Cmd_Cas [7] (Some [1]) [2]),
      ex_entry 3 (Cmd_Cas [7] None [3])]"
  have run: "snd (kv_run ?es (fsm_abs ex_sm)) = [\<lparr>ap_index = 1, ap_succeeded = True\<rparr>,
      \<lparr>ap_index = 2, ap_succeeded = True\<rparr>, \<lparr>ap_index = 3, ap_succeeded = False\<rparr>]"
    by (simp add: kv_step_def kv_cas_holds_def fsm_abs_def ex_sm_def Let_def)
  have "\<forall>c. env_io ex_sm_env c = None" and "sorted_wrt (<) (map ay_index ?es)"
    and "\<forall>e \<in> set ?es. ttl_accepted ex_sm_env ex_sm e"
    by (simp_all add: ex_sm_defs ttl_accepted_def systime_add_def i64_max_def)
  from chunk_applied_serially [OF this, of ex_disk] show ?thesis
    unfolding run by blast
qed

text \<open>C6: Take a machine that started on empty files and has since applied chunks of entries with
  increasing indexes, written checkpoints and been restarted right after a checkpoint, with
  every file below \<open>2 ^ 62\<close> bytes and no empty batch among the entries.  Let the next chunk be
  cut short by a failing file-system call or a crash at any point except inside the rewrite of
  the data file.  If all entries of the history and of the chunk have values that are not
  empty and have not expired at the restart, a restart whose own file-system calls succeed
  finds the table before the chunk changed by a prefix of the chunk's records, and the table
  after the whole chunk if the chunk was acknowledged.\<close>

theorem acknowledged_chunks_survive_crash:
  assumes "fsm_history h s d" and "fresh_chunk h es" and "fsm_apply_chunk env es s d = (s1, d1, r)"
    and "env_io env Write_Data = None"
    and "\<forall>b \<in> set (h @ stamp (env_encode_clock env) es). recoverable (env_now env') b"
    and "length (wal_bytes (run_wal (stamp (env_encode_clock env) es) (fsm_abs s))) \<le> 2 ^ 62"
    and "files_fit d1" and "\<forall>c. env_io env' c = None"
  shows "\<exists>s' j. snd (fsm_new env' d1) = Inr s'
           \<and> fsm_abs s' = fold (wal_effect (env_now env'))
               (wal_ops (take j (run_wal (stamp (env_encode_clock env) es) (fsm_abs s)))) (fsm_abs s)
           \<and> (is_ok r \<longrightarrow> fsm_abs s' = fsm_abs s1)"
proof -
  let ?new = "run_wal (stamp (env_encode_clock env) es) (fsm_abs s)"
  obtain s' j where s': "snd (fsm_new env' d1) = Inr s'"
      "fsm_abs s' = fold (wal_effect (env_now env')) (wal_ops (take j ?new)) (fsm_abs s)" "is_ok r \<longrightarrow> take j ?new = ?new"
    using crash_rep_restart [OF crash_rep_chunk [OF assms(1-6)] assms(7)] assms(8) by blast
  have "fold (wal_effect (env_now env')) (wal_ops ?new) (fsm_abs s) = fst (kv_run es (fsm_abs s))"
    using replay_run [of "stamp (env_encode_clock env) es" "env_now env'" "fsm_abs s"] assms(5) by simp
  moreover have "is_ok r \<longrightarrow> fst (kv_run es (fsm_abs s)) = fsm_abs s1"
    using apply_chunk_refines_run(1) [of env es s d s1 d1] assms(3) by (auto simp: is_ok_iff)
  ultimately show ?thesis
    using s' by metis
qed

text \<open>One insertion by the sample machine.\<close>

abbreviation ex_put :: apply_entry where
  "ex_put \<equiv> ex_entry 1 (Cmd_Insert [7] [1] None)"

definition ex_sm_put :: file_sm where
  "ex_sm_put = ex_sm\<lparr>fsm_data := [([7], [1], 1)], fsm_last_applied_index := 1, fsm_last_applied_term := 1,
                     fsm_wal_entries := 1\<rparr>"

definition ex_disk_put :: sm_disk where
  "ex_disk_put = ex_disk\<lparr>dk_wal := Some (wal_bytes [(1, 1, Wal_Insert, [7], [1], 0)])\<rparr>"

lemma ex_put_applied:
  "fsm_apply_chunk ex_sm_env [ex_put] ex_sm ex_disk =
     (ex_sm_put, ex_disk_put, Inr [\<lparr>ap_index = 1, ap_succeeded = True\<rparr>])"
  by (simp add: fsm_apply_chunk_def eval_entry_def encode_wal_entry_def expire_at_secs_def append_wal_def
      fs_open_truncate_def fs_write_def apply_memory_entry_def apply_result_success_def update_last_applied_def
      should_checkpoint_def WAL_ENTRY_THRESHOLD_def TIME_THRESHOLD_SECS_def as_secs_def append_file_def
      ex_sm_put_def ex_disk_put_def ex_sm_defs wal_record_def wal_fields_def)

lemma ex_put_fits: "files_fit ex_disk_put"
  by (simp add: files_fit_def ex_disk_put_def ex_disk_def wal_record_length)

lemma ex_put_records: "run_wal (stamp clock [ex_put]) m = [(1, 1, Wal_Insert, [7], [1], 0)]"
  by (simp add: entry_wal_def entry_recs_def)

lemma ex_put_fresh: "fresh_chunk [] [ex_put]"
  by (simp add: fresh_chunk_def entry_wf_def)

lemma ex_put_history: "fsm_history [(ex_put, 0)] ex_sm_put ex_disk_put"
  using fsm_history.chunk [OF ex_sm_history ex_put_fresh ex_put_applied ex_put_fits] by (simp add: ex_sm_env_def)

text \<open>The next insertion is torn: the append to the write-ahead log stops after five bytes.\<close>

abbreviation ex_overwrite :: apply_entry where
  "ex_overwrite \<equiv> ex_entry 2 (Cmd_Insert [7] [2] None)"

definition ex_torn_env :: sm_env where
  "ex_torn_env = ex_sm_env\<lparr>env_io := (\<lambda>c. if c = Append_Wal then Some 5 else None)\<rparr>"

definition ex_torn_disk :: sm_disk where
  "ex_torn_disk = ex_disk\<lparr>dk_wal := Some (wal_bytes [(1, 1, Wal_Insert, [7], [1], 0)]
     @ take 5 (wal_bytes [(2, 1, Wal_Insert, [7], [2], 0)]))\<rparr>"

lemma ex_overwrite_records: "run_wal (stamp clock [ex_overwrite]) m = [(2, 1, Wal_Insert, [7], [2], 0)]"
  by (simp add: entry_wal_def entry_recs_def)

lemma ex_overwrite_torn:
  "fsm_apply_chunk ex_torn_env [ex_overwrite] ex_sm_put ex_disk_put = (ex_sm_put, ex_torn_disk, io_failed)"
  by (simp add: fsm_apply_chunk_def eval_entry_def encode_wal_entry_def expire_at_secs_def append_wal_def
      fs_open_truncate_def fs_write_def append_file_def ex_torn_env_def ex_torn_disk_def ex_disk_put_def
      ex_sm_defs wal_record_def wal_fields_def)

lemma ex_torn_fits: "files_fit ex_torn_disk"
  by (simp add: files_fit_def ex_torn_disk_def ex_disk_def wal_record_length)

theorem acknowledged_chunks_survive_crash_witness:
  "snd (snd (fsm_apply_chunk ex_torn_env [ex_overwrite] ex_sm_put ex_disk_put)) = io_failed
   \<and> (\<exists>s'. snd (fsm_new ex_sm_env ex_torn_disk) = Inr s' \<and> fsm_get [7] s' \<in> {Some [1], Some [2]})"
proof -
  have fresh: "fresh_chunk [(ex_put, 0)] [ex_overwrite]"
    by (simp add: fresh_chunk_def entry_wf_def)
  have "length (wal_bytes (run_wal (stamp (env_encode_clock ex_torn_env) [ex_overwrite]) (fsm_abs ex_sm_put))) \<le> 2 ^ 62"
    by (simp only: ex_overwrite_records) (simp add: wal_record_length)
  moreover have "\<forall>b \<in> set ([(ex_put, 0)] @ stamp (env_encode_clock ex_torn_env) [ex_overwrite]).
      recoverable (env_now ex_sm_env) b"
    by (simp add: recoverable_def)
  ultimately obtain s' j where s': "snd (fsm_new ex_sm_env ex_torn_disk) = Inr s'"
      "fsm_abs s' = fold (wal_effect (env_now ex_sm_env))
         (wal_ops (take j (run_wal (stamp (env_encode_clock ex_torn_env) [ex_overwrite]) (fsm_abs ex_sm_put))))
         (fsm_abs ex_sm_put)"
    using acknowledged_chunks_survive_crash [OF ex_put_history fresh ex_overwrite_torn _ _ _ ex_torn_fits, of ex_sm_env]
    by (auto simp: ex_sm_env_def ex_torn_env_def)
  have "fsm_abs s' [7] \<in> {Some ([1], 1), Some ([2], 1)}"
    unfolding s'(2) ex_overwrite_records
    by (cases j) (simp_all add: wal_ops_def wal_effect_def wal_write_def wal_rec_op_def fsm_abs_def ex_sm_put_def ex_sm_def)
  then have "fsm_get [7] s' \<in> {Some [1], Some [2]}"
    by (auto simp: fsm_get_def fsm_abs_def)
  then show ?thesis
    using s'(1) ex_overwrite_torn by simp
qed

text \<open>C15: A snapshot of one machine installed by another that is behind it: the table and the
  applied identifier are those of the snapshot, but the expiry times in the snapshot are never
  read; the installing machine keeps its own.\<close>

theorem snapshot_carries_table_not_expiries:
  assumes "\<forall>c. env_io env c = None" and "\<forall>c. env_io env' c = None" and "env_sha256 env' = env_sha256 env"
    and "table_wf (fsm_data s)" and "fsm_generate_snapshot_data env s = (dir, Inr checksum)"
    and "length (the (map_of dir ''snapshot.bin'')) \<le> 2 ^ 62" and "fsm_last_applied_index s0 < lid_index id0"
  shows "\<exists>s' d'. fsm_apply_snapshot_from_file env' \<lparr>sm_last_included = Some id0, sm_checksum = checksum\<rparr> dir s0 d =
             (s', d', Inr (Applied id0))
           \<and> fsm_abs s' = fsm_abs s \<and> fsm_lease s' = fsm_lease s0 \<and> fsm_last_applied s' = id0"
proof -
  let ?lease = "case fsm_lease s of Some lease \<Rightarrow> lease_to_snapshot (env_ser env) lease | None \<Rightarrow> []"
  let ?buf = "encode_data (fsm_data s) @ u64_to_be_bytes (length ?lease) @ ?lease"
  have dir: "dir = [(''snapshot.bin'', ?buf)]" and sum: "checksum = env_sha256 env ?buf"
    using assms(1,5) by (auto simp: fsm_generate_snapshot_data_def folder_checksum_def Let_def)
  then have size: "length (encode_data (fsm_data s)) + 8 + length ?lease \<le> u64_max"
    using assms(6) by (simp add: u64_max_less)
  have "parse_data 0 ?buf [] = Inr (kv_insert_all (fsm_data s) [], [])"
    using parse_data_encode [of "fsm_data s" 0 "u64_to_be_bytes (length ?lease) @ ?lease" "[]" "[]"]
      parse_kv_block [of "length (encode_data (fsm_data s))" ?lease] size assms(4)
    by (simp add: table_wf_def flip: length_greater_0_conv)
  then have "install_snapshot_bytes env' ?buf s0 = Inr (s0\<lparr>fsm_data := kv_insert_all (fsm_data s) []\<rparr>)"
    by (simp add: install_snapshot_bytes_def reload_trailing_lease_def)
  moreover have "folder_checksum env' dir = Inr checksum"
    using assms(2,3) dir sum by (simp add: folder_checksum_def)
  ultimately show ?thesis
    using assms(2,4,7) dir map_of_insert_all_distinct [of "fsm_data s"]
    by (simp add: fsm_apply_snapshot_from_file_def Let_def fsm_last_applied_def update_last_applied_def table_wf_def
        fsm_abs_def persist_data_async_def persist_metadata_async_def clear_wal_async_def fs_open_truncate_def fs_write_def)
qed

theorem snapshot_carries_table_not_expiries_witness:
  "\<exists>s' d'. fsm_apply_snapshot_from_file ex_sm_env \<lparr>sm_last_included = Some (mk_lid 1 1), sm_checksum = []\<rparr>
      (fst (fsm_generate_snapshot_data ex_sm_env ex_sm_put)) ex_sm ex_disk = (s', d', Inr (Applied (mk_lid 1 1)))
    \<and> fsm_abs s' = fsm_abs ex_sm_put \<and> fsm_lease s' = fsm_lease ex_sm"
proof -
  let ?dir = "fst (fsm_generate_snapshot_data ex_sm_env ex_sm_put)"
  have io: "\<forall>c. env_io ex_sm_env c = None"
    by (simp add: ex_sm_env_def)
  have "fsm_generate_snapshot_data ex_sm_env ex_sm_put = (?dir, Inr [])"
    and "table_wf (fsm_data ex_sm_put)" and "length (the (map_of ?dir ''snapshot.bin'')) \<le> 2 ^ 62"
    and "fsm_last_applied_index ex_sm < lid_index (mk_lid 1 1)"
    by (simp_all add: fsm_generate_snapshot_data_def folder_checksum_def ex_sm_defs ex_sm_put_def Let_def
        table_wf_def encode_data_def encode_kv_def lease_to_snapshot_def)
  from snapshot_carries_table_not_expiries [OF io io refl this(2,1,3,4), of ex_disk] show ?thesis
    by blast
qed

section \<open>What a restart gets wrong\<close>

lemmas ex_apply_defs = fsm_apply_chunk_def eval_entry_def encode_wal_entry_def expire_at_secs_def append_wal_def
  fs_open_truncate_def fs_write_def apply_memory_entry_def apply_result_success_def apply_result_failure_def
  update_last_applied_def should_checkpoint_def WAL_ENTRY_THRESHOLD_def TIME_THRESHOLD_SECS_def as_secs_def
  append_file_def ex_sm_defs wal_record_def wal_fields_def

text \<open>A restart on a write-ahead log alone.\<close>

lemma fsm_new_wal:
  assumes "recs_ok rs" and "length (wal_bytes rs) \<le> 2 ^ 62" and "\<And>c. env_io env c = None"
    and "\<forall>b \<in> set rs. 0 < fst b"
  shows "\<exists>s'. snd (fsm_new env (ex_disk\<lparr>dk_wal := Some (wal_bytes rs)\<rparr>)) = Inr s'
           \<and> fsm_abs s' = fold (wal_effect (env_now env)) (wal_ops rs) Map.empty
           \<and> fsm_last_applied s' = mk_lid 0 0 \<and> fsm_lease s' = None"
proof -
  let ?d = "ex_disk\<lparr>dk_wal := Some (wal_bytes rs)\<rparr>"
  have "data_rep [] ?d" and "meta_rep 0 0 ?d" and "wal_rep rs ?d" and "files_fit ?d"
    using assms(1,2)
    by (auto simp: data_rep_def meta_rep_def wal_rep_def recs_ok_def files_fit_def table_wf_def ex_disk_def
        intro!: exI [of _ "[]"])
  from fsm_new_rep [OF this assms(3)] show ?thesis
    using assms(4) by simp
qed

lemma fsm_get_abs: "fsm_get k s = map_option fst (fsm_abs s k)"
  by (simp add: fsm_get_def fsm_abs_def)

text \<open>C23: The table of a restart contains the replayed entries, but the last applied index does not
  advance over them, so the log delivers them again.  A failed comparison followed by a
  successful one then ends in another value than before the crash.\<close>

theorem restart_applies_entries_twice:
  "let es = [ex_entry 1 (Cmd_Cas [7] (Some [2]) [3]), ex_entry 2 (Cmd_Cas [7] None [2])] in
   \<exists>s d rs s' d' s'' d'' rs'.
     fsm_apply_chunk ex_sm_env es ex_sm ex_disk = (s, d, Inr rs) \<and> fsm_get [7] s = Some [2]
     \<and> fsm_new ex_sm_env d = (d', Inr s') \<and> fsm_abs s' = fsm_abs s \<and> fsm_last_applied s' = mk_lid 0 0
     \<and> fsm_apply_chunk ex_sm_env es s' d' = (s'', d'', Inr rs') \<and> fsm_get [7] s'' = Some [3]"
proof -
  let ?es = "[ex_entry 1 (Cmd_Cas [7] (Some [2]) [3]), ex_entry 2 (Cmd_Cas [7] None [2])]"
  let ?rs = "[(1, 1, Wal_CasFailed, [], [], 0), (2, 1, Wal_Insert, [7], [2], 0)]"
  let ?s = "ex_sm\<lparr>fsm_data := [([7], [2], 1)], fsm_last_applied_index := 2, fsm_last_applied_term := 1, fsm_wal_entries := 2\<rparr>"
  let ?d = "ex_disk\<lparr>dk_wal := Some (wal_bytes ?rs)\<rparr>"
  have one: "fsm_apply_chunk ex_sm_env ?es ex_sm ex_disk =
      (?s, ?d, Inr [\<lparr>ap_index = 1, ap_succeeded = False\<rparr>, \<lparr>ap_index = 2, ap_succeeded = True\<rparr>])"
    by (simp add: ex_apply_defs cas_base_def cas_keys_def List.map_filter_def)
  have io: "\<And>c. env_io ex_sm_env c = None"
    by (simp add: ex_sm_env_def)
  have "recs_ok ?rs" and "length (wal_bytes ?rs) \<le> 2 ^ 62"
    by (simp_all add: recs_ok_def wal_rec_wf_def expiry_fits_def wal_rec_op_def wal_record_length)
  from fsm_new_wal [OF this io] obtain s' d' where new: "fsm_new ex_sm_env ?d = (d', Inr s')"
      and abs: "fsm_abs s' = [[7] \<mapsto> ([2], 1)]" and last: "fsm_last_applied s' = mk_lid 0 0"
    by (cases "fsm_new ex_sm_env ?d") (auto simp: wal_effect_def wal_write_def wal_rec_op_def secs_expired_def)
  have "is_ok (snd (snd (fsm_apply_chunk ex_sm_env ?es s' d')))"
    by (rule apply_chunk_ok [OF io]) (simp_all add: ttl_accepted_def)
  then obtain s'' d'' rs' where two: "fsm_apply_chunk ex_sm_env ?es s' d' = (s'', d'', Inr rs')"
    by (metis is_ok_iff prod.collapse)
  have "fsm_abs s'' = fst (kv_run ?es (fsm_abs s'))"
    using apply_chunk_refines_run(1) [OF two] by simp
  then have g2: "fsm_get [7] s'' = Some [3]"
    by (simp add: abs fsm_get_abs kv_step_def kv_cas_holds_def Let_def)
  have same: "fsm_abs s' = fsm_abs ?s" and g1: "fsm_get [7] ?s = Some [2]"
    by (simp_all add: abs) (simp_all add: fsm_abs_def fsm_get_def)
  show ?thesis
    unfolding Let_def by (intro exI conjI, rule one, rule g1, rule new, rule same, rule last, rule two, rule g2)
qed

lemma restart_after_chunk:
  assumes "fsm_apply_chunk ex_sm_env es ex_sm ex_disk = (s, ex_disk\<lparr>dk_wal := Some (wal_bytes rs)\<rparr>, Inr results)"
    and "recs_ok rs" and "length (wal_bytes rs) \<le> 2 ^ 62" and "\<And>c. env_io env c = None"
    and "\<forall>b \<in> set rs. 0 < fst b"
  shows "\<exists>d s'. fsm_apply_chunk ex_sm_env es ex_sm ex_disk = (s, d, Inr results) \<and> snd (fsm_new env d) = Inr s'
           \<and> fsm_get k s' = map_option fst (fold (wal_effect (env_now env)) (wal_ops rs) Map.empty k)"
  using fsm_new_wal [OF assms(2-5)] assms(1) by (auto simp: fsm_get_abs)

lemmas ex_recs_defs = recs_ok_def wal_rec_wf_def expiry_fits_def wal_rec_op_def wal_record_length i64_max_def
  ex_sm_env_def wal_effect_def wal_write_def secs_expired_def

text \<open>C24: A key is overwritten by a value with a time to live and the process crashes.  After the
  value has expired a restart skips the record and serves the value that was overwritten.\<close>

theorem expired_value_uncovers_old_one:
  "let es = [ex_put, ex_entry 2 (Cmd_Insert [7] [2] (Some 5))] in
   \<exists>s d rs s'.
     fsm_apply_chunk ex_sm_env es ex_sm ex_disk = (s, d, Inr rs) \<and> fsm_get [7] s = Some [2]
     \<and> snd (fsm_new (ex_sm_env\<lparr>env_now := 5 * nanos_per_sec\<rparr>) d) = Inr s' \<and> fsm_get [7] s' = Some [1]"
proof -
  let ?es = "[ex_put, ex_entry 2 (Cmd_Insert [7] [2] (Some 5))]"
  let ?rs = "[(1, 1, Wal_Insert, [7], [1], 0), (2, 1, Wal_Insert, [7], [2], 5)]"
  obtain s where one: "fsm_apply_chunk ex_sm_env ?es ex_sm ex_disk =
      (s, ex_disk\<lparr>dk_wal := Some (wal_bytes ?rs)\<rparr>, Inr [\<lparr>ap_index = 1, ap_succeeded = True\<rparr>, \<lparr>ap_index = 2, ap_succeeded = True\<rparr>])"
      and get: "fsm_get [7] s = Some [2]"
    by (simp add: ex_apply_defs systime_add_def i64_max_def nanos_per_sec_def lease_register_def ttl_lease_new_def fsm_get_def)
  have "\<exists>d s'. fsm_apply_chunk ex_sm_env ?es ex_sm ex_disk =
      (s, d, Inr [\<lparr>ap_index = 1, ap_succeeded = True\<rparr>, \<lparr>ap_index = 2, ap_succeeded = True\<rparr>])
      \<and> snd (fsm_new (ex_sm_env\<lparr>env_now := 5 * nanos_per_sec\<rparr>) d) = Inr s' \<and> fsm_get [7] s' = Some [1]"
    using restart_after_chunk [OF one, of "ex_sm_env\<lparr>env_now := 5 * nanos_per_sec\<rparr>" "[7]"]
    by (simp add: ex_recs_defs)
  then show ?thesis
    unfolding Let_def using get by blast
qed

text \<open>The same happens to a value that is overwritten by an empty one.\<close>

theorem empty_value_uncovers_old_one:
  "let es = [ex_put, ex_entry 2 (Cmd_Insert [7] [] None)] in
   \<exists>s d rs s'.
     fsm_apply_chunk ex_sm_env es ex_sm ex_disk = (s, d, Inr rs) \<and> fsm_get [7] s = Some []
     \<and> snd (fsm_new ex_sm_env d) = Inr s' \<and> fsm_get [7] s' = Some [1]"
proof -
  let ?es = "[ex_put, ex_entry 2 (Cmd_Insert [7] [] None)]"
  let ?rs = "[(1, 1, Wal_Insert, [7], [1], 0), (2, 1, Wal_Insert, [7], [], 0)]"
  obtain s where one: "fsm_apply_chunk ex_sm_env ?es ex_sm ex_disk =
      (s, ex_disk\<lparr>dk_wal := Some (wal_bytes ?rs)\<rparr>, Inr [\<lparr>ap_index = 1, ap_succeeded = True\<rparr>, \<lparr>ap_index = 2, ap_succeeded = True\<rparr>])"
      and get: "fsm_get [7] s = Some []"
    by (simp add: ex_apply_defs fsm_get_def)
  have "\<exists>d s'. fsm_apply_chunk ex_sm_env ?es ex_sm ex_disk =
      (s, d, Inr [\<lparr>ap_index = 1, ap_succeeded = True\<rparr>, \<lparr>ap_index = 2, ap_succeeded = True\<rparr>])
      \<and> snd (fsm_new ex_sm_env d) = Inr s' \<and> fsm_get [7] s' = Some [1]"
    using restart_after_chunk [OF one, of ex_sm_env "[7]"] by (simp add: ex_recs_defs)
  then show ?thesis
    unfolding Let_def using get by blast
qed

text \<open>C25: A checkpoint truncates the data file before it writes it.  If the process stops in
  between, a restart finds an empty table under the applied index of the last complete
  checkpoint, so that nothing restores what that checkpoint held.\<close>

theorem interrupted_checkpoint_loses_table:
  assumes "checkpoint env s d = (s1, d1, Inr ())"
    and "fsm_last_applied_index s < 2 ^ 64" and "fsm_last_applied_term s < 2 ^ 64"
    and "env_io env1 Open_Data = None" and "env_io env1 Write_Data = Some 0"
    and "checkpoint env1 s2 d1 = (s3, d3, r)" and "\<forall>c. env_io env2 c = None"
  shows "\<not> is_ok r \<and> (\<exists>s'. snd (fsm_new env2 d3) = Inr s' \<and> fsm_abs s' = Map.empty
           \<and> fsm_last_applied s' = fsm_last_applied s)"
proof -
  let ?meta = "u64_to_be_bytes (fsm_last_applied_index s) @ u64_to_be_bytes (fsm_last_applied_term s)"
  have "env_io env Open_Data = None" and "env_io env Write_Data = None"
    using assms(1) by (auto simp: checkpoint_def persist_data_async_def fs_open_truncate_def fs_write_def
        split: option.splits)
  then have d1: "d1 = d\<lparr>dk_data := Some (encode_data (fsm_data s)), dk_meta := Some ?meta, dk_wal := Some []\<rparr>"
    using checkpoint_disk_cases [OF assms(1)] by auto
  have d3: "d3 = d1\<lparr>dk_data := Some []\<rparr>" and r: "\<not> is_ok r"
    using assms(4-6) by (auto simp: checkpoint_def persist_data_async_def fs_open_truncate_def fs_write_def append_file_def)
  have "data_rep [] d3" and "meta_rep (fsm_last_applied_index s) (fsm_last_applied_term s) d3" and "wal_rep [] d3"
    and "files_fit d3"
    using assms(2,3)
    by (auto simp: d3 d1 data_rep_def meta_rep_def wal_rep_def files_fit_def table_wf_def encode_data_def)
  from fsm_new_rep [OF this, of env2] show ?thesis
    using r assms(7) by (auto simp: fsm_last_applied_def)
qed

theorem interrupted_checkpoint_loses_table_witness:
  "\<exists>s'. snd (fsm_new ex_sm_env (fst (snd (checkpoint (ex_sm_env\<lparr>env_io := (\<lambda>c. if c = Write_Data then Some 0 else None)\<rparr>)
      ex_sm_put (fst (snd (checkpoint ex_sm_env ex_sm_put ex_disk_put))))))) = Inr s'
    \<and> fsm_get [7] ex_sm_put = Some [1] \<and> fsm_get [7] s' = None \<and> fsm_last_applied s' = mk_lid 1 1"
proof -
  let ?bad = "ex_sm_env\<lparr>env_io := (\<lambda>c. if c = Write_Data then Some 0 else None)\<rparr>"
  obtain s1 d1 where one: "checkpoint ex_sm_env ex_sm_put ex_disk_put = (s1, d1, Inr ())"
    using checkpoint_ok [of ex_sm_env ex_sm_put ex_disk_put]
    by (cases "checkpoint ex_sm_env ex_sm_put ex_disk_put") (auto simp: is_ok_iff ex_sm_env_def)
  obtain s3 d3 r where two: "checkpoint ?bad ex_sm_put d1 = (s3, d3, r)"
    by (metis surj_pair)
  have "fsm_last_applied_index ex_sm_put < 2 ^ 64" and "fsm_last_applied_term ex_sm_put < 2 ^ 64"
    and "env_io ?bad Open_Data = None" and "env_io ?bad Write_Data = Some 0" and "\<forall>c. env_io ex_sm_env c = None"
    by (simp_all add: ex_sm_put_def ex_sm_env_def)
  from interrupted_checkpoint_loses_table [OF one this(1-4) two this(5)]
  obtain s' where s': "snd (fsm_new ex_sm_env d3) = Inr s'" "fsm_abs s' = Map.empty"
      "fsm_last_applied s' = fsm_last_applied ex_sm_put"
    by blast
  have "fsm_get [7] ex_sm_put = Some [1]" and "fsm_last_applied ex_sm_put = mk_lid 1 1"
    by (simp_all add: fsm_get_def fsm_last_applied_def ex_sm_put_def ex_sm_def)
  then show ?thesis
    using s' by (simp add: one two fsm_get_abs)
qed

text \<open>A time to live of more than \<open>2^63 - 1\<close> seconds, which a client may send, makes every
  replica panic when it applies the entry: the expiry time overflows the clock.\<close>

theorem huge_ttl_panics:
  assumes "ay_command e = Cmd_Insert key val (Some ttl)" and "ttl > i64_max"
  shows "fsm_apply_chunk env [e] s d = (s, d, Inl (Panic ''overflow when adding duration to instant''))"
  using assms by (simp add: fsm_apply_chunk_def eval_entry_def encode_wal_entry_def expire_at_secs_def systime_add_def)

theorem huge_ttl_panics_witness:
  "fsm_apply_chunk ex_sm_env [ex_entry 1 (Cmd_Insert [7] [1] (Some u64_max))] ex_sm ex_disk =
     (ex_sm, ex_disk, Inl (Panic ''overflow when adding duration to instant''))"
  by (rule huge_ttl_panics) (auto simp: u64_max_def i64_max_def)

text \<open>An empty batch is written as an index and a term without a record.  After a crash the next
  entry's bytes are read as its record, and the entries behind it are lost.\<close>

theorem empty_batch_hides_later_entries:
  "let es = [ex_entry 1 (Cmd_Batch []), ex_entry 2 (Cmd_Insert [7] [1] None)] in
   \<exists>s d rs s'.
     fsm_apply_chunk ex_sm_env es ex_sm ex_disk = (s, d, Inr rs) \<and> fsm_get [7] s = Some [1]
     \<and> snd (fsm_new ex_sm_env d) = Inr s' \<and> fsm_abs s' = Map.empty"
proof -
  let ?es = "[ex_entry 1 (Cmd_Batch []), ex_entry 2 (Cmd_Insert [7] [1] None)]"
  let ?buf = "u64_to_be_bytes 1 @ u64_to_be_bytes 1 @ wal_record 2 1 (Wal_Insert, [7], [1], 0)"
  let ?d = "ex_disk\<lparr>dk_wal := Some ?buf\<rparr>"
  have be: "u64_to_be_bytes 1 = [0, 0, 0, 0, 0, 0, 0, 1]" "u64_to_be_bytes 2 = [0, 0, 0, 0, 0, 0, 0, 2]"
    "u64_to_be_bytes 0 = [0, 0, 0, 0, 0, 0, 0, 0]"
    by (simp_all add: u64_to_be_bytes_def upt_rec [of _ 8])
  obtain s where one: "fsm_apply_chunk ex_sm_env ?es ex_sm ex_disk =
      (s, ?d, Inr [\<lparr>ap_index = 1, ap_succeeded = True\<rparr>, \<lparr>ap_index = 2, ap_succeeded = True\<rparr>])"
      and get: "fsm_get [7] s = Some [1]"
    by (simp add: ex_apply_defs fsm_get_def)
  have "parse_wal 0 0 ?buf = Inr []"
    by (subst parse_wal.simps)
      (simp add: be [simplified] wal_record_def wal_fields_def opcode_to_u8_def parse_record_def opcode_from_u8_def
        read_block_def read_u64_def u64_from_be_bytes_def u64_max_def)
  then have "fsm_new ex_sm_env ?d = (ex_disk\<lparr>dk_wal := Some []\<rparr>, Inr (ex_sm\<lparr>fsm_lease := None\<rparr>))"
    by (simp add: fsm_new_def load_from_disk_def load_metadata_def load_data_def load_ttl_data_def replay_wal_def
        clear_wal_async_def fs_open_truncate_def ex_sm_defs be)
  then have new: "snd (fsm_new ex_sm_env ?d) = Inr (ex_sm\<lparr>fsm_lease := None\<rparr>)"
    by simp
  have empty: "fsm_abs (ex_sm\<lparr>fsm_lease := None\<rparr>) = Map.empty"
    by (simp add: fsm_abs_def ex_sm_def)
  show ?thesis
    unfolding Let_def by (intro exI conjI, rule one, rule get, rule new, rule empty)
qed

text \<open>A restart never has a lease and empties the write-ahead log, so the expiry times recorded
  in the log are lost: the keys no longer expire.\<close>

lemma replay_op_lease: "fsm_lease s = None \<Longrightarrow> replay_op now reg_now op s = Inr s' \<Longrightarrow> fsm_lease s' = None"
  by (auto simp: replay_op_def restore_ttl_def elim!: bind_result_InrE
      split: wal_opcode.splits option.splits if_splits)

lemma replay_ops_lease: "fsm_lease s = None \<Longrightarrow> replay_ops now reg_now ops s = Inr s' \<Longrightarrow> fsm_lease s' = None"
  by (induction ops arbitrary: s) (auto elim!: bind_result_InrE dest: replay_op_lease)

theorem restart_forgets_expiries:
  assumes "fsm_new env d = (d', Inr s)"
  shows "fsm_lease s = None \<and> (dk_wal d = None \<or> dk_wal d' = Some [])"
  using assms
  by (auto simp: fsm_new_def load_from_disk_def load_metadata_def load_data_def load_ttl_data_def replay_wal_def
      clear_wal_async_def fs_open_truncate_def elim!: bind_result_InrE dest!: replay_ops_lease [rotated]
      split: option.splits sum.splits if_splits prod.splits)

end
