(* ===== verification/Spec2Isabelle.thy ===== *)
theory Spec2Isabelle
  imports DPrelude Raft_Types Quorum Read_Lease Log_Properties Repl_Properties Membership Loop_Properties Kv_Properties
begin

text \<open>
  Verification of d-engine, a Raft engine in Rust: its log and storage, elections, replication,
  membership, the four roles, the loop that drives them, and the file-backed state machine.

  \<^bold>\<open>The program.\<close>  One task per node runs the Raft loop (\<^verbatim>\<open>Raft::run\<close> in
  \<^verbatim>\<open>d-engine-core/src/raft.rs\<close>).  A turn picks, in a fixed order of preference, a shutdown
  signal, a tick, an internal event, client commands or inbound events, and hands them to the
  role the node plays (follower, candidate, leader or learner).  The roles call the election
  handler, the replication handler, the membership and the buffered log.  The log lives in
  memory; an IO thread and an fsync task write it to a log store and report how far it is
  durable.  Committed entries go to a state machine, here the one that keeps its table in files.

  \<^bold>\<open>Conventions.\<close>  An operation that can fail returns \<^verbatim>\<open>error + 'a\<close>; a panic is the error
  \<^verbatim>\<open>Panic\<close>.  State is passed explicitly.  Answers of peers, clocks, disks and codecs are
  arguments or fields of environment records, so every theorem holds for all of their outcomes
  unless it states otherwise.  Indexes and terms are natural numbers (\<^verbatim>\<open>u64\<close> in \<^verbatim>\<open>DPrelude\<close>);
  where the code tests for, saturates at or panics on the 64-bit limit the model writes it out
  with \<^verbatim>\<open>u64_max\<close>.  The read lease is a 64-bit word.  Ordered and concurrent maps are
  association lists sorted by key, which also fixes an order for the hash map of the membership;
  no theorem depends on that order.

  \<^bold>\<open>Shared theories.\<close>
  \<^item> \<^verbatim>\<open>DPrelude\<close>: errors, results, sorted association lists, list facts.
  \<^item> \<^verbatim>\<open>Raft_Types\<close>: the messages of \<^verbatim>\<open>d-engine-proto\<close> and their helper methods.
  \<^item> \<^verbatim>\<open>Quorum\<close>: \<^verbatim>\<open>utils/cluster.rs\<close>; the locale \<^verbatim>\<open>quorum_system\<close>, interpreted on majorities.
  \<^item> \<^verbatim>\<open>Read_Lease\<close>: \<^verbatim>\<open>raft_role/read_lease.rs\<close>, packing, renewal and validity.
  \<^item> \<^verbatim>\<open>Byte_Codec\<close>: big-endian integers and framed fields of all file formats.

  \<^bold>\<open>The log\<close> (\<^verbatim>\<open>d-engine-core/src/storage\<close>).
  \<^item> \<^verbatim>\<open>Term_Segments\<close> and \<^verbatim>\<open>Buffered_Log\<close> model \<^verbatim>\<open>buffered_raft_log.rs\<close>: the record \<^verbatim>\<open>raft_log\<close> is
    \<^verbatim>\<open>BufferedRaftLog\<close>, with one definition per method.
  \<^item> \<^verbatim>\<open>Log_Invariant\<close>: \<^verbatim>\<open>log_inv\<close> says that bounds, term indexes and term segments are determined
    by the entries; every operation keeps it.  \<^verbatim>\<open>Log_Conflict\<close> relates the follower's append to the
    receiver rule of the Raft paper.
  \<^item> \<^verbatim>\<open>Log_Interface\<close>: the \<^verbatim>\<open>RaftLog\<close> trait as the locales \<^verbatim>\<open>raft_log_reads\<close> and
    \<^verbatim>\<open>raft_log_writes\<close>, interpreted on the buffered log; replication rests on them.
  \<^item> \<^verbatim>\<open>Log_Io\<close>: the IO thread (\<^verbatim>\<open>batch_processor\<close>) and \<^verbatim>\<open>fsync_coordinator.rs\<close> as steps that
    interleave with the Raft loop.  \<^verbatim>\<open>Io_Props\<close>: reply channels, durability and fencing.
  \<^item> \<^verbatim>\<open>File_Store\<close>: \<^verbatim>\<open>FileLogStore\<close> of \<^verbatim>\<open>file_storage_engine.rs\<close> over the bytes of its file.
    \<^verbatim>\<open>Store_Laws\<close>: the locale \<^verbatim>\<open>log_store_laws\<close>, interpreted on it.
  \<^item> \<^verbatim>\<open>Log_Properties\<close>: the properties of the log, among them that in every log reachable by the
    operations the lookups agree with the entries, and that a durable log is recovered.

  \<^bold>\<open>Replication\<close> (\<^verbatim>\<open>d-engine-core/src/replication\<close>).  \<^verbatim>\<open>Replication\<close> has the operations of
  \<^verbatim>\<open>replication_handler.rs\<close>.  \<^verbatim>\<open>Repl_Rounds\<close> shows what the leader appends and sends,
  \<^verbatim>\<open>Repl_Follower\<close> what an accepted request does and that the search for the last common entry
  ends; \<^verbatim>\<open>Repl_Properties\<close> states the results.

  \<^bold>\<open>Membership\<close> (\<^verbatim>\<open>d-engine-server/src/membership\<close>).  \<^verbatim>\<open>Membership\<close> has the node table, its queries
  and changes, the exact effect of each configuration change, the guards of updates sent by a
  leader, and the overlap of majorities across a change of one node.

  \<^bold>\<open>Roles and elections\<close> (\<^verbatim>\<open>d-engine-core/src/raft_role\<close>, \<^verbatim>\<open>election\<close>).
  \<^item> \<^verbatim>\<open>Election\<close>: \<^verbatim>\<open>election_handler.rs\<close>.  \<^verbatim>\<open>Role_State\<close>: \<^verbatim>\<open>role_state.rs\<close> and the shared state.
    \<^verbatim>\<open>Roles\<close>: follower, candidate and learner.
  \<^item> \<^verbatim>\<open>Batch_Buffers\<close>, \<^verbatim>\<open>Leader_State\<close>, \<^verbatim>\<open>Leader_Rpc\<close>, \<^verbatim>\<open>Leader_Events\<close>: the leader
    (\<^verbatim>\<open>leader_state.rs\<close>) with its client buffers.
  \<^item> \<^verbatim>\<open>Raft_Loop\<close>: \<^verbatim>\<open>raft.rs\<close>, the turn of the loop and all internal events.
  \<^item> \<^verbatim>\<open>Voter\<close>: the voting rule as an automaton that every handler refines.  \<^verbatim>\<open>Vote_Durability\<close>:
    votes are saved before they are answered.  \<^verbatim>\<open>Leader_Frame\<close>: what the leader's operations leave
    alone.  \<^verbatim>\<open>Role_Wf\<close>: a turn of the loop keeps the type of the role.
  \<^item> \<^verbatim>\<open>Election_Safety\<close> and \<^verbatim>\<open>Raft_Cluster\<close>: the abstract election and the cluster of nodes that
    refines it.  The steps of the cluster have conditions, listed at the head of \<^verbatim>\<open>Raft_Cluster\<close>;
    the code violates two of them, which \<^verbatim>\<open>Election_Properties\<close> proves.
  \<^item> \<^verbatim>\<open>Election_Properties\<close>, \<^verbatim>\<open>Leader_Properties\<close>, \<^verbatim>\<open>Loop_Properties\<close>: the results;
    \<^verbatim>\<open>Loop_Examples\<close>: the nodes they are evaluated on.

  \<^bold>\<open>The file state machine\<close> (\<^verbatim>\<open>d-engine-server/src/storage\<close>).
  \<^item> \<^verbatim>\<open>Kv_Command\<close>: \<^verbatim>\<open>command.rs\<close>.  \<^verbatim>\<open>Ttl_Lease\<close>: \<^verbatim>\<open>lease.rs\<close>.  \<^verbatim>\<open>Kv_Wal\<close> and \<^verbatim>\<open>Wal_Codec\<close>: the
    formats of the write-ahead log and the data file, and their round trips.
  \<^item> \<^verbatim>\<open>File_Sm\<close>: every operation of \<^verbatim>\<open>FileStateMachine\<close> over the contents of its files; each
    file-system call may fail after any number of bytes.
  \<^item> \<^verbatim>\<open>Kv_Refinement\<close>: chunks refine the abstract machine \<^verbatim>\<open>kv_run\<close>.  \<^verbatim>\<open>Kv_Recovery\<close> and
    \<^verbatim>\<open>Kv_Crash\<close>: restarts and crashes, over histories (\<^verbatim>\<open>fsm_history\<close>) of chunks, checkpoints,
    lease injection and restarts right after a checkpoint, from empty files.
    \<^verbatim>\<open>Kv_Properties\<close> states the results.

  \<^bold>\<open>Loops, fuel and bounds.\<close>  Parsing loops and backtracking recurse on the remaining bytes or on
  the next index.  The fsync task runs with fuel; three turns suffice after one wake-up.  The
  learner's discovery is a \<^verbatim>\<open>partial_function\<close>, and it is proved exactly when it returns.  Crash
  and snapshot theorems bound files by \<open>2 ^ 62\<close> bytes, so that positions fit the 64-bit
  lengths in the files.  Plain sums that the code does not guard are unbounded in the model: the
  next term of a candidate, the successor of the last index in the log, and the position behind
  a frame of the log file.  They agree with the code while terms and indexes stay below
  \<open>2 ^ 64 - 1\<close> and no corrupt frame claims a length near \<open>2 ^ 64\<close>; beyond that the code
  panics.

  \<^bold>\<open>Not modelled.\<close>  Generated protobuf code and the wire codec (parameters); gRPC services,
  connections, health checks and the client library (network input and output; peers' answers are
  parameters); the RocksDB adaptors (calls of a foreign library); the state machine handler, its
  worker, the commit handler and snapshot transfer (file and stream handling around the state
  machine, seen by the roles as events and outcomes); node construction, configuration parsing,
  the embedded and standalone interfaces, the watch manager, metrics and logging.
\<close>

end
